theory Spec2Isabelle
  imports Complex_Main "HOL-Library.Multiset"
begin

section \<open>JavaScript values and objects\<close>

text \<open>
  A JavaScript number is a finite double, one of the two infinities, or NaN. A finite double
  is modelled by the real number that it denotes; \<open>+0\<close> and \<open>-0\<close> are one value (the code
  below never tells them apart). A text is the list of its characters.
\<close>

datatype jsnum = Fin real | PosInf | NegInf | NaN

datatype jsval = Undefined | Null | Bool bool | Num jsnum | Str string

text \<open>
  An object is an association list from property names to values, in insertion order.
  Reading a property that is absent yields \<open>undefined\<close>.
\<close>

type_synonym obj = "(string \<times> jsval) list"

definition get :: "obj \<Rightarrow> string \<Rightarrow> jsval" where
  "get o' k = (case map_of o' k of Some v \<Rightarrow> v | None \<Rightarrow> Undefined)"

text \<open>\<open>o[k] = v\<close>, and \<open>m.set(k, v)\<close> on a \<open>Map\<close>: an existing key keeps its place, a new
  one goes last.\<close>

fun set_prop :: "'k \<Rightarrow> 'v \<Rightarrow> ('k \<times> 'v) list \<Rightarrow> ('k \<times> 'v) list" where
  "set_prop k v [] = [(k, v)]"
| "set_prop k v ((k', v') # ps) = (if k' = k then (k, v) # ps else (k', v') # set_prop k v ps)"

text \<open>\<open>{...a, ...b}\<close>: the properties of \<open>b\<close> are written over a copy of \<open>a\<close>.\<close>

definition spread :: "obj \<Rightarrow> obj \<Rightarrow> obj" where
  "spread a b = fold (\<lambda>(k, v). set_prop k v) b a"

text \<open>\<open>typeof value === 'number' && isFinite(value)\<close>, returning the value when it holds.\<close>

fun finite_number :: "jsval \<Rightarrow> real option" where
  "finite_number (Num (Fin r)) = Some r"
| "finite_number _ = None"

section \<open>Built-in conversions and operators\<close>

text \<open>
  What belongs to the language, and not to this repository, is a parameter of the model:
  \<open>parseFloat\<close>; \<open>ToNumber\<close> applied to a string; \<open>String\<close> applied to a number;
  \<open>String.prototype.trim\<close>, which strips from both ends of a text the white space and the
  line terminators of Unicode; and the rounding of a real number to the nearest double, by
  which the language fixes the result of an arithmetic operation on doubles.
\<close>

record builtins =
  parseFloat :: "string \<Rightarrow> jsnum"
  stringToNumber :: "string \<Rightarrow> jsnum"
  numberToString :: "jsnum \<Rightarrow> string"
  trim :: "string \<Rightarrow> string"
  nearest_double :: "real \<Rightarrow> real"

text \<open>
  The largest finite double is \<open>2^1024 - 2^971\<close>. An operation whose exact result reaches
  \<open>2^1024 - 2^970\<close> in magnitude, half a unit in the last place beyond it, yields an
  infinity; any other exact result is rounded to the nearest double.
\<close>

definition overflow_bound :: real where
  "overflow_bound = 2 ^ 1024 - 2 ^ 970"

definition to_double :: "builtins \<Rightarrow> real \<Rightarrow> jsnum" where
  "to_double B x =
     (if overflow_bound \<le> x then PosInf
      else if x \<le> - overflow_bound then NegInf
      else Fin (nearest_double B x))"

text \<open>Addition of numbers, as IEEE 754 defines it.\<close>

fun num_add :: "builtins \<Rightarrow> jsnum \<Rightarrow> jsnum \<Rightarrow> jsnum" where
  "num_add B NaN _ = NaN"
| "num_add B _ NaN = NaN"
| "num_add B (Fin a) (Fin b) = to_double B (a + b)"
| "num_add B (Fin a) PosInf = PosInf"
| "num_add B (Fin a) NegInf = NegInf"
| "num_add B PosInf NegInf = NaN"
| "num_add B PosInf _ = PosInf"
| "num_add B NegInf PosInf = NaN"
| "num_add B NegInf _ = NegInf"

text \<open>Division of a number by a count, that is, by a non-negative integer (which is \<open>+0\<close>
  when it is zero).\<close>

fun num_div_count :: "builtins \<Rightarrow> jsnum \<Rightarrow> nat \<Rightarrow> jsnum" where
  "num_div_count B (Fin a) n =
     (if n = 0 then (if a = 0 then NaN else if 0 < a then PosInf else NegInf)
      else to_double B (a / real n))"
| "num_div_count B x n = x"

text \<open>Decimal rendering of a non-negative integer, as a template literal renders an array
  index or a millisecond timestamp.\<close>

definition digit_char :: "nat \<Rightarrow> char" where
  "digit_char d = ''0123456789'' ! d"

fun show_nat :: "nat \<Rightarrow> string" where
  "show_nat n = (if n < 10 then [digit_char n] else show_nat (n div 10) @ [digit_char (n mod 10)])"

declare show_nat.simps [simp del]

fun truthy :: "jsval \<Rightarrow> bool" where
  "truthy Undefined = False"
| "truthy Null = False"
| "truthy (Bool b) = b"
| "truthy (Num (Fin r)) = (r \<noteq> 0)"
| "truthy (Num NaN) = False"
| "truthy (Num PosInf) = True"
| "truthy (Num NegInf) = True"
| "truthy (Str s) = (s \<noteq> [])"

text \<open>\<open>a || b\<close>\<close>

definition or_else :: "jsval \<Rightarrow> jsval \<Rightarrow> jsval" where
  "or_else a b = (if truthy a then a else b)"

fun toNumber :: "builtins \<Rightarrow> jsval \<Rightarrow> jsnum" where
  "toNumber B Undefined = NaN"
| "toNumber B Null = Fin 0"
| "toNumber B (Bool b) = Fin (if b then 1 else 0)"
| "toNumber B (Num n) = n"
| "toNumber B (Str s) = stringToNumber B s"

fun toString :: "builtins \<Rightarrow> jsval \<Rightarrow> string" where
  "toString B Undefined = ''undefined''"
| "toString B Null = ''null''"
| "toString B (Bool b) = (if b then ''true'' else ''false'')"
| "toString B (Num n) = numberToString B n"
| "toString B (Str s) = s"

text \<open>
  Subtraction and comparison of numbers, as IEEE 754 defines them on the infinities and
  NaN. A difference is read by the comparators below, and of a comparator's result a sort
  reads the sign only; rounding and overflow leave the sign of a difference of two doubles
  as it is, so the exact difference stands for the rounded one.
\<close>

fun num_sub :: "jsnum \<Rightarrow> jsnum \<Rightarrow> jsnum" where
  "num_sub NaN _ = NaN"
| "num_sub _ NaN = NaN"
| "num_sub (Fin a) (Fin b) = Fin (a - b)"
| "num_sub (Fin a) PosInf = NegInf"
| "num_sub (Fin a) NegInf = PosInf"
| "num_sub PosInf PosInf = NaN"
| "num_sub PosInf _ = PosInf"
| "num_sub NegInf NegInf = NaN"
| "num_sub NegInf _ = NegInf"

fun num_le :: "jsnum \<Rightarrow> jsnum \<Rightarrow> bool" where
  "num_le NaN _ = False"
| "num_le _ NaN = False"
| "num_le (Fin a) (Fin b) = (a \<le> b)"
| "num_le NegInf _ = True"
| "num_le _ PosInf = True"
| "num_le _ _ = False"

fun positive :: "jsnum \<Rightarrow> bool" where
  "positive (Fin r) = (r > 0)"
| "positive PosInf = True"
| "positive _ = False"

text \<open>
  \<open>Array.prototype.sort\<close> with a comparator. The sort is stable, and a comparator result
  that is NaN counts as 0; an element moves behind another only when the comparator
  returns a positive number for the pair. For a comparator that orders the elements
  consistently this insertion sort returns the list that every conforming engine returns.
\<close>

fun insert_sorted :: "('a \<Rightarrow> 'a \<Rightarrow> jsnum) \<Rightarrow> 'a \<Rightarrow> 'a list \<Rightarrow> 'a list" where
  "insert_sorted cmp x [] = [x]"
| "insert_sorted cmp x (y # ys) =
     (if positive (cmp x y) then y # insert_sorted cmp x ys else x # y # ys)"

definition array_sort :: "('a \<Rightarrow> 'a \<Rightarrow> jsnum) \<Rightarrow> 'a list \<Rightarrow> 'a list" where
  "array_sort cmp xs = foldr (insert_sorted cmp) xs []"

text \<open>\<open>Array.prototype.findIndex\<close>; \<open>None\<close> stands for \<open>-1\<close>.\<close>

fun findIndex :: "('a \<Rightarrow> bool) \<Rightarrow> 'a list \<Rightarrow> nat option" where
  "findIndex P [] = None"
| "findIndex P (x # xs) = (if P x then Some 0 else map_option Suc (findIndex P xs))"

section \<open>The average computer\<close>

text \<open>\<open>calculateAveragesFromDataPoints\<close> of DataInputManager.tsx and CoreDashboard.tsx
  (the two copies are the same text).\<close>

definition labAnalysisKeys :: "string list" where
  "labAnalysisKeys =
     [''delta18O'', ''delta13C'', ''mgCaRatio'', ''tex86'',
      ''alkenoneSST'', ''calculatedSST'', ''baCa'', ''srCa'',
      ''cdCa'', ''radiocarbonDate'']"

text \<open>
  The dictionaries \<open>sums\<close> and \<open>counts\<close>; both start at 0 on every enumerated key and are
  read on enumerated keys only. A sum is a number, to which \<open>sums[key] += value\<close> adds in
  double arithmetic. A count is at most the length of an array, which is below \<open>2^32\<close>, so
  that \<open>counts[key]++\<close> is exact; it is a natural number.
\<close>

type_synonym tally = "(string \<Rightarrow> jsnum) \<times> (string \<Rightarrow> nat)"

definition add_value :: "builtins \<Rightarrow> obj \<Rightarrow> string \<Rightarrow> tally \<Rightarrow> tally" where
  "add_value B point key t =
     (case finite_number (get point key) of
        Some value \<Rightarrow>
          ((fst t)(key := num_add B (fst t key) (Fin value)), (snd t)(key := snd t key + 1))
      | None \<Rightarrow> t)"

definition add_point :: "builtins \<Rightarrow> obj \<Rightarrow> tally \<Rightarrow> tally" where
  "add_point B point t = fold (add_value B point) labAnalysisKeys t"

definition put_average :: "builtins \<Rightarrow> tally \<Rightarrow> string \<Rightarrow> obj \<Rightarrow> obj" where
  "put_average B t key averages =
     (if snd t key > 0 then set_prop key (Num (num_div_count B (fst t key) (snd t key))) averages
      else averages)"

definition calculateAveragesFromDataPoints :: "builtins \<Rightarrow> obj list \<Rightarrow> obj" where
  "calculateAveragesFromDataPoints B dataPoints =
     (if dataPoints = [] then []
      else let t = fold (add_point B) dataPoints (\<lambda>_. Fin 0, \<lambda>_. 0)
           in fold (put_average B t) labAnalysisKeys [])"

section \<open>Sections and the manual entry form\<close>

text \<open>Of a section, the fields that the modelled code reads or writes; an update written
  \<open>{...section, dataPoints, labAnalysis}\<close> leaves every other field as it is.\<close>

record Section =
  section_id :: string
  name :: string
  dataPoints :: "obj list"
  labAnalysis :: "obj option"

datatype status = Success string | Error string | Info string

text \<open>The comparator \<open>(a, b) => (a.depth || 0) - (b.depth || 0)\<close>.\<close>

definition depth_key :: "builtins \<Rightarrow> obj \<Rightarrow> jsnum" where
  "depth_key B a = toNumber B (or_else (get a ''depth'') (Num (Fin 0)))"

definition by_depth :: "builtins \<Rightarrow> obj \<Rightarrow> obj \<Rightarrow> jsnum" where
  "by_depth B a b = num_sub (depth_key B a) (depth_key B b)"

text \<open>
  The state of the component \<open>DataInputManager\<close>. \<open>sectionProp\<close> is the section the
  component works on; \<open>onUpdateSection\<close> hands a new section to the parent, which is
  modelled as replacing \<open>sectionProp\<close>. \<open>selectedFile\<close> is the selected file, by its name; what
  the delimited-text parser reports for it is handed to the handlers that read it. The
  timers that clear the status message later are not modelled.
\<close>

record parse_results =
  meta_fields :: "string list option"
  data :: "obj list"
  errors :: "string list"

type_synonym header_map = "(string \<times> string option) list"

record DataInputManager =
  sectionProp :: Section
  formState :: "(string \<times> string) list"
  selectedFile :: "string option"
  status :: "status option"
  isProcessing :: bool
  isMappingHeaders :: bool
  csvHeaders :: "string list"
  headerMap :: "header_map option"

definition initialFormState :: "(string \<times> string) list" where
  "initialFormState =
     [(''subsection'', []), (''depth'', []), (''delta18O'', []), (''delta13C'', []),
      (''mgCaRatio'', []), (''tex86'', []), (''alkenoneSST'', []), (''baCa'', []),
      (''srCa'', []), (''cdCa'', []), (''radiocarbonDate'', [])]"

text \<open>The form state holds every one of its keys from its creation on, so that reading a
  key finds a text; for a key it lacks the model reads the empty text.\<close>

definition form_value :: "(string \<times> string) list \<Rightarrow> string \<Rightarrow> string" where
  "form_value form key = (case map_of form key of Some text \<Rightarrow> text | None \<Rightarrow> [])"

definition next_form :: "nat \<Rightarrow> (string \<times> string) list" where
  "next_form n = (''subsection'', ''Sample '' @ show_nat (n + 1)) # tl initialFormState"

text \<open>One round of the loop \<open>for (const key in formState)\<close> of \<open>handleAddDataPoint\<close>; the
  accumulator is \<open>newPointData\<close> with \<open>hasValue\<close>.\<close>

definition read_field :: "builtins \<Rightarrow> string \<times> string \<Rightarrow> obj \<times> bool \<Rightarrow> obj \<times> bool" where
  "read_field B entry acc =
     (if fst entry \<noteq> ''subsection'' \<and> snd entry \<noteq> [] then
        (let numValue = parseFloat B (snd entry)
         in if numValue \<noteq> NaN then (set_prop (fst entry) (Num numValue) (fst acc), True) else acc)
      else acc)"

definition collect_fields :: "builtins \<Rightarrow> (string \<times> string) list \<Rightarrow> string \<Rightarrow> obj \<times> bool" where
  "collect_fields B form subsectionId =
     fold (read_field B) form ([(''subsection'', Str subsectionId)], False)"

definition quoted :: "string \<Rightarrow> string" where
  "quoted s = [CHR 0x22] @ s @ [CHR 0x22]"

definition handleAddDataPoint :: "builtins \<Rightarrow> DataInputManager \<Rightarrow> DataInputManager" where
  "handleAddDataPoint B st =
     (let subsectionId = trim B (form_value (formState st) ''subsection'') in
      if subsectionId = [] then st\<lparr>status := Some (Error ''Subsection ID is a required field.'')\<rparr>
      else
        let filled = collect_fields B (formState st) subsectionId;
            newPointData = fst filled;
            hasValue = snd filled
        in
        if \<not> hasValue
        then st\<lparr>status := Some (Error ''At least one data value (e.g., depth) must be provided.'')\<rparr>
        else
          let points = dataPoints (sectionProp st);
              existingPointIndex = findIndex (\<lambda>dp. get dp ''subsection'' = Str subsectionId) points;
              changed = (case existingPointIndex of
                  Some i \<Rightarrow> points[i := spread (points ! i) newPointData]
                | None \<Rightarrow> points @ [newPointData]);
              newDataPoints = array_sort (by_depth B) changed;
              newLabAnalysis = calculateAveragesFromDataPoints B newDataPoints
          in st\<lparr>sectionProp := (sectionProp st)\<lparr>dataPoints := newDataPoints,
                                                  labAnalysis := Some newLabAnalysis\<rparr>,
                 status := Some (Success (''Subsection '' @ quoted subsectionId @
                              (case existingPointIndex of Some i \<Rightarrow> '' updated.'' | None \<Rightarrow> '' added.''))),
                 formState := next_form (length newDataPoints)\<rparr>)"

section \<open>Bulk import\<close>

text \<open>An asynchronous call either raises or returns.\<close>

datatype 'a attempt = Raises string | Returns 'a

text \<open>
  \<open>mapCsvHeaders\<close> (geminiService). \<open>ai\<close> is the client of the generative service, absent
  when no API key is configured; applied to the headers (which fix the prompt and the
  response schema) its request raises or resolves with a text. \<open>json_mapping text\<close> is
  the evaluation of \<open>JSON.parse(text).mapping\<close>: it raises, or yields the mapping, or
  \<open>undefined\<close> (\<open>None\<close>) when the parsed answer has no such property.
\<close>

definition null_mapping :: "string list \<Rightarrow> header_map" where
  "null_mapping headers = fold (\<lambda>header acc. set_prop header None acc) headers []"

definition mapCsvHeaders ::
  "(string list \<Rightarrow> string attempt) option \<Rightarrow> (string \<Rightarrow> header_map option attempt) \<Rightarrow>
   string list \<Rightarrow> header_map option attempt" where
  "mapCsvHeaders ai json_mapping headers =
     (case ai of
        None \<Rightarrow> Raises ''API key is not configured.''
      | Some generateContent \<Rightarrow>
          (case generateContent headers of
             Raises e \<Rightarrow> Returns (Some (null_mapping headers))
           | Returns text \<Rightarrow>
               (case json_mapping text of
                  Raises e \<Rightarrow> Returns (Some (null_mapping headers))
                | Returns mapping \<Rightarrow> Returns mapping)))"

datatype file_format = csv | odv

fun toUpperCase :: "file_format \<Rightarrow> string" where
  "toUpperCase csv = ''CSV''"
| "toUpperCase odv = ''ODV''"

text \<open>
  \<open>triggerHeaderMapping\<close>: \<open>preview\<close> is what the parser reports for the first line of the
  selected file. The second component of the result lists the header lists with which
  \<open>mapCsvHeaders\<close> was invoked. When that call raises, the callback ends there.
\<close>

definition triggerHeaderMapping ::
  "(string list \<Rightarrow> string attempt) option \<Rightarrow> (string \<Rightarrow> header_map option attempt) \<Rightarrow>
   file_format \<Rightarrow> parse_results \<Rightarrow> DataInputManager \<Rightarrow> DataInputManager \<times> string list list" where
  "triggerHeaderMapping ai json_mapping format preview st =
     (let st1 = st\<lparr>isProcessing := True,
                    status := Some (Info (''Analyzing '' @ toUpperCase format @ '' headers with AI...''))\<rparr>;
          headers = (case meta_fields preview of Some fs \<Rightarrow> fs | None \<Rightarrow> [])
      in if headers = []
         then (st1\<lparr>status := Some (Error (''Could not read headers from '' @ toUpperCase format @ ''.'')),
                   isProcessing := False\<rparr>, [])
         else (case mapCsvHeaders ai json_mapping headers of
                 Raises e \<Rightarrow> (st1\<lparr>csvHeaders := headers\<rparr>, [headers])
               | Returns aiMap \<Rightarrow>
                   (st1\<lparr>csvHeaders := headers, headerMap := aiMap, isMappingHeaders := True,
                        isProcessing := False, status := None\<rparr>, [headers])))"

text \<open>\<open>String.prototype.replace(',', '.')\<close>: the first comma only.\<close>

fun replace_comma :: "string \<Rightarrow> string" where
  "replace_comma [] = []"
| "replace_comma (c # cs) = (if c = CHR '','' then CHR ''.'' # cs else c # replace_comma cs)"

text \<open>One round of \<open>for (const header in row)\<close> in \<open>handleConfirmMapping\<close>.\<close>

definition parse_cell :: "builtins \<Rightarrow> header_map \<Rightarrow> string \<times> jsval \<Rightarrow> obj \<Rightarrow> obj" where
  "parse_cell B finalMap cell newRow =
     (case map_of finalMap (fst cell) of
        Some (Some mappedKey) \<Rightarrow>
          if mappedKey = [] then newRow
          else
            (let v = snd cell in
             if v = Null \<or> v = Str [] \<or> v = Undefined then newRow
             else if mappedKey = ''subsection'' then set_prop mappedKey (Str (toString B v)) newRow
             else
               (let numValue = parseFloat B (replace_comma (toString B v))
                in if numValue \<noteq> NaN then set_prop mappedKey (Num numValue) newRow else newRow))
      | _ \<Rightarrow> newRow)"

definition parse_row :: "builtins \<Rightarrow> header_map \<Rightarrow> obj \<Rightarrow> obj" where
  "parse_row B finalMap row = fold (parse_cell B finalMap) row []"

definition parsedDataFromCsv :: "builtins \<Rightarrow> header_map \<Rightarrow> obj list \<Rightarrow> obj list" where
  "parsedDataFromCsv B finalMap rows = filter (\<lambda>dp. dp \<noteq> []) (map (parse_row B finalMap) rows)"

text \<open>
  The merge of the parsed rows into \<open>sectionPointsMap\<close>, a \<open>Map\<close> from subsection values
  to points. \<open>clock index\<close> is the value of \<open>Date.now()\<close> while the row at \<open>index\<close> is handled.
\<close>

type_synonym points_map = "(jsval \<times> obj) list"

definition sectionPointsMap :: "obj list \<Rightarrow> points_map" where
  "sectionPointsMap points = fold (\<lambda>p m. set_prop (get p ''subsection'') p m) points []"

definition usable_key :: "builtins \<Rightarrow> jsval \<Rightarrow> bool" where
  "usable_key B subsectionId =
     (truthy subsectionId \<and> (case subsectionId of Str s \<Rightarrow> trim B s \<noteq> [] | _ \<Rightarrow> False))"

definition uniqueId :: "(nat \<Rightarrow> nat) \<Rightarrow> nat \<Rightarrow> string" where
  "uniqueId clock index = ''Imported-'' @ show_nat (clock index) @ ''-'' @ show_nat index"

definition map_get :: "points_map \<Rightarrow> jsval \<Rightarrow> obj" where
  "map_get m k = (case map_of m k of Some p \<Rightarrow> p | None \<Rightarrow> [])"

definition merge_point ::
  "builtins \<Rightarrow> (nat \<Rightarrow> nat) \<Rightarrow> nat \<times> obj \<Rightarrow> points_map \<Rightarrow> points_map" where
  "merge_point B clock row m =
     (let index = fst row; newPoint = snd row; subsectionId = get newPoint ''subsection'' in
      if usable_key B subsectionId
      then set_prop subsectionId (spread (map_get m subsectionId) newPoint) m
      else (let uid = uniqueId clock index
            in set_prop (Str uid) (set_prop ''subsection'' (Str uid) newPoint) m))"

text \<open>The loop \<open>parsedDataFromCsv.forEach((newPoint, index) => ...)\<close>: the state is the map
  with \<open>updatedCount\<close> and \<open>addedCount\<close>.\<close>

definition merge_row ::
  "builtins \<Rightarrow> (nat \<Rightarrow> nat) \<Rightarrow> nat \<times> obj \<Rightarrow> points_map \<times> nat \<times> nat \<Rightarrow>
   points_map \<times> nat \<times> nat" where
  "merge_row B clock row acc =
     (let m = fst acc; updatedCount = fst (snd acc); addedCount = snd (snd acc);
          subsectionId = get (snd row) ''subsection''
      in (merge_point B clock row m,
          if usable_key B subsectionId \<and> map_of m subsectionId \<noteq> None
          then (updatedCount + 1, addedCount) else (updatedCount, addedCount + 1)))"

definition merge_rows ::
  "builtins \<Rightarrow> (nat \<Rightarrow> nat) \<Rightarrow> obj list \<Rightarrow> obj list \<Rightarrow> points_map \<times> nat \<times> nat" where
  "merge_rows B clock points rows =
     fold (merge_row B clock) (enumerate 0 rows) (sectionPointsMap points, 0, 0)"

definition mergedPoints :: "builtins \<Rightarrow> (nat \<Rightarrow> nat) \<Rightarrow> obj list \<Rightarrow> obj list \<Rightarrow> obj list" where
  "mergedPoints B clock points rows =
     array_sort (by_depth B) (map snd (fst (merge_rows B clock points rows)))"

text \<open>\<open>full\<close> is what the parser delivers for the whole selected file: the results handed to
  \<open>complete\<close>, or the message handed to \<open>error\<close>.\<close>

definition handleConfirmMapping ::
  "builtins \<Rightarrow> (nat \<Rightarrow> nat) \<Rightarrow> header_map \<Rightarrow> parse_results attempt \<Rightarrow>
   DataInputManager \<Rightarrow> DataInputManager" where
  "handleConfirmMapping B clock finalMap full st =
     (let st1 = st\<lparr>isMappingHeaders := False\<rparr> in
      if selectedFile st = None then st1
      else
        (case full of
           Raises msg \<Rightarrow>
             st1\<lparr>status := Some (Error (''File Read Error: '' @ msg)), isProcessing := False\<rparr>
         | Returns results \<Rightarrow>
             if errors results \<noteq> []
             then st1\<lparr>status := Some (Error (''Parsing Error: '' @ hd (errors results))),
                      isProcessing := False\<rparr>
             else
               (let parsed = parsedDataFromCsv B finalMap (data results) in
                if parsed = []
                then st1\<lparr>status := Some (Error ''No valid data points could be parsed from the file.''),
                         isProcessing := False\<rparr>
                else
                  (let merged = merge_rows B clock (dataPoints (sectionProp st)) parsed;
                       points = mergedPoints B clock (dataPoints (sectionProp st)) parsed;
                       newLabAnalysis = calculateAveragesFromDataPoints B points
                   in st1\<lparr>sectionProp := (sectionProp st)\<lparr>dataPoints := points,
                                                            labAnalysis := Some newLabAnalysis\<rparr>,
                          status := Some (Success (show_nat (snd (snd merged)) @
                                     '' new subsections added, '' @ show_nat (fst (snd merged)) @
                                     '' updated.'')),
                          selectedFile := None, isProcessing := False\<rparr>))))"

section \<open>Loading sections from the remote store\<close>

text \<open>Of a stored row, the columns that the modelled code reads.\<close>

record SectionRow =
  row_id :: string
  row_name :: string
  data_points :: "obj list option"
  lab_analysis :: "obj option"

definition dbSectionToAppSection :: "SectionRow \<Rightarrow> Section" where
  "dbSectionToAppSection dbSection =
     \<lparr>section_id = row_id dbSection,
      name = row_name dbSection,
      dataPoints =
        map (\<lambda>(index, dp).
               set_prop ''subsection''
                 (or_else (get dp ''subsection'') (Str (''Subsection '' @ show_nat (index + 1)))) dp)
            (enumerate 0 (case data_points dbSection of Some ps \<Rightarrow> ps | None \<Rightarrow> [])),
      labAnalysis = lab_analysis dbSection\<rparr>"

text \<open>The answer of the store to the query of \<open>fetchSectionsForCore\<close>: an error, or the rows
  (possibly \<open>null\<close>).\<close>

definition fetchSectionsForCore :: "SectionRow list option attempt \<Rightarrow> Section list attempt" where
  "fetchSectionsForCore answer =
     (case answer of
        Raises e \<Rightarrow> Raises e
      | Returns None \<Rightarrow> Returns []
      | Returns (Some rows) \<Rightarrow> Returns (map dbSectionToAppSection rows))"

text \<open>\<open>fetchSections\<close> of the dashboard: the state is the list \<open>sections\<close> with the toast.\<close>

definition sectionsWithAverages :: "builtins \<Rightarrow> Section list \<Rightarrow> Section list" where
  "sectionsWithAverages B fetchedSections =
     map (\<lambda>s. if dataPoints s \<noteq> []
              then s\<lparr>labAnalysis := Some (calculateAveragesFromDataPoints B (dataPoints s))\<rparr>
              else s) fetchedSections"

record CoreDashboard =
  sections :: "Section list"
  toast :: "status option"
  loadingSections :: bool

definition fetchSections ::
  "builtins \<Rightarrow> SectionRow list option attempt \<Rightarrow> CoreDashboard \<Rightarrow> CoreDashboard" where
  "fetchSections B answer st =
     (case fetchSectionsForCore answer of
        Raises msg \<Rightarrow>
          st\<lparr>toast := Some (Error (''Error fetching sections: '' @ msg)), loadingSections := False\<rparr>
      | Returns fetchedSections \<Rightarrow>
          st\<lparr>sections := sectionsWithAverages B fetchedSections, loadingSections := False\<rparr>)"

section \<open>Age-model delegation\<close>

text \<open>
  A section of the answer of the generative service, as \<open>generateAgeModel\<close> reads it: its
  \<open>id\<close>, and its \<open>dataPoints\<close> when that property is an array (\<open>None\<close> otherwise).
\<close>

record calibrated_section =
  cs_id :: jsval
  cs_dataPoints :: "obj list option"

definition has_age :: "obj \<Rightarrow> bool" where
  "has_age dp = (get dp ''age'' \<noteq> Undefined \<and> get dp ''age'' \<noteq> Null)"

definition hasAnyAgeData :: "calibrated_section list \<Rightarrow> bool" where
  "hasAnyAgeData calibrated =
     list_ex (\<lambda>cs. case cs_dataPoints cs of Some dps \<Rightarrow> list_ex has_age dps | None \<Rightarrow> False)
       calibrated"

definition ageMap :: "obj list \<Rightarrow> (jsval \<times> jsval) list" where
  "ageMap dps =
     fold (\<lambda>dp m. set_prop (get dp ''depth'') (get dp ''age'') m)
       (filter (\<lambda>dp. get dp ''depth'' \<noteq> Undefined \<and> has_age dp) dps) []"

text \<open>
  \<open>parseFloat(x.toFixed(4))\<close>: below \<open>10^21\<close> in magnitude \<open>toFixed\<close> rounds to four
  decimals, a tie going away from zero; from there on, and on the infinities and NaN, it
  prints the number as it is.
\<close>

definition round4 :: "jsnum \<Rightarrow> jsnum" where
  "round4 x =
     (case x of
        Fin r \<Rightarrow> if \<bar>r\<bar> < 10 ^ 21
                 then Fin (sgn r * real_of_int \<lfloor>\<bar>r\<bar> * 10000 + 1 / 2\<rfloor> / 10000)
                 else Fin r
      | _ \<Rightarrow> x)"

definition apply_age :: "builtins \<Rightarrow> (jsval \<times> jsval) list \<Rightarrow> obj \<Rightarrow> obj" where
  "apply_age B m dp =
     (if get dp ''depth'' = Undefined then dp
      else
        (let calculatedAge = (case map_of m (get dp ''depth'') of Some a \<Rightarrow> a | None \<Rightarrow> Undefined)
         in set_prop ''age''
              (if calculatedAge \<noteq> Undefined then Num (round4 (toNumber B calculatedAge))
               else get dp ''age'') dp))"

definition calibrate_section :: "builtins \<Rightarrow> calibrated_section list \<Rightarrow> Section \<Rightarrow> Section" where
  "calibrate_section B calibrated originalSection =
     (case find (\<lambda>cs. cs_id cs = Str (section_id originalSection)) calibrated of
        Some calibratedData \<Rightarrow>
          (case cs_dataPoints calibratedData of
             Some dps \<Rightarrow>
               if ageMap dps = [] then originalSection
               else originalSection\<lparr>dataPoints :=
                      map (apply_age B (ageMap dps)) (dataPoints originalSection)\<rparr>
           | None \<Rightarrow> originalSection)
      | None \<Rightarrow> originalSection)"

text \<open>
  \<open>generateAgeModel\<close>. \<open>configured\<close> says whether the client exists. \<open>answer\<close> is the outcome
  of the request and of parsing its text, up to \<open>calibratedSectionsFromAI\<close>: it raises, or
  yields that value, \<open>Some\<close> of a list when the value is an array. The tie-points go into
  the prompt only.
\<close>

definition generateAgeModel ::
  "builtins \<Rightarrow> bool \<Rightarrow> calibrated_section list option attempt \<Rightarrow> Section list \<Rightarrow>
   Section list attempt" where
  "generateAgeModel B configured answer originals =
     (if \<not> configured then Raises ''API key is not configured.''
      else
        (case answer of
           Raises msg \<Rightarrow> Raises (''AI Age Model Error: '' @ msg)
         | Returns None \<Rightarrow>
             Raises (''AI Age Model Error: '' @
                     ''The AI response for the age model was empty or invalid.'')
         | Returns (Some calibrated) \<Rightarrow>
             if calibrated = []
             then Raises (''AI Age Model Error: '' @
                          ''The AI response for the age model was empty or invalid.'')
             else if \<not> hasAnyAgeData calibrated
             then Raises (''AI Age Model Error: '' @
                    ''AI failed to calculate age data. This can happen if fewer than two tie-points are provided for a section. Please check your inputs.'')
             else Returns (map (calibrate_section B calibrated) originals)))"

section \<open>The synthesis view\<close>

record SpliceInterval =
  startAge :: "jsnum option"
  endAge :: "jsnum option"

record CoreSynthesisView =
  calibratedSections :: "Section list option"
  spliceIntervals :: "(string \<times> SpliceInterval) list"
  tiePoints :: nat
  synthesisError :: "string option"

text \<open>\<open>handleGenerateAgeModel\<close>; of the tie-points only their number is read here.\<close>

definition handleGenerateAgeModel ::
  "builtins \<Rightarrow> bool \<Rightarrow> calibrated_section list option attempt \<Rightarrow> Section list \<Rightarrow>
   CoreSynthesisView \<Rightarrow> CoreSynthesisView" where
  "handleGenerateAgeModel B configured answer originals st =
     (if tiePoints st < 2 then st
      else
        (case generateAgeModel B configured answer originals of
           Returns result \<Rightarrow> st\<lparr>calibratedSections := Some result, synthesisError := None\<rparr>
         | Raises msg \<Rightarrow> st\<lparr>synthesisError := Some msg\<rparr>))"

text \<open>\<open>Math.min\<close> and \<open>Math.max\<close> of two numbers.\<close>

definition num_min :: "jsnum \<Rightarrow> jsnum \<Rightarrow> jsnum" where
  "num_min a b = (if a = NaN \<or> b = NaN then NaN else if num_le a b then a else b)"

definition num_max :: "jsnum \<Rightarrow> jsnum \<Rightarrow> jsnum" where
  "num_max a b = (if a = NaN \<or> b = NaN then NaN else if num_le a b then b else a)"

text \<open>The comparator \<open>(a, b) => ((a.age as number) || 0) - ((b.age as number) || 0)\<close>.\<close>

definition age_key :: "builtins \<Rightarrow> obj \<Rightarrow> jsnum" where
  "age_key B a = toNumber B (or_else (get a ''age'') (Num (Fin 0)))"

definition by_age :: "builtins \<Rightarrow> obj \<Rightarrow> obj \<Rightarrow> jsnum" where
  "by_age B a b = num_sub (age_key B a) (age_key B b)"

text \<open>The points that one section contributes to \<open>allPoints\<close>.\<close>

definition splice_points :: "builtins \<Rightarrow> (string \<times> SpliceInterval) list \<Rightarrow> Section \<Rightarrow> obj list" where
  "splice_points B intervals s =
     (case map_of intervals (section_id s) of
        None \<Rightarrow> []
      | Some interval \<Rightarrow>
          (case (startAge interval, endAge interval) of
             (Some a, Some b) \<Rightarrow>
               (let start = num_min a b; end' = num_max a b
                in filter (\<lambda>point. get point ''age'' \<noteq> Undefined \<and>
                                   num_le start (toNumber B (get point ''age'')) \<and>
                                   num_le (toNumber B (get point ''age'')) end')
                     (dataPoints s))
           | _ \<Rightarrow> []))"

definition compositeSplice :: "builtins \<Rightarrow> CoreSynthesisView \<Rightarrow> obj list" where
  "compositeSplice B st =
     (case calibratedSections st of
        None \<Rightarrow> []
      | Some secs \<Rightarrow> array_sort (by_age B) (concat (map (splice_points B (spliceIntervals st)) secs)))"

section \<open>The notions of the specification\<close>

text \<open>A row contains a mapped field when the confirmed mapping sends one of its headers
  to a key.\<close>

definition has_mapped_field :: "header_map \<Rightarrow> obj \<Rightarrow> bool" where
  "has_mapped_field finalMap row =
     list_ex (\<lambda>cell. case map_of finalMap (fst cell) of
                        Some (Some mappedKey) \<Rightarrow> mappedKey \<noteq> [] | _ \<Rightarrow> False) row"

text \<open>The series stored in a row; \<open>null\<close> counts as the empty series.\<close>

definition stored_points :: "SectionRow \<Rightarrow> obj list" where
  "stored_points dbSection = (case data_points dbSection of Some ps \<Rightarrow> ps | None \<Rightarrow> [])"

text \<open>A number lies inclusively between two bounds given in either order.\<close>

definition between :: "jsnum \<Rightarrow> jsnum \<Rightarrow> jsnum \<Rightarrow> bool" where
  "between a b x = ((num_le a x \<and> num_le x b) \<or> (num_le b x \<and> num_le x a))"

text \<open>A point of a section is selected for the splice when the section has an interval with
  both bounds set, and the age of the point is defined and lies within the interval.\<close>

definition selected :: "builtins \<Rightarrow> (string \<times> SpliceInterval) list \<Rightarrow> Section \<Rightarrow> obj \<Rightarrow> bool" where
  "selected B intervals s point =
     (case map_of intervals (section_id s) of
        None \<Rightarrow> False
      | Some interval \<Rightarrow>
          (case (startAge interval, endAge interval) of
             (Some a, Some b) \<Rightarrow>
               get point ''age'' \<noteq> Undefined \<and> between a b (toNumber B (get point ''age''))
           | _ \<Rightarrow> False))"

text \<open>The (depth, age) pairs that an answer returns for a section: those with a depth and
  a non-null age.\<close>

definition returned_pairs :: "obj list \<Rightarrow> (jsval \<times> jsval) list" where
  "returned_pairs dps =
     map (\<lambda>dp. (get dp ''depth'', get dp ''age''))
       (filter (\<lambda>dp. get dp ''depth'' \<noteq> Undefined \<and> has_age dp) dps)"

text \<open>The age returned for a depth of the section with a given id: that of the last pair with
  this depth in the first entry of the answer that carries the id.\<close>

definition returned_age :: "calibrated_section list \<Rightarrow> string \<Rightarrow> jsval \<Rightarrow> jsval option" where
  "returned_age calibrated sid depth =
     (if depth = Undefined then None
      else
        (case find (\<lambda>cs. cs_id cs = Str sid) calibrated of
           None \<Rightarrow> None
         | Some cs \<Rightarrow>
             (case cs_dataPoints cs of
                None \<Rightarrow> None
              | Some dps \<Rightarrow> map_of (rev (returned_pairs dps)) depth)))"

text \<open>A field that, as the data model has it, holds a number when it is present.\<close>

definition numeric_or_absent :: "jsval \<Rightarrow> bool" where
  "numeric_or_absent v = (case v of Num n \<Rightarrow> True | Undefined \<Rightarrow> True | _ \<Rightarrow> False)"

text \<open>The depth of a point, a point lacking a depth counting as depth 0.\<close>

definition depth_or_zero :: "obj \<Rightarrow> jsnum" where
  "depth_or_zero p = (case get p ''depth'' of Num n \<Rightarrow> (if n = NaN then Fin 0 else n) | _ \<Rightarrow> Fin 0)"

text \<open>The finite numeric values that the points of a series carry under one key, in order,
  and the arithmetic mean of a list of values.\<close>

definition finite_values :: "string \<Rightarrow> obj list \<Rightarrow> real list" where
  "finite_values key points =
     List.map_filter (\<lambda>point. finite_number (get point key)) points"

definition mean :: "real list \<Rightarrow> real" where
  "mean vs = sum_list vs / real (length vs)"

text \<open>The sum of a list of values as double arithmetic yields it: the values are added one
  by one, from 0 on, each addition rounding or overflowing.\<close>

definition sum_of_doubles :: "builtins \<Rightarrow> real list \<Rightarrow> jsnum" where
  "sum_of_doubles B vs = foldl (\<lambda>s v. num_add B s (Fin v)) (Fin 0) vs"

text \<open>Double arithmetic computes the mean of a list exactly when no addition of the running
  sum overflows or rounds, and the quotient is a double.\<close>

fun adds_exactly :: "builtins \<Rightarrow> real \<Rightarrow> real list \<Rightarrow> bool" where
  "adds_exactly B s [] = True"
| "adds_exactly B s (v # vs) =
     (\<bar>s + v\<bar> < overflow_bound \<and> nearest_double B (s + v) = s + v \<and> adds_exactly B (s + v) vs)"

definition mean_is_exact :: "builtins \<Rightarrow> real list \<Rightarrow> bool" where
  "mean_is_exact B vs = (adds_exactly B 0 vs \<and> nearest_double B (mean vs) = mean vs)"

text \<open>The reconciler as the specification words it. A row whose subsection equals that of
  a point of the series is shallow-merged into that point, and a row whose subsection is not
  yet in the series is appended as a new point.\<close>

definition merge_into :: "obj list \<Rightarrow> obj \<Rightarrow> obj list" where
  "merge_into points row =
     (if \<exists>p \<in> set points. get p ''subsection'' = get row ''subsection''
      then map (\<lambda>p. if get p ''subsection'' = get row ''subsection'' then spread p row else p) points
      else points @ [row])"

text \<open>A row without a usable subsection is appended as a new point under the key generated
  for it from the timestamp and its index in the batch.\<close>

definition reconcile_row :: "builtins \<Rightarrow> (nat \<Rightarrow> nat) \<Rightarrow> nat \<times> obj \<Rightarrow> obj list \<Rightarrow> obj list" where
  "reconcile_row B clock row acc =
     (if usable_key B (get (snd row) ''subsection'') then merge_into acc (snd row)
      else acc @ [set_prop ''subsection'' (Str (uniqueId clock (fst row))) (snd row)])"

definition reconciled :: "builtins \<Rightarrow> (nat \<Rightarrow> nat) \<Rightarrow> obj list \<Rightarrow> obj list \<Rightarrow> obj list" where
  "reconciled B clock points rows = fold (reconcile_row B clock) (enumerate 0 rows) points"

text \<open>The entries of the map carry their own key, each key once.\<close>

definition keyed_by_subsection :: "points_map \<Rightarrow> bool" where
  "keyed_by_subsection m =
     (distinct (map fst m) \<and> (\<forall>e \<in> set m. get (snd e) ''subsection'' = fst e))"

text \<open>The key under which a row of the batch is stored: its own subsection when that is
  usable, the generated key otherwise.\<close>

definition row_key :: "builtins \<Rightarrow> (nat \<Rightarrow> nat) \<Rightarrow> nat \<times> obj \<Rightarrow> jsval" where
  "row_key B clock row =
     (if usable_key B (get (snd row) ''subsection'') then get (snd row) ''subsection''
      else Str (uniqueId clock (fst row)))"

section \<open>Properties of the average computer\<close>

lemma distinct_labAnalysisKeys: "distinct labAnalysisKeys"
  by (simp add: labAnalysisKeys_def)

lemma map_of_set_prop: "map_of (set_prop k v ps) k' = (if k' = k then Some v else map_of ps k')"
  by (induction ps) auto

lemma get_set_prop: "get (set_prop k v ps) k' = (if k' = k then v else get ps k')"
  by (simp add: get_def map_of_set_prop)

lemma fold_add_value:
  "distinct ks \<Longrightarrow>
   fold (add_value B point) ks t =
     (\<lambda>k. if k \<in> set ks
          then (case finite_number (get point k) of
                  Some r \<Rightarrow> num_add B (fst t k) (Fin r) | None \<Rightarrow> fst t k)
          else fst t k,
      \<lambda>k. snd t k + (if k \<in> set ks then (case finite_number (get point k) of Some r \<Rightarrow> 1 | None \<Rightarrow> 0) else 0))"
proof (induction ks arbitrary: t)
  case Nil
  show ?case by simp
next
  case (Cons a ks)
  then show ?case
    by (cases "finite_number (get point a)")
       (auto simp: add_value_def fun_eq_iff split: option.splits)
qed

lemma finite_values_Cons:
  "finite_values k (p # ps) =
     (case finite_number (get p k) of Some r \<Rightarrow> r # finite_values k ps | None \<Rightarrow> finite_values k ps)"
  by (simp add: finite_values_def split: option.splits)

lemma fold_add_point:
  "fold (add_point B) ps t =
     (\<lambda>k. if k \<in> set labAnalysisKeys
          then foldl (\<lambda>s v. num_add B s (Fin v)) (fst t k) (finite_values k ps) else fst t k,
      \<lambda>k. snd t k + (if k \<in> set labAnalysisKeys then length (finite_values k ps) else 0))"
proof (induction ps arbitrary: t)
  case Nil
  show ?case by (cases t) (auto simp: fun_eq_iff finite_values_def)
next
  case (Cons p ps)
  show ?case
    unfolding fold_Cons comp_apply Cons.IH
    by (auto simp: add_point_def fold_add_value [OF distinct_labAnalysisKeys]
        finite_values_Cons fun_eq_iff split: option.splits)
qed

lemma map_of_fold_put_average:
  "map_of (fold (put_average B t) ks av) k =
     (if k \<in> set ks \<and> snd t k > 0 then Some (Num (num_div_count B (fst t k) (snd t k)))
      else map_of av k)"
  by (induction ks arbitrary: av) (auto simp: put_average_def map_of_set_prop)

lemma map_of_calculateAverages:
  "map_of (calculateAveragesFromDataPoints B ps) k =
     (if k \<in> set labAnalysisKeys \<and> finite_values k ps \<noteq> []
      then Some (Num (num_div_count B (sum_of_doubles B (finite_values k ps))
                        (length (finite_values k ps))))
      else None)"
proof (cases "ps = []")
  case True
  then show ?thesis
    by (simp add: calculateAveragesFromDataPoints_def finite_values_def)
next
  case False
  then show ?thesis
    by (simp add: calculateAveragesFromDataPoints_def Let_def map_of_fold_put_average
        fold_add_point sum_of_doubles_def)
qed

lemma foldl_adds_exactly:
  "adds_exactly B s vs \<Longrightarrow>
   foldl (\<lambda>s v. num_add B s (Fin v)) (Fin s) vs = Fin (s + sum_list vs)"
proof (induction vs arbitrary: s)
  case Nil
  show ?case by simp
next
  case (Cons v vs)
  from Cons.prems have "to_double B (s + v) = Fin (s + v)"
    by (auto simp: to_double_def)
  with Cons.IH [of "s + v"] Cons.prems show ?case
    by (simp add: add.assoc)
qed

lemma adds_exactly_bound:
  "adds_exactly B s vs \<Longrightarrow> vs \<noteq> [] \<Longrightarrow> \<bar>s + sum_list vs\<bar> < overflow_bound"
proof (induction vs arbitrary: s)
  case Nil
  then show ?case by simp
next
  case (Cons v vs)
  show ?case
  proof (cases "vs = []")
    case True
    with Cons.prems show ?thesis by simp
  next
    case False
    with Cons.IH [of "s + v"] Cons.prems show ?thesis
      by (simp add: add.assoc)
  qed
qed

lemma exact_mean:
  assumes "mean_is_exact B vs" "vs \<noteq> []"
  shows "num_div_count B (sum_of_doubles B vs) (length vs) = Fin (mean vs)"
proof -
  from assms have s: "sum_of_doubles B vs = Fin (sum_list vs)"
    using foldl_adds_exactly [of B 0 vs] by (simp add: sum_of_doubles_def mean_is_exact_def)
  from assms have b: "\<bar>sum_list vs\<bar> < overflow_bound"
    using adds_exactly_bound [of B 0 vs] by (simp add: mean_is_exact_def)
  from assms(2) have "1 \<le> real (length vs)"
    by (cases vs) simp_all
  then have "\<bar>sum_list vs / real (length vs)\<bar> \<le> \<bar>sum_list vs\<bar>"
    by (simp add: divide_le_eq mult_le_cancel_left1 abs_mult [symmetric] field_simps
        mult_left_mono)
  with b have "\<bar>mean vs\<bar> < overflow_bound"
    by (simp add: mean_def)
  then have "to_double B (mean vs) = Fin (nearest_double B (mean vs))"
    by (auto simp: to_double_def)
  with assms s show ?thesis
    by (simp add: mean_is_exact_def mean_def)
qed

text \<open>
  C1, as stated, fails: the sum of the values is accumulated in double arithmetic, so that
  two points that carry \<open>2^1023\<close> under a key yield \<open>Infinity\<close> for it, where the arithmetic
  mean of the two values is \<open>2^1023\<close>.
\<close>

theorem C1_sum_overflows_counterexample:
  "calculateAveragesFromDataPoints
     \<lparr>parseFloat = (\<lambda>s. NaN), stringToNumber = (\<lambda>s. NaN), numberToString = (\<lambda>n. []),
      trim = (\<lambda>s. s), nearest_double = (\<lambda>x. x)\<rparr>
     [[(''subsection'', Str ''A''), (''mgCaRatio'', Num (Fin (2 ^ 1023)))],
      [(''subsection'', Str ''B''), (''mgCaRatio'', Num (Fin (2 ^ 1023)))]]
    = [(''mgCaRatio'', Num PosInf)] \<and>
   mean (finite_values ''mgCaRatio''
     [[(''subsection'', Str ''A''), (''mgCaRatio'', Num (Fin (2 ^ 1023)))],
      [(''subsection'', Str ''B''), (''mgCaRatio'', Num (Fin (2 ^ 1023)))]]) = 2 ^ 1023"
  by (simp add: calculateAveragesFromDataPoints_def add_point_def add_value_def put_average_def
      labAnalysisKeys_def get_def to_double_def overflow_bound_def finite_values_def
      List.map_filter_def mean_def Let_def)

text \<open>
  C1, amended. For every data-point sequence and each of the ten enumerated proxy keys, the
  result of the average computer holds the key if and only if at least one point carries a
  finite numeric value under it, and then maps the key to the mean of exactly those values
  as double arithmetic yields it: their sum, accumulated in the order of the series with
  every addition rounding or overflowing, divided by their count. This is the arithmetic
  mean of the values whenever no addition overflows or rounds and the quotient is a double.
  The result holds no other key, and the empty sequence yields the empty mapping.
\<close>

theorem C1_averages_are_means_in_double_arithmetic:
  "(\<forall>key \<in> set [''delta18O'', ''delta13C'', ''mgCaRatio'', ''tex86'', ''alkenoneSST'',
                 ''calculatedSST'', ''baCa'', ''srCa'', ''cdCa'', ''radiocarbonDate''].
      (key \<in> dom (map_of (calculateAveragesFromDataPoints B points))
         \<longleftrightarrow> finite_values key points \<noteq> []) \<and>
      (finite_values key points \<noteq> [] \<longrightarrow>
         get (calculateAveragesFromDataPoints B points) key
           = Num (num_div_count B (sum_of_doubles B (finite_values key points))
                    (length (finite_values key points))) \<and>
         (mean_is_exact B (finite_values key points) \<longrightarrow>
            get (calculateAveragesFromDataPoints B points) key
              = Num (Fin (mean (finite_values key points)))))) \<and>
   dom (map_of (calculateAveragesFromDataPoints B points))
     \<subseteq> set [''delta18O'', ''delta13C'', ''mgCaRatio'', ''tex86'', ''alkenoneSST'',
            ''calculatedSST'', ''baCa'', ''srCa'', ''cdCa'', ''radiocarbonDate''] \<and>
   calculateAveragesFromDataPoints B [] = []"
proof -
  have keys: "[''delta18O'', ''delta13C'', ''mgCaRatio'', ''tex86'', ''alkenoneSST'',
      ''calculatedSST'', ''baCa'', ''srCa'', ''cdCa'', ''radiocarbonDate''] = labAnalysisKeys"
    by (simp add: labAnalysisKeys_def)
  have e: "calculateAveragesFromDataPoints B [] = []"
    by (simp add: calculateAveragesFromDataPoints_def)
  have d: "dom (map_of (calculateAveragesFromDataPoints B points)) \<subseteq> set labAnalysisKeys"
    by (auto simp: map_of_calculateAverages dom_def split: if_splits)
  have k: "(key \<in> dom (map_of (calculateAveragesFromDataPoints B points))
         \<longleftrightarrow> finite_values key points \<noteq> []) \<and>
      (finite_values key points \<noteq> [] \<longrightarrow>
         get (calculateAveragesFromDataPoints B points) key
           = Num (num_div_count B (sum_of_doubles B (finite_values key points))
                    (length (finite_values key points))) \<and>
         (mean_is_exact B (finite_values key points) \<longrightarrow>
            get (calculateAveragesFromDataPoints B points) key
              = Num (Fin (mean (finite_values key points)))))"
    if "key \<in> set labAnalysisKeys" for key
    using that by (auto simp: get_def map_of_calculateAverages dom_def exact_mean)
  from k d e show ?thesis
    unfolding keys by blast
qed

theorem C1_averages_witness:
  "finite_values ''delta18O''
     [[(''subsection'', Str ''A''), (''delta18O'', Num (Fin 1))],
      [(''subsection'', Str ''B''), (''delta18O'', Num PosInf)],
      [(''subsection'', Str ''C''), (''delta18O'', Num (Fin 3))]] = [1, 3] \<and>
   mean_is_exact
     \<lparr>parseFloat = (\<lambda>s. NaN), stringToNumber = (\<lambda>s. NaN), numberToString = (\<lambda>n. []),
      trim = (\<lambda>s. s), nearest_double = (\<lambda>x. x)\<rparr> [1, 3] \<and>
   get (calculateAveragesFromDataPoints
     \<lparr>parseFloat = (\<lambda>s. NaN), stringToNumber = (\<lambda>s. NaN), numberToString = (\<lambda>n. []),
      trim = (\<lambda>s. s), nearest_double = (\<lambda>x. x)\<rparr>
     [[(''subsection'', Str ''A''), (''delta18O'', Num (Fin 1))],
      [(''subsection'', Str ''B''), (''delta18O'', Num PosInf)],
      [(''subsection'', Str ''C''), (''delta18O'', Num (Fin 3))]]) ''delta18O'' = Num (Fin 2)"
proof -
  let ?B = "\<lparr>parseFloat = (\<lambda>s. NaN), stringToNumber = (\<lambda>s. NaN), numberToString = (\<lambda>n. []),
      trim = (\<lambda>s. s), nearest_double = (\<lambda>x. x)\<rparr>"
  let ?ps = "[[(''subsection'', Str ''A''), (''delta18O'', Num (Fin 1))],
      [(''subsection'', Str ''B''), (''delta18O'', Num PosInf)],
      [(''subsection'', Str ''C''), (''delta18O'', Num (Fin 3))]]"
  have v: "finite_values ''delta18O'' ?ps = [1, 3]"
    by (simp add: finite_values_def List.map_filter_def get_def)
  have x: "mean_is_exact ?B [1, 3]"
    by (simp add: mean_is_exact_def overflow_bound_def)
  have m: "''delta18O'' \<in> set [''delta18O'', ''delta13C'', ''mgCaRatio'', ''tex86'', ''alkenoneSST'',
      ''calculatedSST'', ''baCa'', ''srCa'', ''cdCa'', ''radiocarbonDate'']"
    by simp
  from conjunct1 [OF C1_averages_are_means_in_double_arithmetic [of ?B ?ps]] m
  have "finite_values ''delta18O'' ?ps \<noteq> [] \<longrightarrow>
      (mean_is_exact ?B (finite_values ''delta18O'' ?ps) \<longrightarrow>
         get (calculateAveragesFromDataPoints ?B ?ps) ''delta18O''
           = Num (Fin (mean (finite_values ''delta18O'' ?ps))))"
    by blast
  with v x have "get (calculateAveragesFromDataPoints ?B ?ps) ''delta18O'' = Num (Fin 2)"
    by (simp add: mean_def)
  with v x show ?thesis by simp
qed

section \<open>Manual entry: rejected submissions\<close>

lemma fold_read_field_none:
  "\<forall>entry \<in> set form. fst entry \<noteq> ''subsection'' \<longrightarrow> snd entry = [] \<or> parseFloat B (snd entry) = NaN
   \<Longrightarrow> fold (read_field B) form acc = acc"
  by (induction form arbitrary: acc) (auto simp: read_field_def)

text \<open>
  C7. A manual submission whose subsection field is empty after trimming, or in which no
  field besides the subsection key parses as a number, is rejected: the handler changes
  nothing but the status message, so the section, its data points, their count and its
  labAnalysis are as before.
\<close>

theorem C7_rejected_submission_changes_nothing:
  assumes "trim B (form_value (formState st) ''subsection'') = [] \<or>
           (\<forall>entry \<in> set (formState st).
              fst entry \<noteq> ''subsection'' \<longrightarrow> snd entry = [] \<or> parseFloat B (snd entry) = NaN)"
  shows "(\<exists>msg. handleAddDataPoint B st = st\<lparr>status := Some (Error msg)\<rparr>) \<and>
         sectionProp (handleAddDataPoint B st) = sectionProp st \<and>
         dataPoints (sectionProp (handleAddDataPoint B st)) = dataPoints (sectionProp st) \<and>
         length (dataPoints (sectionProp (handleAddDataPoint B st)))
           = length (dataPoints (sectionProp st)) \<and>
         labAnalysis (sectionProp (handleAddDataPoint B st)) = labAnalysis (sectionProp st) \<and>
         formState (handleAddDataPoint B st) = formState st"
proof -
  have "\<exists>msg. handleAddDataPoint B st = st\<lparr>status := Some (Error msg)\<rparr>"
  proof (cases "trim B (form_value (formState st) ''subsection'') = []")
    case True
    then have "handleAddDataPoint B st = st\<lparr>status := Some (Error ''Subsection ID is a required field.'')\<rparr>"
      by (simp add: handleAddDataPoint_def)
    then show ?thesis by blast
  next
    case False
    with assms have "collect_fields B (formState st) (trim B (form_value (formState st) ''subsection''))
      = ([(''subsection'', Str (trim B (form_value (formState st) ''subsection'')))], False)"
      unfolding collect_fields_def by (intro fold_read_field_none) simp
    with False have "handleAddDataPoint B st = st\<lparr>status := Some (Error ''At least one data value (e.g., depth) must be provided.'')\<rparr>"
      by (simp add: handleAddDataPoint_def Let_def)
    then show ?thesis by blast
  qed
  moreover from this obtain msg where "handleAddDataPoint B st = st\<lparr>status := Some (Error msg)\<rparr>" ..
  then have "sectionProp (handleAddDataPoint B st) = sectionProp st \<and>
      formState (handleAddDataPoint B st) = formState st"
    by simp
  ultimately show ?thesis by simp
qed


theorem C7_witness:
  "trim \<lparr>parseFloat = (\<lambda>s. if s = ''12'' then Fin 12 else NaN), stringToNumber = (\<lambda>s. NaN),
      numberToString = (\<lambda>n. []), trim = (\<lambda>s. if s = [CHR 0xA0, CHR '' ''] then [] else s),
      nearest_double = (\<lambda>x. x)\<rparr>
     (form_value (formState
     \<lparr>sectionProp = \<lparr>section_id = ''s1'', name = ''Section 1'',
        dataPoints = [[(''subsection'', Str ''Sample 1''), (''depth'', Num (Fin 10))]],
        labAnalysis = Some []\<rparr>,
      formState = [(''subsection'', [CHR 0xA0, CHR '' '']), (''depth'', ''12'')],
      selectedFile = None, status = None, isProcessing = False, isMappingHeaders = False,
      csvHeaders = [], headerMap = None\<rparr>) ''subsection'') = [] \<and>
   dataPoints (sectionProp (handleAddDataPoint
     \<lparr>parseFloat = (\<lambda>s. if s = ''12'' then Fin 12 else NaN), stringToNumber = (\<lambda>s. NaN),
      numberToString = (\<lambda>n. []), trim = (\<lambda>s. if s = [CHR 0xA0, CHR '' ''] then [] else s),
      nearest_double = (\<lambda>x. x)\<rparr>
     \<lparr>sectionProp = \<lparr>section_id = ''s1'', name = ''Section 1'',
        dataPoints = [[(''subsection'', Str ''Sample 1''), (''depth'', Num (Fin 10))]],
        labAnalysis = Some []\<rparr>,
      formState = [(''subsection'', [CHR 0xA0, CHR '' '']), (''depth'', ''12'')],
      selectedFile = None, status = None, isProcessing = False, isMappingHeaders = False,
      csvHeaders = [], headerMap = None\<rparr>))
    = [[(''subsection'', Str ''Sample 1''), (''depth'', Num (Fin 10))]]"
proof -
  let ?B = "\<lparr>parseFloat = (\<lambda>s. if s = ''12'' then Fin 12 else NaN), stringToNumber = (\<lambda>s. NaN),
      numberToString = (\<lambda>n. []), trim = (\<lambda>s. if s = [CHR 0xA0, CHR '' ''] then [] else s),
      nearest_double = (\<lambda>x. x)\<rparr>"
  let ?st = "\<lparr>sectionProp = \<lparr>section_id = ''s1'', name = ''Section 1'',
        dataPoints = [[(''subsection'', Str ''Sample 1''), (''depth'', Num (Fin 10))]],
        labAnalysis = Some []\<rparr>,
      formState = [(''subsection'', [CHR 0xA0, CHR '' '']), (''depth'', ''12'')],
      selectedFile = None, status = None, isProcessing = False, isMappingHeaders = False,
      csvHeaders = [], headerMap = None\<rparr>"
  have h: "trim ?B (form_value (formState ?st) ''subsection'') = []"
    by (simp add: form_value_def)
  from C7_rejected_submission_changes_nothing [of ?B ?st, OF disjI1, OF h] h
  show ?thesis by simp
qed

section \<open>Bulk import: aborting and the fallback mapping\<close>

lemma fold_parse_cell_unmapped:
  "\<not> has_mapped_field finalMap row \<Longrightarrow> fold (parse_cell B finalMap) row acc = acc"
  by (induction row arbitrary: acc)
     (auto simp: has_mapped_field_def parse_cell_def split: option.splits)

lemma parsed_empty_if_unmapped:
  "\<forall>row \<in> set rows. \<not> has_mapped_field finalMap row \<Longrightarrow> parsedDataFromCsv B finalMap rows = []"
  by (auto simp: parsedDataFromCsv_def parse_row_def fold_parse_cell_unmapped filter_empty_conv)

lemma confirm_without_rows:
  "parsedDataFromCsv B finalMap (data results) = [] \<Longrightarrow>
   sectionProp (handleConfirmMapping B clock finalMap (Returns results) st) = sectionProp st"
  by (simp add: handleConfirmMapping_def Let_def)

text \<open>
  C8. Bulk import aborts with an error in two cases. When the file yields no headers,
  \<open>mapCsvHeaders\<close> is not invoked. When the rows parsed under the confirmed mapping are
  none, in particular when no row contains a mapped field, the section is left as it was:
  nothing is merged.
\<close>

theorem C8_import_aborts_before_call_and_before_merge:
  "(meta_fields preview = None \<or> meta_fields preview = Some [] \<longrightarrow>
      snd (triggerHeaderMapping ai json_mapping format preview st) = [] \<and>
      status (fst (triggerHeaderMapping ai json_mapping format preview st))
        = Some (Error (''Could not read headers from '' @ toUpperCase format @ ''.'')) \<and>
      sectionProp (fst (triggerHeaderMapping ai json_mapping format preview st)) = sectionProp st) \<and>
   (parsedDataFromCsv B finalMap (data results) = [] \<longrightarrow>
      sectionProp (handleConfirmMapping B clock finalMap (Returns results) st) = sectionProp st \<and>
      (selectedFile st \<noteq> None \<and> errors results = [] \<longrightarrow>
         status (handleConfirmMapping B clock finalMap (Returns results) st)
           = Some (Error ''No valid data points could be parsed from the file.''))) \<and>
   ((\<forall>row \<in> set (data results). \<not> has_mapped_field finalMap row) \<longrightarrow>
      parsedDataFromCsv B finalMap (data results) = [] \<and>
      sectionProp (handleConfirmMapping B clock finalMap (Returns results) st) = sectionProp st)"
proof -
  have a: "meta_fields preview = None \<or> meta_fields preview = Some [] \<longrightarrow>
      snd (triggerHeaderMapping ai json_mapping format preview st) = [] \<and>
      status (fst (triggerHeaderMapping ai json_mapping format preview st))
        = Some (Error (''Could not read headers from '' @ toUpperCase format @ ''.'')) \<and>
      sectionProp (fst (triggerHeaderMapping ai json_mapping format preview st)) = sectionProp st"
    by (auto simp: triggerHeaderMapping_def Let_def)
  have b: "parsedDataFromCsv B finalMap (data results) = [] \<longrightarrow>
      (selectedFile st \<noteq> None \<and> errors results = [] \<longrightarrow>
         status (handleConfirmMapping B clock finalMap (Returns results) st)
           = Some (Error ''No valid data points could be parsed from the file.''))"
    by (simp add: handleConfirmMapping_def Let_def)
  from a b show ?thesis
    using confirm_without_rows [of B finalMap results clock st]
      parsed_empty_if_unmapped [of "data results" finalMap B]
    by blast
qed

theorem C8_witness:
  "meta_fields \<lparr>meta_fields = Some [], data = [], errors = []\<rparr> = Some [] \<and>
   snd (triggerHeaderMapping (Some (\<lambda>headers. Returns ''{}'')) (\<lambda>text. Returns None) csv
     \<lparr>meta_fields = Some [], data = [], errors = []\<rparr>
     \<lparr>sectionProp = \<lparr>section_id = ''s1'', name = ''Section 1'', dataPoints = [],
                      labAnalysis = None\<rparr>,
      formState = initialFormState, selectedFile = None, status = None, isProcessing = False,
      isMappingHeaders = False, csvHeaders = [], headerMap = None\<rparr>) = [] \<and>
   \<not> has_mapped_field [(''Depth_cm'', None)] [(''Depth_cm'', Num (Fin 120))] \<and>
   sectionProp (handleConfirmMapping
     \<lparr>parseFloat = (\<lambda>s. NaN), stringToNumber = (\<lambda>s. NaN), numberToString = (\<lambda>n. []), trim = (\<lambda>s. s),
      nearest_double = (\<lambda>x. x)\<rparr>
     (\<lambda>i. 1700000000000) [(''Depth_cm'', None)]
     (Returns \<lparr>meta_fields = Some [''Depth_cm''],
        data = [[(''Depth_cm'', Num (Fin 120))]], errors = []\<rparr>)
     \<lparr>sectionProp = \<lparr>section_id = ''s1'', name = ''Section 1'', dataPoints = [],
                      labAnalysis = None\<rparr>,
      formState = initialFormState,
      selectedFile = Some ''core.csv'',
      status = None, isProcessing = False,
      isMappingHeaders = True, csvHeaders = [''Depth_cm''], headerMap = None\<rparr>)
    = \<lparr>section_id = ''s1'', name = ''Section 1'', dataPoints = [], labAnalysis = None\<rparr>"
proof -
  let ?st = "\<lparr>sectionProp = \<lparr>section_id = ''s1'', name = ''Section 1'', dataPoints = [],
                      labAnalysis = None\<rparr>,
      formState = initialFormState, selectedFile = None, status = None, isProcessing = False,
      isMappingHeaders = False, csvHeaders = [], headerMap = None\<rparr>"
  let ?st' = "\<lparr>sectionProp = \<lparr>section_id = ''s1'', name = ''Section 1'', dataPoints = [],
                      labAnalysis = None\<rparr>,
      formState = initialFormState,
      selectedFile = Some ''core.csv'',
      status = None, isProcessing = False,
      isMappingHeaders = True, csvHeaders = [''Depth_cm''], headerMap = None\<rparr>"
  have h1: "meta_fields \<lparr>meta_fields = Some [], data = [], errors = []\<rparr> = Some []"
    by simp
  have h2: "\<forall>row \<in> set (data \<lparr>meta_fields = Some [''Depth_cm''],
        data = [[(''Depth_cm'', Num (Fin 120))]], errors = []\<rparr>).
      \<not> has_mapped_field [(''Depth_cm'', None)] row"
    by (simp add: has_mapped_field_def)
  from h1 C8_import_aborts_before_call_and_before_merge
    [of "\<lparr>meta_fields = Some [], data = [], errors = []\<rparr>" "Some (\<lambda>headers. Returns ''{}'')"
        "\<lambda>text. Returns None" csv ?st]
  have c1: "snd (triggerHeaderMapping (Some (\<lambda>headers. Returns ''{}'')) (\<lambda>text. Returns None) csv
     \<lparr>meta_fields = Some [], data = [], errors = []\<rparr> ?st) = []"
    by blast
  from h2 C8_import_aborts_before_call_and_before_merge
    [where finalMap = "[(''Depth_cm'', None)]" and st = ?st'
       and results = "\<lparr>meta_fields = Some [''Depth_cm''],
        data = [[(''Depth_cm'', Num (Fin 120))]], errors = []\<rparr>"]
  have c2: "sectionProp (handleConfirmMapping
     \<lparr>parseFloat = (\<lambda>s. NaN), stringToNumber = (\<lambda>s. NaN), numberToString = (\<lambda>n. []), trim = (\<lambda>s. s),
      nearest_double = (\<lambda>x. x)\<rparr>
     (\<lambda>i. 1700000000000) [(''Depth_cm'', None)]
     (Returns \<lparr>meta_fields = Some [''Depth_cm''],
        data = [[(''Depth_cm'', Num (Fin 120))]], errors = []\<rparr>) ?st') = sectionProp ?st'"
    by blast
  have h3: "\<not> has_mapped_field [(''Depth_cm'', None)] [(''Depth_cm'', Num (Fin 120))]"
    by (simp add: has_mapped_field_def)
  from h1 h3 c1 c2 show ?thesis by simp
qed

text \<open>
  C9. When the request to the generative service raises, or its text cannot be parsed,
  \<open>mapCsvHeaders\<close> does not raise: it returns the mapping that sends every header to
  \<open>null\<close>.
\<close>

theorem C9_header_mapping_failure_yields_null_mapping:
  assumes "generateContent headers = Raises e \<or>
           (generateContent headers = Returns text \<and> json_mapping text = Raises e)"
  shows "mapCsvHeaders (Some generateContent) json_mapping headers
           = Returns (Some (null_mapping headers)) \<and>
         (\<forall>header \<in> set headers. map_of (null_mapping headers) header = Some None) \<and>
         dom (map_of (null_mapping headers)) = set headers"
proof -
  have m: "map_of (fold (\<lambda>header acc. set_prop header None acc) hs acc) h
      = (if h \<in> set hs then Some None else map_of acc h)" for hs h and acc :: header_map
    by (induction hs arbitrary: acc) (auto simp: map_of_set_prop)
  have "mapCsvHeaders (Some generateContent) json_mapping headers
           = Returns (Some (null_mapping headers))"
    using assms by (auto simp: mapCsvHeaders_def)
  then show ?thesis
    by (auto simp: null_mapping_def m dom_def)
qed

theorem C9_witness:
  "(\<lambda>headers. Raises ''503'') [''Depth_cm'', ''d18O_permil''] = Raises ''503'' \<and>
   mapCsvHeaders (Some (\<lambda>headers. Raises ''503'')) (\<lambda>text. Returns None)
      [''Depth_cm'', ''d18O_permil'']
     = Returns (Some [(''Depth_cm'', None), (''d18O_permil'', None)])"
proof -
  have "mapCsvHeaders (Some (\<lambda>headers. Raises ''503'')) (\<lambda>text. Returns None)
      [''Depth_cm'', ''d18O_permil'']
     = Returns (Some (null_mapping [''Depth_cm'', ''d18O_permil'']))"
    using C9_header_mapping_failure_yields_null_mapping
      [of "\<lambda>headers. Raises ''503''" "[''Depth_cm'', ''d18O_permil'']" "''503''"]
    by simp
  then show ?thesis by (simp add: null_mapping_def)
qed

section \<open>Loading: subsection labels and recomputed averages\<close>

lemma length_loaded_points:
  "length (dataPoints (dbSectionToAppSection r)) = length (stored_points r)"
  by (simp add: dbSectionToAppSection_def stored_points_def)

lemma nth_loaded_points:
  "i < length (stored_points r) \<Longrightarrow>
   dataPoints (dbSectionToAppSection r) ! i =
     set_prop ''subsection''
       (or_else (get (stored_points r ! i) ''subsection'') (Str (''Subsection '' @ show_nat (i + 1))))
       (stored_points r ! i)"
  by (simp add: dbSectionToAppSection_def stored_points_def nth_enumerate_eq)

lemma dataPoints_sectionsWithAverages:
  "map dataPoints (sectionsWithAverages B ss) = map dataPoints ss"
  by (simp add: sectionsWithAverages_def)

lemma loaded_subsection_truthy:
  "dp \<in> set (dataPoints (dbSectionToAppSection r)) \<Longrightarrow> truthy (get dp ''subsection'')"
proof -
  assume "dp \<in> set (dataPoints (dbSectionToAppSection r))"
  then obtain i where "i < length (stored_points r)" "dp = dataPoints (dbSectionToAppSection r) ! i"
    by (metis in_set_conv_nth length_loaded_points)
  then show ?thesis
    by (simp add: nth_loaded_points get_set_prop or_else_def)
qed

text \<open>
  C10. Every section that the load path returns has a non-empty (truthy) subsection on each
  of its data points: a stored point whose subsection is missing or empty gets the label
  \<open>Subsection N\<close>, with \<open>N\<close> its position in the stored series counted from 1, and any other
  stored point keeps its subsection.
\<close>

theorem C10_loaded_points_have_subsection:
  "(\<forall>s \<in> set (sections (fetchSections B (Returns (Some rows)) st)).
      \<forall>dp \<in> set (dataPoints s). truthy (get dp ''subsection'')) \<and>
   fetchSectionsForCore (Returns (Some rows)) = Returns (map dbSectionToAppSection rows) \<and>
   map dataPoints (sections (fetchSections B (Returns (Some rows)) st))
     = map (\<lambda>r. dataPoints (dbSectionToAppSection r)) rows \<and>
   (\<forall>r \<in> set rows.
      length (dataPoints (dbSectionToAppSection r)) = length (stored_points r) \<and>
      (\<forall>i < length (stored_points r).
         get (dataPoints (dbSectionToAppSection r) ! i) ''subsection'' =
           (if truthy (get (stored_points r ! i) ''subsection'')
            then get (stored_points r ! i) ''subsection''
            else Str (''Subsection '' @ show_nat (i + 1)))))"
proof -
  have m: "map dataPoints (sections (fetchSections B (Returns (Some rows)) st))
     = map (\<lambda>r. dataPoints (dbSectionToAppSection r)) rows"
    by (simp add: fetchSections_def fetchSectionsForCore_def dataPoints_sectionsWithAverages
        comp_def)
  have "\<forall>dp \<in> set (dataPoints s). truthy (get dp ''subsection'')"
    if "s \<in> set (sections (fetchSections B (Returns (Some rows)) st))" for s
  proof -
    from that have "dataPoints s \<in> set (map dataPoints (sections (fetchSections B (Returns (Some rows)) st)))"
      by simp
    then obtain r where "dataPoints s = dataPoints (dbSectionToAppSection r)"
      unfolding m by auto
    then show ?thesis by (simp add: loaded_subsection_truthy)
  qed
  then show ?thesis
    using m
    by (simp add: fetchSectionsForCore_def length_loaded_points nth_loaded_points get_set_prop
        or_else_def)
qed

theorem C10_witness:
  "[(''depth'', Num (Fin 5))] \<in> set (stored_points
      \<lparr>row_id = ''s1'', row_name = ''S1'',
       data_points = Some [[(''subsection'', Str ''A''), (''depth'', Num (Fin 1))],
                           [(''depth'', Num (Fin 5))]],
       lab_analysis = None\<rparr>) \<and>
   get (dataPoints (dbSectionToAppSection
      \<lparr>row_id = ''s1'', row_name = ''S1'',
       data_points = Some [[(''subsection'', Str ''A''), (''depth'', Num (Fin 1))],
                           [(''depth'', Num (Fin 5))]],
       lab_analysis = None\<rparr>) ! 1) ''subsection'' = Str ''Subsection 2''"
proof -
  let ?r = "\<lparr>row_id = ''s1'', row_name = ''S1'',
       data_points = Some [[(''subsection'', Str ''A''), (''depth'', Num (Fin 1))],
                           [(''depth'', Num (Fin 5))]],
       lab_analysis = None\<rparr>"
  have s: "stored_points ?r = [[(''subsection'', Str ''A''), (''depth'', Num (Fin 1))],
                           [(''depth'', Num (Fin 5))]]"
    by (simp add: stored_points_def)
  have n: "show_nat (Suc (Suc 0)) = ''2''"
    by (simp add: show_nat.simps digit_char_def)
  from C10_loaded_points_have_subsection [of _ "[?r]"]
  have "\<forall>i < length (stored_points ?r).
         get (dataPoints (dbSectionToAppSection ?r) ! i) ''subsection'' =
           (if truthy (get (stored_points ?r ! i) ''subsection'')
            then get (stored_points ?r ! i) ''subsection''
            else Str (''Subsection '' @ show_nat (i + 1)))"
    by simp
  then have "get (dataPoints (dbSectionToAppSection ?r) ! 1) ''subsection'' =
           (if truthy (get (stored_points ?r ! 1) ''subsection'')
            then get (stored_points ?r ! 1) ''subsection''
            else Str (''Subsection '' @ show_nat (1 + 1)))"
    by (simp add: s)
  then show ?thesis by (simp add: s n get_def)
qed

section \<open>The summary follows the series\<close>

lemma add_point_keeps_summary:
  "sectionProp (handleAddDataPoint B st) = sectionProp st \<or>
   (\<exists>points. sectionProp (handleAddDataPoint B st)
       = (sectionProp st)\<lparr>dataPoints := points,
                           labAnalysis := Some (calculateAveragesFromDataPoints B points)\<rparr>)"
  by (auto simp: handleAddDataPoint_def Let_def)

lemma confirm_keeps_summary:
  "sectionProp (handleConfirmMapping B clock finalMap full st) = sectionProp st \<or>
   (\<exists>points. sectionProp (handleConfirmMapping B clock finalMap full st)
       = (sectionProp st)\<lparr>dataPoints := points,
                           labAnalysis := Some (calculateAveragesFromDataPoints B points)\<rparr>)"
  by (auto simp: handleConfirmMapping_def Let_def split: attempt.splits)

lemma loaded_summary:
  "i < length rows \<Longrightarrow>
   (dataPoints (sections (fetchSections B (Returns (Some rows)) st) ! i) \<noteq> [] \<longrightarrow>
      labAnalysis (sections (fetchSections B (Returns (Some rows)) st) ! i)
        = Some (calculateAveragesFromDataPoints B
            (dataPoints (sections (fetchSections B (Returns (Some rows)) st) ! i)))) \<and>
   (dataPoints (sections (fetchSections B (Returns (Some rows)) st) ! i) = [] \<longrightarrow>
      labAnalysis (sections (fetchSections B (Returns (Some rows)) st) ! i)
        = lab_analysis (rows ! i))"
  by (simp add: fetchSections_def fetchSectionsForCore_def sectionsWithAverages_def
      dbSectionToAppSection_def)

text \<open>
  C2, as stated, fails on the load path: a stored section with an empty series keeps the
  labAnalysis stored for it, which need not be the empty mapping computed from its series.
\<close>

theorem C2_loaded_empty_series_counterexample:
  "sections (fetchSections
      \<lparr>parseFloat = (\<lambda>s. NaN), stringToNumber = (\<lambda>s. NaN), numberToString = (\<lambda>n. []),
        trim = (\<lambda>s. s), nearest_double = (\<lambda>x. x)\<rparr>
      (Returns (Some [\<lparr>row_id = ''s1'', row_name = ''S1'', data_points = Some [],
                       lab_analysis = Some [(''delta18O'', Num (Fin 3))]\<rparr>]))
      \<lparr>sections = [], toast = None, loadingSections = True\<rparr>)
     = [\<lparr>section_id = ''s1'', name = ''S1'', dataPoints = [],
         labAnalysis = Some [(''delta18O'', Num (Fin 3))]\<rparr>] \<and>
   Some [(''delta18O'', Num (Fin 3))] \<noteq> Some (calculateAveragesFromDataPoints
      \<lparr>parseFloat = (\<lambda>s. NaN), stringToNumber = (\<lambda>s. NaN), numberToString = (\<lambda>n. []),
        trim = (\<lambda>s. s), nearest_double = (\<lambda>x. x)\<rparr> [])"
  by (simp add: fetchSections_def fetchSectionsForCore_def sectionsWithAverages_def
      dbSectionToAppSection_def calculateAveragesFromDataPoints_def)

text \<open>
  C2, amended. A manual submission and a bulk merge either leave the section as it was or
  replace its series and its labAnalysis together, the labAnalysis being the averages
  computed from the new series. A section loaded from the store with at least one data
  point has the averages computed from its series as labAnalysis; a section loaded with an
  empty series keeps the labAnalysis stored for it.
\<close>

theorem C2_summary_follows_series:
  "(sectionProp (handleAddDataPoint B st) = sectionProp st \<or>
    (\<exists>points. sectionProp (handleAddDataPoint B st)
       = (sectionProp st)\<lparr>dataPoints := points,
                           labAnalysis := Some (calculateAveragesFromDataPoints B points)\<rparr>)) \<and>
   (sectionProp (handleConfirmMapping B clock finalMap full st) = sectionProp st \<or>
    (\<exists>points. sectionProp (handleConfirmMapping B clock finalMap full st)
       = (sectionProp st)\<lparr>dataPoints := points,
                           labAnalysis := Some (calculateAveragesFromDataPoints B points)\<rparr>)) \<and>
   (\<forall>i < length rows.
      (dataPoints (sections (fetchSections B (Returns (Some rows)) d) ! i) \<noteq> [] \<longrightarrow>
         labAnalysis (sections (fetchSections B (Returns (Some rows)) d) ! i)
           = Some (calculateAveragesFromDataPoints B
               (dataPoints (sections (fetchSections B (Returns (Some rows)) d) ! i)))) \<and>
      (dataPoints (sections (fetchSections B (Returns (Some rows)) d) ! i) = [] \<longrightarrow>
         labAnalysis (sections (fetchSections B (Returns (Some rows)) d) ! i)
           = lab_analysis (rows ! i)))"
  using add_point_keeps_summary [of B st] confirm_keeps_summary [of B clock finalMap full st]
    loaded_summary [of _ rows B d]
  by blast

theorem C2_witness:
  "(0::nat) < length [\<lparr>row_id = ''s1'', row_name = ''S1'',
        data_points = Some [[(''subsection'', Str ''A''), (''delta18O'', Num (Fin 3))]],
        lab_analysis = None\<rparr>] \<and>
   dataPoints (sections (fetchSections
      \<lparr>parseFloat = (\<lambda>s. NaN), stringToNumber = (\<lambda>s. NaN), numberToString = (\<lambda>n. []),
        trim = (\<lambda>s. s), nearest_double = (\<lambda>x. x)\<rparr>
      (Returns (Some [\<lparr>row_id = ''s1'', row_name = ''S1'',
        data_points = Some [[(''subsection'', Str ''A''), (''delta18O'', Num (Fin 3))]],
        lab_analysis = None\<rparr>]))
      \<lparr>sections = [], toast = None, loadingSections = True\<rparr>) ! 0)
     = [[(''subsection'', Str ''A''), (''delta18O'', Num (Fin 3))]] \<and>
   labAnalysis (sections (fetchSections
      \<lparr>parseFloat = (\<lambda>s. NaN), stringToNumber = (\<lambda>s. NaN), numberToString = (\<lambda>n. []),
        trim = (\<lambda>s. s), nearest_double = (\<lambda>x. x)\<rparr>
      (Returns (Some [\<lparr>row_id = ''s1'', row_name = ''S1'',
        data_points = Some [[(''subsection'', Str ''A''), (''delta18O'', Num (Fin 3))]],
        lab_analysis = None\<rparr>]))
      \<lparr>sections = [], toast = None, loadingSections = True\<rparr>) ! 0)
     = Some (calculateAveragesFromDataPoints
      \<lparr>parseFloat = (\<lambda>s. NaN), stringToNumber = (\<lambda>s. NaN), numberToString = (\<lambda>n. []),
        trim = (\<lambda>s. s), nearest_double = (\<lambda>x. x)\<rparr>
         [[(''subsection'', Str ''A''), (''delta18O'', Num (Fin 3))]])"
proof -
  let ?B = "\<lparr>parseFloat = (\<lambda>s. NaN), stringToNumber = (\<lambda>s. NaN), numberToString = (\<lambda>n. []),
        trim = (\<lambda>s. s), nearest_double = (\<lambda>x. x)\<rparr>"
  let ?rows = "[\<lparr>row_id = ''s1'', row_name = ''S1'',
        data_points = Some [[(''subsection'', Str ''A''), (''delta18O'', Num (Fin 3))]],
        lab_analysis = None\<rparr>]"
  let ?d = "\<lparr>sections = [], toast = None, loadingSections = True\<rparr>"
  have l: "(0::nat) < length ?rows" by simp
  have p: "dataPoints (sections (fetchSections ?B (Returns (Some ?rows)) ?d) ! 0)
     = [[(''subsection'', Str ''A''), (''delta18O'', Num (Fin 3))]]"
    by (simp add: fetchSections_def fetchSectionsForCore_def sectionsWithAverages_def
        dbSectionToAppSection_def get_def or_else_def)
  from C2_summary_follows_series [of ?B _ _ _ _ ?rows ?d] l
  have "dataPoints (sections (fetchSections ?B (Returns (Some ?rows)) ?d) ! 0) \<noteq> [] \<longrightarrow>
         labAnalysis (sections (fetchSections ?B (Returns (Some ?rows)) ?d) ! 0)
           = Some (calculateAveragesFromDataPoints ?B
               (dataPoints (sections (fetchSections ?B (Returns (Some ?rows)) ?d) ! 0)))"
    by blast
  with p l show ?thesis by simp
qed

section \<open>Sorting with a comparator\<close>

lemma mset_insert_sorted: "mset (insert_sorted cmp x xs) = add_mset x (mset xs)"
  by (induction xs) auto

lemma mset_array_sort: "mset (array_sort cmp xs) = mset xs"
  by (induction xs) (auto simp: array_sort_def mset_insert_sorted)

lemma set_array_sort: "set (array_sort cmp xs) = set xs"
  by (metis mset_array_sort set_mset_mset)

lemma length_array_sort: "length (array_sort cmp xs) = length xs"
  by (metis mset_array_sort size_mset)

lemma positive_num_sub: "a \<noteq> NaN \<Longrightarrow> b \<noteq> NaN \<Longrightarrow> positive (num_sub a b) = (\<not> num_le a b)"
  by (cases a; cases b) auto

lemma num_le_trans: "num_le a b \<Longrightarrow> num_le b c \<Longrightarrow> num_le a c"
  by (cases a; cases b; cases c) auto

lemma num_le_linear: "a \<noteq> NaN \<Longrightarrow> b \<noteq> NaN \<Longrightarrow> num_le a b \<or> num_le b a"
  by (cases a; cases b) auto

lemma sorted_insert_sorted:
  assumes "\<forall>y \<in> set (x # xs). k y \<noteq> NaN"
    and "sorted_wrt (\<lambda>a b. num_le (k a) (k b)) xs"
  shows "sorted_wrt (\<lambda>a b. num_le (k a) (k b)) (insert_sorted (\<lambda>a b. num_sub (k a) (k b)) x xs)"
  using assms
proof (induction xs)
  case Nil
  then show ?case by simp
next
  case (Cons y ys)
  show ?case
  proof (cases "num_le (k x) (k y)")
    case True
    with Cons.prems show ?thesis
      by (auto simp: positive_num_sub intro: num_le_trans)
  next
    case False
    with Cons.prems have yx: "num_le (k y) (k x)"
      using num_le_linear [of "k x" "k y"] by simp
    from Cons have "sorted_wrt (\<lambda>a b. num_le (k a) (k b))
        (insert_sorted (\<lambda>a b. num_sub (k a) (k b)) x ys)"
      by simp
    moreover have "set (insert_sorted (\<lambda>a b. num_sub (k a) (k b)) x ys) = insert x (set ys)"
      by (metis mset_insert_sorted set_mset_add_mset_insert set_mset_mset)
    ultimately show ?thesis
      using False Cons.prems yx by (auto simp: positive_num_sub)
  qed
qed

lemma sorted_array_sort:
  "\<forall>y \<in> set xs. k y \<noteq> NaN \<Longrightarrow>
   sorted_wrt (\<lambda>a b. num_le (k a) (k b)) (array_sort (\<lambda>a b. num_sub (k a) (k b)) xs)"
proof (induction xs)
  case Nil
  show ?case by (simp add: array_sort_def)
next
  case (Cons x xs)
  then have "sorted_wrt (\<lambda>a b. num_le (k a) (k b)) (array_sort (\<lambda>a b. num_sub (k a) (k b)) xs)"
    by simp
  moreover from Cons.prems
  have "\<forall>y \<in> set (x # array_sort (\<lambda>a b. num_sub (k a) (k b)) xs). k y \<noteq> NaN"
    by (simp add: set_array_sort)
  ultimately show ?case
    using sorted_insert_sorted [of x "array_sort (\<lambda>a b. num_sub (k a) (k b)) xs" k]
    by (simp add: array_sort_def)
qed

section \<open>The composite splice: selection and order\<close>

lemma between_min_max:
  "(num_le (num_min a b) x \<and> num_le x (num_max a b)) = between a b x"
  by (cases a; cases b; cases x) (auto simp: num_min_def num_max_def between_def)

lemma splice_points_selected:
  "splice_points B intervals s = filter (selected B intervals s) (dataPoints s)"
  by (auto simp: splice_points_def selected_def between_min_max Let_def
      split: option.splits intro: filter_cong)

lemma between_not_NaN: "between a b x \<Longrightarrow> x \<noteq> NaN"
  by (cases x) (auto simp: between_def)

lemma selected_age_key:
  "selected B intervals s p \<Longrightarrow> age_key B p \<noteq> NaN"
  by (cases "get p ''age''")
     (auto simp: selected_def age_key_def or_else_def split: option.splits jsnum.splits
       dest: between_not_NaN)

lemma selected_age_number:
  "selected B intervals s p \<Longrightarrow> get p ''age'' = Num x \<Longrightarrow> age_key B p = x"
  by (cases x)
     (auto simp: selected_def age_key_def or_else_def split: option.splits
       dest: between_not_NaN)

text \<open>
  C5. The composite splice holds exactly the points selected from their own sections: those
  whose age is defined and lies inclusively between the two bounds of the section's
  interval, whichever bound is the larger; a section with a bound that is null contributes
  no point. The splice is sorted ascending by the key of its comparator, which for a point
  whose age is a number is that age.
\<close>

theorem C5_splice_selects_and_sorts:
  assumes "calibratedSections st = Some secs"
  shows "mset (compositeSplice B st)
           = mset (concat (map (\<lambda>s. filter (selected B (spliceIntervals st) s) (dataPoints s)) secs)) \<and>
         sorted_wrt (\<lambda>p q. num_le (age_key B p) (age_key B q)) (compositeSplice B st) \<and>
         (\<forall>p \<in> set (compositeSplice B st). \<forall>x. get p ''age'' = Num x \<longrightarrow> age_key B p = x) \<and>
         (\<forall>s \<in> set secs. \<forall>interval.
            map_of (spliceIntervals st) (section_id s) = Some interval \<and>
            (startAge interval = None \<or> endAge interval = None) \<longrightarrow>
            splice_points B (spliceIntervals st) s = [])"
proof -
  let ?all = "concat (map (splice_points B (spliceIntervals st)) secs)"
  have r: "compositeSplice B st = array_sort (by_age B) ?all"
    using assms by (simp add: compositeSplice_def)
  have by_age: "by_age B = (\<lambda>a b. num_sub (age_key B a) (age_key B b))"
    by (simp add: by_age_def fun_eq_iff)
  have keys: "\<forall>p \<in> set ?all. age_key B p \<noteq> NaN"
    by (auto simp: splice_points_selected selected_age_key)
  have sp: "splice_points B (spliceIntervals st)
      = (\<lambda>s. filter (selected B (spliceIntervals st) s) (dataPoints s))"
    by (simp add: fun_eq_iff splice_points_selected)
  have 1: "mset (compositeSplice B st)
      = mset (concat (map (\<lambda>s. filter (selected B (spliceIntervals st) s) (dataPoints s)) secs))"
    by (simp add: r mset_array_sort sp)
  have 2: "sorted_wrt (\<lambda>p q. num_le (age_key B p) (age_key B q)) (compositeSplice B st)"
    unfolding r by_age using keys by (rule sorted_array_sort)
  have 3: "age_key B p = x" if "p \<in> set (compositeSplice B st)" "get p ''age'' = Num x" for p x
  proof -
    from that(1) obtain s where "selected B (spliceIntervals st) s p"
      by (auto simp: r set_array_sort sp)
    then show ?thesis using that(2) by (rule selected_age_number)
  qed
  have 4: "splice_points B (spliceIntervals st) s = []"
    if "map_of (spliceIntervals st) (section_id s) = Some interval"
       "startAge interval = None \<or> endAge interval = None" for s interval
    using that by (auto simp: splice_points_def split: option.splits)
  from 1 2 3 4 show ?thesis by blast
qed

theorem C5_witness:
  "calibratedSections
     \<lparr>calibratedSections = Some
        [\<lparr>section_id = ''s1'', name = ''S1'',
           dataPoints = [[(''subsection'', Str ''A''), (''age'', Num (Fin 30))],
                         [(''subsection'', Str ''B''), (''age'', Num (Fin 25))],
                         [(''subsection'', Str ''C''), (''age'', Num (Fin 50))],
                         [(''subsection'', Str ''D'')]],
           labAnalysis = None\<rparr>,
         \<lparr>section_id = ''s2'', name = ''S2'',
           dataPoints = [[(''subsection'', Str ''E''), (''age'', Num (Fin 2))]],
           labAnalysis = None\<rparr>],
      spliceIntervals =
        [(''s1'', \<lparr>startAge = Some (Fin 40), endAge = Some (Fin 20)\<rparr>),
         (''s2'', \<lparr>startAge = None, endAge = Some (Fin 3)\<rparr>)],
      tiePoints = 2, synthesisError = None\<rparr>
    = Some
        [\<lparr>section_id = ''s1'', name = ''S1'',
           dataPoints = [[(''subsection'', Str ''A''), (''age'', Num (Fin 30))],
                         [(''subsection'', Str ''B''), (''age'', Num (Fin 25))],
                         [(''subsection'', Str ''C''), (''age'', Num (Fin 50))],
                         [(''subsection'', Str ''D'')]],
           labAnalysis = None\<rparr>,
         \<lparr>section_id = ''s2'', name = ''S2'',
           dataPoints = [[(''subsection'', Str ''E''), (''age'', Num (Fin 2))]],
           labAnalysis = None\<rparr>] \<and>
   mset (compositeSplice
     \<lparr>parseFloat = (\<lambda>s. NaN), stringToNumber = (\<lambda>s. NaN), numberToString = (\<lambda>n. []), trim = (\<lambda>s. s),
      nearest_double = (\<lambda>x. x)\<rparr>
     \<lparr>calibratedSections = Some
        [\<lparr>section_id = ''s1'', name = ''S1'',
           dataPoints = [[(''subsection'', Str ''A''), (''age'', Num (Fin 30))],
                         [(''subsection'', Str ''B''), (''age'', Num (Fin 25))],
                         [(''subsection'', Str ''C''), (''age'', Num (Fin 50))],
                         [(''subsection'', Str ''D'')]],
           labAnalysis = None\<rparr>,
         \<lparr>section_id = ''s2'', name = ''S2'',
           dataPoints = [[(''subsection'', Str ''E''), (''age'', Num (Fin 2))]],
           labAnalysis = None\<rparr>],
      spliceIntervals =
        [(''s1'', \<lparr>startAge = Some (Fin 40), endAge = Some (Fin 20)\<rparr>),
         (''s2'', \<lparr>startAge = None, endAge = Some (Fin 3)\<rparr>)],
      tiePoints = 2, synthesisError = None\<rparr>)
    = {#[(''subsection'', Str ''A''), (''age'', Num (Fin 30))],
        [(''subsection'', Str ''B''), (''age'', Num (Fin 25))]#}"
proof -
  let ?secs = "[\<lparr>section_id = ''s1'', name = ''S1'',
           dataPoints = [[(''subsection'', Str ''A''), (''age'', Num (Fin 30))],
                         [(''subsection'', Str ''B''), (''age'', Num (Fin 25))],
                         [(''subsection'', Str ''C''), (''age'', Num (Fin 50))],
                         [(''subsection'', Str ''D'')]],
           labAnalysis = None\<rparr>,
         \<lparr>section_id = ''s2'', name = ''S2'',
           dataPoints = [[(''subsection'', Str ''E''), (''age'', Num (Fin 2))]],
           labAnalysis = None\<rparr>]"
  let ?st = "\<lparr>calibratedSections = Some ?secs,
      spliceIntervals =
        [(''s1'', \<lparr>startAge = Some (Fin 40), endAge = Some (Fin 20)\<rparr>),
         (''s2'', \<lparr>startAge = None, endAge = Some (Fin 3)\<rparr>)],
      tiePoints = 2, synthesisError = None\<rparr>"
  let ?B = "\<lparr>parseFloat = (\<lambda>s. NaN), stringToNumber = (\<lambda>s. NaN), numberToString = (\<lambda>n. []), trim = (\<lambda>s. s),
      nearest_double = (\<lambda>x. x)\<rparr>"
  have h: "calibratedSections ?st = Some ?secs" by simp
  from C5_splice_selects_and_sorts [OF h, of ?B]
  have "mset (compositeSplice ?B ?st)
      = mset (concat (map (\<lambda>s. filter (selected ?B (spliceIntervals ?st) s) (dataPoints s)) ?secs))"
    by blast
  also have "\<dots> = {#[(''subsection'', Str ''A''), (''age'', Num (Fin 30))],
        [(''subsection'', Str ''B''), (''age'', Num (Fin 25))]#}"
    by (simp add: selected_def between_def get_def)
  finally show ?thesis using h by simp
qed

section \<open>The age-model merge\<close>

lemma map_of_fold_set_prop:
  "map_of (fold (\<lambda>x m. set_prop (f x) (g x) m) xs m0) k =
     (case map_of (rev (map (\<lambda>x. (f x, g x)) xs)) k of Some v \<Rightarrow> Some v | None \<Rightarrow> map_of m0 k)"
  by (induction xs arbitrary: m0) (auto simp: map_of_set_prop map_add_def split: option.splits)

lemma set_prop_not_Nil: "set_prop k v m \<noteq> []"
  by (cases m) (auto split: if_splits)

lemma fold_set_prop_Nil:
  "(fold (\<lambda>x m. set_prop (f x) (g x) m) xs m0 = []) = (xs = [] \<and> m0 = [])"
  by (induction xs arbitrary: m0) (auto simp: set_prop_not_Nil)

lemma map_of_ageMap: "map_of (ageMap dps) d = map_of (rev (returned_pairs dps)) d"
  by (simp add: ageMap_def returned_pairs_def map_of_fold_set_prop split: option.splits)

lemma ageMap_Nil: "(ageMap dps = []) = (returned_pairs dps = [])"
  by (simp add: ageMap_def returned_pairs_def fold_set_prop_Nil)

lemma returned_pairs_defined:
  "map_of (rev (returned_pairs dps)) d = Some a \<Longrightarrow> a \<noteq> Undefined \<and> a \<noteq> Null"
  by (auto simp: returned_pairs_def has_age_def dest!: map_of_SomeD)

lemma get_apply_age:
  "get (apply_age B (ageMap dps) p) f =
     (if f = ''age'' then
        (case (if get p ''depth'' = Undefined then None
               else map_of (rev (returned_pairs dps)) (get p ''depth'')) of
           Some a \<Rightarrow> Num (round4 (toNumber B a))
         | None \<Rightarrow> get p ''age'')
      else get p f)"
  by (auto simp: apply_age_def Let_def map_of_ageMap get_set_prop
      split: option.splits dest: returned_pairs_defined)

lemma calibrate_section_shape:
  "section_id (calibrate_section B calibrated s) = section_id s \<and>
   name (calibrate_section B calibrated s) = name s \<and>
   labAnalysis (calibrate_section B calibrated s) = labAnalysis s \<and>
   length (dataPoints (calibrate_section B calibrated s)) = length (dataPoints s)"
  by (simp add: calibrate_section_def split: option.splits)

lemma get_calibrated_point:
  assumes "j < length (dataPoints s)"
  shows "get (dataPoints (calibrate_section B calibrated s) ! j) f =
     (if f = ''age'' then
        (case returned_age calibrated (section_id s) (get (dataPoints s ! j) ''depth'') of
           Some a \<Rightarrow> Num (round4 (toNumber B a))
         | None \<Rightarrow> get (dataPoints s ! j) ''age'')
      else get (dataPoints s ! j) f)"
proof (cases "find (\<lambda>cs. cs_id cs = Str (section_id s)) calibrated")
  case None
  then show ?thesis by (simp add: calibrate_section_def returned_age_def)
next
  case (Some cs)
  show ?thesis
  proof (cases "cs_dataPoints cs")
    case None
    with Some show ?thesis by (simp add: calibrate_section_def returned_age_def)
  next
    case (Some dps)
    show ?thesis
    proof (cases "ageMap dps = []")
      case True
      then have "returned_pairs dps = []" by (simp add: ageMap_Nil)
      with True \<open>find _ calibrated = Some cs\<close> Some show ?thesis
        by (simp add: calibrate_section_def returned_age_def)
    next
      case False
      with \<open>find _ calibrated = Some cs\<close> Some assms show ?thesis
        by (simp add: calibrate_section_def returned_age_def get_apply_age)
    qed
  qed
qed

lemma no_age_data:
  "(\<forall>cs \<in> set calibrated. \<forall>dps. cs_dataPoints cs = Some dps \<longrightarrow> (\<forall>dp \<in> set dps. \<not> has_age dp))
   \<Longrightarrow> \<not> hasAnyAgeData calibrated"
  by (auto simp: hasAnyAgeData_def list_ex_iff split: option.splits)

lemma generateAgeModel_raises:
  "\<not> hasAnyAgeData calibrated \<Longrightarrow>
   \<exists>msg. generateAgeModel B configured (Returns (Some calibrated)) originals = Raises msg"
  by (simp add: generateAgeModel_def)

lemma handle_raises:
  "generateAgeModel B configured answer originals = Raises msg \<Longrightarrow>
   calibratedSections (handleGenerateAgeModel B configured answer originals st) = calibratedSections st"
  by (simp add: handleGenerateAgeModel_def)

lemma generateAgeModel_returns:
  "generateAgeModel B configured (Returns (Some calibrated)) originals = Returns final \<Longrightarrow>
   final = map (calibrate_section B calibrated) originals"
  by (auto simp: generateAgeModel_def split: if_splits)

text \<open>
  C4, as stated, fails: the age that a point receives is the returned age rounded to four
  decimals, not the returned age itself.
\<close>

theorem C4_age_is_rounded_counterexample:
  "generateAgeModel
     \<lparr>parseFloat = (\<lambda>s. NaN), stringToNumber = (\<lambda>s. NaN), numberToString = (\<lambda>n. []), trim = (\<lambda>s. s),
      nearest_double = (\<lambda>x. x)\<rparr> True
     (Returns (Some [\<lparr>cs_id = Str ''s1'',
        cs_dataPoints = Some [[(''depth'', Num (Fin 10)), (''age'', Num (Fin 5.123456))]]\<rparr>]))
     [\<lparr>section_id = ''s1'', name = ''S1'',
       dataPoints = [[(''subsection'', Str ''A''), (''depth'', Num (Fin 10))]],
       labAnalysis = None\<rparr>]
    = Returns [\<lparr>section_id = ''s1'', name = ''S1'',
       dataPoints = [[(''subsection'', Str ''A''), (''depth'', Num (Fin 10)),
                      (''age'', Num (Fin 5.1235))]],
       labAnalysis = None\<rparr>] \<and>
   Num (Fin 5.1235) \<noteq> Num (Fin 5.123456)"
  by (simp add: generateAgeModel_def hasAnyAgeData_def has_age_def get_def calibrate_section_def
      ageMap_def apply_age_def round4_def)

text \<open>
  C4, amended. Ages are merged onto the original points by exact depth equality, within the
  entry of the answer that carries the id of the point's section: a point whose depth is
  that of a returned pair with a non-null age receives the returned age rounded to four
  decimals (of the last such pair); every other point keeps the age it had, undefined
  staying undefined; no other field of a point changes. When the answer holds no non-null
  age at all, the operation raises one error and the calibrated sections stay as they were.
\<close>

theorem C4_ages_merged_by_depth:
  "((\<forall>cs \<in> set calibrated. \<forall>dps. cs_dataPoints cs = Some dps \<longrightarrow> (\<forall>dp \<in> set dps. \<not> has_age dp)) \<longrightarrow>
      (\<exists>msg. generateAgeModel B configured (Returns (Some calibrated)) originals = Raises msg) \<and>
      calibratedSections (handleGenerateAgeModel B configured (Returns (Some calibrated)) originals st)
        = calibratedSections st) \<and>
   (generateAgeModel B configured (Returns (Some calibrated)) originals = Returns final \<longrightarrow>
      length final = length originals \<and>
      (\<forall>i < length originals.
         section_id (final ! i) = section_id (originals ! i) \<and>
         length (dataPoints (final ! i)) = length (dataPoints (originals ! i)) \<and>
         (\<forall>j < length (dataPoints (originals ! i)).
            get (dataPoints (final ! i) ! j) ''age'' =
              (case returned_age calibrated (section_id (originals ! i))
                      (get (dataPoints (originals ! i) ! j) ''depth'') of
                 Some a \<Rightarrow> Num (round4 (toNumber B a))
               | None \<Rightarrow> get (dataPoints (originals ! i) ! j) ''age'') \<and>
            (\<forall>f. f \<noteq> ''age'' \<longrightarrow>
               get (dataPoints (final ! i) ! j) f = get (dataPoints (originals ! i) ! j) f))))"
proof (intro conjI impI)
  assume none: "\<forall>cs \<in> set calibrated. \<forall>dps. cs_dataPoints cs = Some dps \<longrightarrow> (\<forall>dp \<in> set dps. \<not> has_age dp)"
  then have "\<not> hasAnyAgeData calibrated" by (rule no_age_data)
  then show r: "\<exists>msg. generateAgeModel B configured (Returns (Some calibrated)) originals = Raises msg"
    by (rule generateAgeModel_raises)
  then show "calibratedSections (handleGenerateAgeModel B configured (Returns (Some calibrated)) originals st)
        = calibratedSections st"
    by (auto dest: handle_raises)
next
  assume "generateAgeModel B configured (Returns (Some calibrated)) originals = Returns final"
  then have f: "final = map (calibrate_section B calibrated) originals"
    by (rule generateAgeModel_returns)
  then show "length final = length originals" by simp
  show "\<forall>i < length originals.
         section_id (final ! i) = section_id (originals ! i) \<and>
         length (dataPoints (final ! i)) = length (dataPoints (originals ! i)) \<and>
         (\<forall>j < length (dataPoints (originals ! i)).
            get (dataPoints (final ! i) ! j) ''age'' =
              (case returned_age calibrated (section_id (originals ! i))
                      (get (dataPoints (originals ! i) ! j) ''depth'') of
                 Some a \<Rightarrow> Num (round4 (toNumber B a))
               | None \<Rightarrow> get (dataPoints (originals ! i) ! j) ''age'') \<and>
            (\<forall>f. f \<noteq> ''age'' \<longrightarrow>
               get (dataPoints (final ! i) ! j) f = get (dataPoints (originals ! i) ! j) f))"
    by (simp add: f calibrate_section_shape get_calibrated_point)
qed

theorem C4_witness:
  "generateAgeModel
     \<lparr>parseFloat = (\<lambda>s. NaN), stringToNumber = (\<lambda>s. NaN), numberToString = (\<lambda>n. []), trim = (\<lambda>s. s),
      nearest_double = (\<lambda>x. x)\<rparr> True
     (Returns (Some [\<lparr>cs_id = Str ''s1'',
        cs_dataPoints = Some [[(''depth'', Num (Fin 10)), (''age'', Num (Fin 5))]]\<rparr>]))
     [\<lparr>section_id = ''s1'', name = ''S1'',
       dataPoints = [[(''subsection'', Str ''A''), (''depth'', Num (Fin 10))],
                     [(''subsection'', Str ''B''), (''depth'', Num (Fin 30))]],
       labAnalysis = None\<rparr>]
    = Returns (map (calibrate_section
        \<lparr>parseFloat = (\<lambda>s. NaN), stringToNumber = (\<lambda>s. NaN), numberToString = (\<lambda>n. []), trim = (\<lambda>s. s),
      nearest_double = (\<lambda>x. x)\<rparr>
        [\<lparr>cs_id = Str ''s1'',
          cs_dataPoints = Some [[(''depth'', Num (Fin 10)), (''age'', Num (Fin 5))]]\<rparr>])
       [\<lparr>section_id = ''s1'', name = ''S1'',
         dataPoints = [[(''subsection'', Str ''A''), (''depth'', Num (Fin 10))],
                       [(''subsection'', Str ''B''), (''depth'', Num (Fin 30))]],
         labAnalysis = None\<rparr>]) \<and>
   get (dataPoints (map (calibrate_section
        \<lparr>parseFloat = (\<lambda>s. NaN), stringToNumber = (\<lambda>s. NaN), numberToString = (\<lambda>n. []), trim = (\<lambda>s. s),
      nearest_double = (\<lambda>x. x)\<rparr>
        [\<lparr>cs_id = Str ''s1'',
          cs_dataPoints = Some [[(''depth'', Num (Fin 10)), (''age'', Num (Fin 5))]]\<rparr>])
       [\<lparr>section_id = ''s1'', name = ''S1'',
         dataPoints = [[(''subsection'', Str ''A''), (''depth'', Num (Fin 10))],
                       [(''subsection'', Str ''B''), (''depth'', Num (Fin 30))]],
         labAnalysis = None\<rparr>] ! 0) ! 0) ''age'' = Num (Fin 5) \<and>
   get (dataPoints (map (calibrate_section
        \<lparr>parseFloat = (\<lambda>s. NaN), stringToNumber = (\<lambda>s. NaN), numberToString = (\<lambda>n. []), trim = (\<lambda>s. s),
      nearest_double = (\<lambda>x. x)\<rparr>
        [\<lparr>cs_id = Str ''s1'',
          cs_dataPoints = Some [[(''depth'', Num (Fin 10)), (''age'', Num (Fin 5))]]\<rparr>])
       [\<lparr>section_id = ''s1'', name = ''S1'',
         dataPoints = [[(''subsection'', Str ''A''), (''depth'', Num (Fin 10))],
                       [(''subsection'', Str ''B''), (''depth'', Num (Fin 30))]],
         labAnalysis = None\<rparr>] ! 0) ! 1) ''age'' = Undefined \<and>
   calibratedSections (handleGenerateAgeModel
        \<lparr>parseFloat = (\<lambda>s. NaN), stringToNumber = (\<lambda>s. NaN), numberToString = (\<lambda>n. []), trim = (\<lambda>s. s),
      nearest_double = (\<lambda>x. x)\<rparr> True
        (Returns (Some [\<lparr>cs_id = Str ''s1'',
          cs_dataPoints = Some [[(''depth'', Num (Fin 10)), (''age'', Null)]]\<rparr>]))
        [\<lparr>section_id = ''s1'', name = ''S1'',
         dataPoints = [[(''subsection'', Str ''A''), (''depth'', Num (Fin 10))],
                       [(''subsection'', Str ''B''), (''depth'', Num (Fin 30))]],
         labAnalysis = None\<rparr>]
        \<lparr>calibratedSections = None, spliceIntervals = [], tiePoints = 2,
        synthesisError = None\<rparr>) = None"
proof -
  let ?B = "\<lparr>parseFloat = (\<lambda>s. NaN), stringToNumber = (\<lambda>s. NaN), numberToString = (\<lambda>n. []), trim = (\<lambda>s. s),
      nearest_double = (\<lambda>x. x)\<rparr>"
  let ?cal = "[\<lparr>cs_id = Str ''s1'',
          cs_dataPoints = Some [[(''depth'', Num (Fin 10)), (''age'', Num (Fin 5))]]\<rparr>]"
  let ?orig = "[\<lparr>section_id = ''s1'', name = ''S1'',
         dataPoints = [[(''subsection'', Str ''A''), (''depth'', Num (Fin 10))],
                       [(''subsection'', Str ''B''), (''depth'', Num (Fin 30))]],
         labAnalysis = None\<rparr>]"
  let ?final = "map (calibrate_section ?B ?cal) ?orig"
  let ?none = "[\<lparr>cs_id = Str ''s1'',
          cs_dataPoints = Some [[(''depth'', Num (Fin 10)), (''age'', Null)]]\<rparr>]"
  let ?st0 = "\<lparr>calibratedSections = None, spliceIntervals = [], tiePoints = 2,
        synthesisError = None\<rparr>"
  have h: "generateAgeModel ?B True (Returns (Some ?cal)) ?orig = Returns ?final"
    by (simp add: generateAgeModel_def hasAnyAgeData_def has_age_def get_def)
  have a0: "returned_age ?cal ''s1'' (Num (Fin 10)) = Some (Num (Fin 5))"
    by (simp add: returned_age_def returned_pairs_def has_age_def get_def)
  have a1: "returned_age ?cal ''s1'' (Num (Fin 30)) = None"
    by (simp add: returned_age_def returned_pairs_def has_age_def get_def)
  from C4_ages_merged_by_depth [of ?cal ?B True ?orig _ ?final] h
  have "\<forall>i < length ?orig. \<forall>j < length (dataPoints (?orig ! i)).
            get (dataPoints (?final ! i) ! j) ''age'' =
              (case returned_age ?cal (section_id (?orig ! i))
                      (get (dataPoints (?orig ! i) ! j) ''depth'') of
                 Some a \<Rightarrow> Num (round4 (toNumber ?B a))
               | None \<Rightarrow> get (dataPoints (?orig ! i) ! j) ''age'')"
    by blast
  note k = this [rule_format]
  have "get (dataPoints (?final ! 0) ! 0) ''age'' = Num (Fin 5)"
    using k [of 0 0] by (simp add: get_def a0 round4_def)
  moreover have "get (dataPoints (?final ! 0) ! 1) ''age'' = Undefined"
    using k [of 0 1] by (simp add: get_def a1)
  ultimately have "get (dataPoints (?final ! 0) ! 0) ''age'' = Num (Fin 5) \<and>
      get (dataPoints (?final ! 0) ! 1) ''age'' = Undefined"
    by simp
  moreover have "calibratedSections (handleGenerateAgeModel ?B True (Returns (Some ?none)) ?orig ?st0)
      = None"
  proof -
    have n: "\<forall>cs \<in> set ?none.
        \<forall>dps. cs_dataPoints cs = Some dps \<longrightarrow> (\<forall>dp \<in> set dps. \<not> has_age dp)"
      by (simp add: has_age_def get_def)
    from C4_ages_merged_by_depth [of ?none ?B True ?orig ?st0] n
    have "calibratedSections (handleGenerateAgeModel ?B True (Returns (Some ?none)) ?orig ?st0)
        = calibratedSections ?st0"
      by blast
    then show ?thesis by simp
  qed
  ultimately show ?thesis using h by simp
qed

section \<open>Generated keys are distinct\<close>

lemma digit_char_inj: "d < 10 \<Longrightarrow> e < 10 \<Longrightarrow> digit_char d = digit_char e \<Longrightarrow> d = e"
proof -
  assume "d < 10" "e < 10" "digit_char d = digit_char e"
  moreover have "distinct ''0123456789''" by simp
  ultimately show "d = e"
    unfolding digit_char_def by (simp add: nth_eq_iff_index_eq)
qed

lemma digit_char_not_dash: "d < 10 \<Longrightarrow> digit_char d \<noteq> CHR ''-''"
proof -
  assume "d < 10"
  then have "digit_char d \<in> set ''0123456789''"
    unfolding digit_char_def by (intro nth_mem) simp
  then show ?thesis by auto
qed

lemma show_nat_not_Nil: "show_nat n \<noteq> []"
  by (subst show_nat.simps) simp

lemma show_nat_no_dash: "CHR ''-'' \<notin> set (show_nat n)"
proof (induction n rule: show_nat.induct)
  case (1 n)
  show ?case
  proof (cases "n < 10")
    case True
    then show ?thesis
      using digit_char_not_dash [of n] by (subst show_nat.simps) auto
  next
    case False
    with 1 show ?thesis
      using digit_char_not_dash [of "n mod 10"] by (subst show_nat.simps) auto
  qed
qed

lemma show_nat_inj: "show_nat n = show_nat m \<Longrightarrow> n = m"
proof (induction n arbitrary: m rule: show_nat.induct)
  case (1 n)
  show ?case
  proof (cases "n < 10")
    case n: True
    show ?thesis
    proof (cases "m < 10")
      case True
      with n "1.prems" show ?thesis
        by (simp add: show_nat.simps [of n] show_nat.simps [of m] digit_char_inj)
    next
      case False
      with n "1.prems" show ?thesis
        using show_nat_not_Nil [of "m div 10"] show_nat_not_Nil [of "n div 10"]
        by (auto simp: show_nat.simps [of n] show_nat.simps [of m])
    qed
  next
    case n: False
    show ?thesis
    proof (cases "m < 10")
      case True
      with n "1.prems" show ?thesis
        using show_nat_not_Nil [of "m div 10"] show_nat_not_Nil [of "n div 10"]
        by (auto simp: show_nat.simps [of n] show_nat.simps [of m])
    next
      case False
      with n "1.prems" have "show_nat (n div 10) = show_nat (m div 10)"
        and d: "digit_char (n mod 10) = digit_char (m mod 10)"
        by (simp_all add: show_nat.simps [of n] show_nat.simps [of m])
      with n "1.IH" have "n div 10 = m div 10" by simp
      moreover from d have "n mod 10 = m mod 10" by (simp add: digit_char_inj)
      ultimately show ?thesis by (metis div_mult_mod_eq)
    qed
  qed
qed

lemma split_at_separator:
  "c \<notin> set xs \<Longrightarrow> c \<notin> set xs' \<Longrightarrow> xs @ c # ys = xs' @ c # ys' \<Longrightarrow> xs = xs' \<and> ys = ys'"
proof (induction xs arbitrary: xs')
  case Nil
  then show ?case by (cases xs') auto
next
  case (Cons x xs)
  then show ?case by (cases xs') auto
qed

lemma uniqueId_inj: "uniqueId clock i = uniqueId clock j \<Longrightarrow> i = j"
proof -
  assume "uniqueId clock i = uniqueId clock j"
  then have "show_nat (clock i) @ CHR ''-'' # show_nat i = show_nat (clock j) @ CHR ''-'' # show_nat j"
    by (simp add: uniqueId_def)
  then have "show_nat i = show_nat j"
    using split_at_separator [OF show_nat_no_dash show_nat_no_dash] by blast
  then show "i = j" by (rule show_nat_inj)
qed

section \<open>The reconciler\<close>

lemma in_keys_iff: "(k \<in> fst ` set m) = (map_of m k \<noteq> None)"
  by (simp add: map_of_eq_None_iff)

lemma set_prop_keys:
  "map fst (set_prop k v m) = (if k \<in> fst ` set m then map fst m else map fst m @ [k])"
  by (induction m) (auto split: if_splits)

lemma set_prop_absent: "k \<notin> fst ` set m \<Longrightarrow> set_prop k v m = m @ [(k, v)]"
  by (induction m) auto

lemma set_prop_present:
  "distinct (map fst m) \<Longrightarrow> k \<in> fst ` set m \<Longrightarrow>
   set_prop k v m = map (\<lambda>e. if fst e = k then (k, v) else e) m"
proof (induction m)
  case Nil
  then show ?case by simp
next
  case (Cons e m)
  show ?case
  proof (cases "fst e = k")
    case True
    with Cons.prems have "k \<notin> fst ` set m" by simp
    then have "\<forall>e' \<in> set m. fst e' \<noteq> k" by (auto simp: image_iff)
    then have "map (\<lambda>e. if fst e = k then (k, v) else e) m = m"
      by (induction m) auto
    with True show ?thesis by (cases e) simp
  next
    case False
    with Cons show ?thesis by (cases e) auto
  qed
qed

lemma keys_set_prop: "fst ` set (set_prop k v m) = insert k (fst ` set m)"
proof -
  have "set (map fst (set_prop k v m)) = insert k (set (map fst m))"
    by (auto simp: set_prop_keys)
  then show ?thesis by (simp only: set_map)
qed

lemma keys_spread: "fst ` set (spread a b) = fst ` set a \<union> fst ` set b"
proof (induction b arbitrary: a)
  case Nil
  show ?case by (simp add: spread_def)
next
  case (Cons e b)
  obtain k v where "e = (k, v)" by (cases e)
  with Cons [of "set_prop k v a"] show ?case
    by (simp add: spread_def keys_set_prop)
qed

lemma spread_Cons: "spread a ((k, v) # b) = spread (set_prop k v a) b"
  by (simp add: spread_def)

lemma map_of_spread:
  "distinct (map fst b) \<Longrightarrow>
   map_of (spread a b) f = (case map_of b f of Some v \<Rightarrow> Some v | None \<Rightarrow> map_of a f)"
proof (induction b arbitrary: a)
  case Nil
  show ?case by (simp add: spread_def)
next
  case (Cons e b)
  obtain k v where e: "e = (k, v)" by (cases e)
  with Cons.prems have "map_of b k = None"
    by (simp add: map_of_eq_None_iff)
  with Cons e show ?case
    by (auto simp: spread_Cons map_of_set_prop split: option.splits)
qed

lemma get_spread:
  "distinct (map fst b) \<Longrightarrow>
   get (spread a b) f = (if f \<in> fst ` set b then get b f else get a f)"
  by (auto simp: get_def map_of_spread in_keys_iff split: option.splits)

lemma get_spread_other: "f \<notin> fst ` set b \<Longrightarrow> get (spread a b) f = get a f"
proof (induction b arbitrary: a)
  case Nil
  show ?case by (simp add: spread_def)
next
  case (Cons e b)
  then show ?case by (cases e) (auto simp: spread_Cons get_set_prop)
qed

lemma spread_empty: "distinct (map fst b) \<Longrightarrow> spread [] b = b"
proof -
  have "distinct (map fst (a @ b)) \<Longrightarrow> spread a b = a @ b" for a :: obj
  proof (induction b arbitrary: a)
    case Nil
    show ?case by (simp add: spread_def)
  next
    case (Cons e b)
    obtain k v where e: "e = (k, v)" by (cases e)
    with Cons.prems have "k \<notin> fst ` set a" by auto
    then have "set_prop k v a = a @ [(k, v)]" by (rule set_prop_absent)
    with Cons.IH [of "a @ [(k, v)]"] Cons.prems e show ?case
      by (simp add: spread_Cons)
  qed
  from this [of "[]"] show "distinct (map fst b) \<Longrightarrow> spread [] b = b" by simp
qed

lemma sectionPointsMap_distinct:
  "distinct (map (\<lambda>p. get p ''subsection'') points) \<Longrightarrow>
   sectionPointsMap points = map (\<lambda>p. (get p ''subsection'', p)) points"
proof -
  have "distinct (map fst m @ map (\<lambda>p. get p ''subsection'') points) \<Longrightarrow>
      fold (\<lambda>p m. set_prop (get p ''subsection'') p m) points m
        = m @ map (\<lambda>p. (get p ''subsection'', p)) points" for m :: points_map
  proof (induction points arbitrary: m)
    case Nil
    show ?case by simp
  next
    case (Cons p points)
    from Cons.prems have "get p ''subsection'' \<notin> fst ` set m" by auto
    then have "set_prop (get p ''subsection'') p m = m @ [(get p ''subsection'', p)]"
      by (rule set_prop_absent)
    with Cons.IH [of "m @ [(get p ''subsection'', p)]"] Cons.prems show ?case by simp
  qed
  from this [of "[]"] show "distinct (map (\<lambda>p. get p ''subsection'') points) \<Longrightarrow>
   sectionPointsMap points = map (\<lambda>p. (get p ''subsection'', p)) points"
    by (simp add: sectionPointsMap_def)
qed

lemma merge_point_keyed:
  assumes inv: "keyed_by_subsection m"
    and row: "distinct (map fst row)" "usable_key B (get row ''subsection'')"
  shows "map snd (merge_point B clock (i, row) m) = merge_into (map snd m) row \<and>
         keyed_by_subsection (merge_point B clock (i, row) m)"
proof -
  let ?k = "get row ''subsection''"
  from row(2) have "?k \<noteq> Undefined" by (auto simp: usable_key_def)
  then have present: "''subsection'' \<in> fst ` set row"
    by (auto simp: get_def in_keys_iff split: option.splits)
  have key: "get (spread p row) ''subsection'' = ?k" for p
    using row(1) present by (simp add: get_spread)
  have step: "merge_point B clock (i, row) m = set_prop ?k (spread (map_get m ?k) row) m"
    using row(2) by (simp add: merge_point_def Let_def)
  have subs: "(\<exists>p \<in> set (map snd m). get p ''subsection'' = ?k) = (?k \<in> fst ` set m)"
    using inv by (force simp: keyed_by_subsection_def)
  show ?thesis
  proof (cases "?k \<in> fst ` set m")
    case False
    then have "map_get m ?k = []"
      by (simp add: map_get_def in_keys_iff)
    with False step row(1) have "merge_point B clock (i, row) m = m @ [(?k, row)]"
      by (simp add: set_prop_absent spread_empty)
    with False subs inv show ?thesis
      by (auto simp: merge_into_def keyed_by_subsection_def)
  next
    case True
    from inv have d: "distinct (map fst m)" by (simp add: keyed_by_subsection_def)
    from True d obtain p where p: "map_of m ?k = Some p"
      by (metis map_of_eq_None_iff not_Some_eq)
    from step p True d have eq: "merge_point B clock (i, row) m
        = map (\<lambda>e. if fst e = ?k then (?k, spread p row) else e) m"
      by (simp add: map_get_def set_prop_present)
    have pt: "snd (if fst e = ?k then (?k, spread p row) else e)
        = (if get (snd e) ''subsection'' = ?k then spread (snd e) row else snd e)"
      if e: "e \<in> set m" for e
    proof (cases "fst e = ?k")
      case True
      with e d p have "snd e = p"
        by (metis map_of_is_SomeI option.inject prod.collapse)
      moreover from e inv have "get (snd e) ''subsection'' = fst e"
        by (simp add: keyed_by_subsection_def)
      ultimately show ?thesis using True by simp
    next
      case False
      moreover from e inv have "get (snd e) ''subsection'' = fst e"
        by (simp add: keyed_by_subsection_def)
      ultimately show ?thesis by simp
    qed
    then have "map snd (map (\<lambda>e. if fst e = ?k then (?k, spread p row) else e) m)
        = map (\<lambda>q. if get q ''subsection'' = ?k then spread q row else q) (map snd m)"
      by (simp add: comp_def)
    moreover have "keyed_by_subsection (map (\<lambda>e. if fst e = ?k then (?k, spread p row) else e) m)"
      unfolding keyed_by_subsection_def
    proof (intro conjI ballI)
      have "map fst (map (\<lambda>e. if fst e = ?k then (?k, spread p row) else e) m) = map fst m"
        by (induction m) auto
      with d show "distinct (map fst (map (\<lambda>e. if fst e = ?k then (?k, spread p row) else e) m))"
        by (simp only:)
    next
      fix e assume "e \<in> set (map (\<lambda>e. if fst e = ?k then (?k, spread p row) else e) m)"
      then obtain e0 where e0: "e0 \<in> set m"
          "e = (if fst e0 = ?k then (?k, spread p row) else e0)"
        unfolding set_map by blast
      from e0(1) inv have "get (snd e0) ''subsection'' = fst e0"
        by (simp add: keyed_by_subsection_def)
      with e0(2) key show "get (snd e) ''subsection'' = fst e"
        by (cases "fst e0 = ?k") simp_all
    qed
    ultimately show ?thesis
      using True subs by (simp add: eq merge_into_def)
  qed
qed

lemma fst_fold_merge_row:
  "fst (fold (merge_row B clock) irs acc) = fold (merge_point B clock) irs (fst acc)"
  by (induction irs arbitrary: acc) (simp_all add: merge_row_def Let_def)

lemma fst_merge_rows:
  "fst (merge_rows B clock points rows)
     = fold (merge_point B clock) (enumerate 0 rows) (sectionPointsMap points)"
  by (simp add: merge_rows_def fst_fold_merge_row)

lemma usable_key_present: "usable_key B (get row ''subsection'') \<Longrightarrow> ''subsection'' \<in> fst ` set row"
proof -
  assume "usable_key B (get row ''subsection'')"
  then have "get row ''subsection'' \<noteq> Undefined" by (auto simp: usable_key_def)
  then show ?thesis
    by (auto simp: get_def in_keys_iff split: option.splits)
qed

lemma keys_merge_point:
  "fst ` set (merge_point B clock ir m) = insert (row_key B clock ir) (fst ` set m)"
  by (simp add: merge_point_def row_key_def Let_def keys_set_prop)

lemma merge_point_unkeyed:
  assumes inv: "keyed_by_subsection m"
    and row: "\<not> usable_key B (get row ''subsection'')" "Str (uniqueId clock i) \<notin> fst ` set m"
  shows "map snd (merge_point B clock (i, row) m)
           = map snd m @ [set_prop ''subsection'' (Str (uniqueId clock i)) row] \<and>
         keyed_by_subsection (merge_point B clock (i, row) m)"
proof -
  from row have "merge_point B clock (i, row) m
      = m @ [(Str (uniqueId clock i), set_prop ''subsection'' (Str (uniqueId clock i)) row)]"
    by (simp add: merge_point_def Let_def set_prop_absent)
  with inv row(2) show ?thesis
    by (auto simp: keyed_by_subsection_def get_set_prop)
qed

lemma merge_point_reconciles:
  assumes "keyed_by_subsection m" "distinct (map fst (snd ir))"
    and "\<not> usable_key B (get (snd ir) ''subsection'') \<longrightarrow>
         Str (uniqueId clock (fst ir)) \<notin> fst ` set m"
  shows "map snd (merge_point B clock ir m) = reconcile_row B clock ir (map snd m) \<and>
         keyed_by_subsection (merge_point B clock ir m)"
proof (cases "usable_key B (get (snd ir) ''subsection'')")
  case True
  with assms(1,2) show ?thesis
    using merge_point_keyed [where m = m and row = "snd ir" and B = B and clock = clock and i = "fst ir"]
    by (simp add: reconcile_row_def)
next
  case False
  with assms(1,3) show ?thesis
    using merge_point_unkeyed [where m = m and row = "snd ir" and B = B and clock = clock and i = "fst ir"]
    by (simp add: reconcile_row_def)
qed

lemma fold_merge_point_reconciles:
  assumes "keyed_by_subsection m"
    and "\<forall>ir \<in> set irs. distinct (map fst (snd ir))"
    and "distinct (map fst irs)"
    and "\<forall>ir \<in> set irs. \<not> usable_key B (get (snd ir) ''subsection'') \<longrightarrow>
           Str (uniqueId clock (fst ir)) \<notin> fst ` set m \<and>
           (\<forall>ir' \<in> set irs. get (snd ir') ''subsection'' \<noteq> Str (uniqueId clock (fst ir)))"
  shows "map snd (fold (merge_point B clock) irs m) = fold (reconcile_row B clock) irs (map snd m)"
  using assms
proof (induction irs arbitrary: m)
  case Nil
  show ?case by simp
next
  case (Cons ir irs)
  from Cons.prems
  have step: "map snd (merge_point B clock ir m) = reconcile_row B clock ir (map snd m)"
    and inv: "keyed_by_subsection (merge_point B clock ir m)"
    using merge_point_reconciles [of m ir B clock] by simp_all
  have fresh: "Str (uniqueId clock (fst ir2)) \<notin> fst ` set (merge_point B clock ir m)"
    if "ir2 \<in> set irs" "\<not> usable_key B (get (snd ir2) ''subsection'')" for ir2
  proof -
    from that Cons.prems(4) have a: "Str (uniqueId clock (fst ir2)) \<notin> fst ` set m"
      and b: "get (snd ir) ''subsection'' \<noteq> Str (uniqueId clock (fst ir2))"
      by simp_all
    from Cons.prems(3) have "fst ir \<notin> fst ` set irs" by simp
    with that(1) have "fst ir2 \<noteq> fst ir" by (metis imageI)
    then have "uniqueId clock (fst ir) \<noteq> uniqueId clock (fst ir2)"
      by (auto dest: uniqueId_inj)
    with a b show ?thesis
      by (auto simp: keys_merge_point row_key_def)
  qed
  have "map snd (fold (merge_point B clock) irs (merge_point B clock ir m))
      = fold (reconcile_row B clock) irs (map snd (merge_point B clock ir m))"
  proof (rule Cons.IH [OF inv])
    from Cons.prems(2) show "\<forall>ir \<in> set irs. distinct (map fst (snd ir))" by simp
    from Cons.prems(3) show "distinct (map fst irs)" by simp
    from fresh Cons.prems(4)
    show "\<forall>ir2 \<in> set irs. \<not> usable_key B (get (snd ir2) ''subsection'') \<longrightarrow>
        Str (uniqueId clock (fst ir2)) \<notin> fst ` set (merge_point B clock ir m) \<and>
        (\<forall>ir' \<in> set irs. get (snd ir') ''subsection'' \<noteq> Str (uniqueId clock (fst ir2)))"
      by simp
  qed
  with step show ?case by simp
qed

lemma set_set_prop: "set (set_prop k v m) \<subseteq> insert (k, v) (set m)"
  by (induction m) (auto split: if_splits)

lemma set_prop_keeps_keyed:
  "keyed_by_subsection m \<Longrightarrow> keyed_by_subsection (set_prop (get p ''subsection'') p m)"
  unfolding keyed_by_subsection_def
proof (intro conjI ballI)
  assume a: "distinct (map fst m) \<and> (\<forall>e \<in> set m. get (snd e) ''subsection'' = fst e)"
  then show "distinct (map fst (set_prop (get p ''subsection'') p m))"
    by (simp add: set_prop_keys)
  fix e assume "e \<in> set (set_prop (get p ''subsection'') p m)"
  then have "e = (get p ''subsection'', p) \<or> e \<in> set m"
    using set_set_prop [of "get p ''subsection''" p m] by auto
  with a show "get (snd e) ''subsection'' = fst e" by auto
qed

lemma sectionPointsMap_keyed:
  "keyed_by_subsection (sectionPointsMap points) \<and> snd ` set (sectionPointsMap points) \<subseteq> set points"
proof -
  have "keyed_by_subsection m \<Longrightarrow>
      keyed_by_subsection (fold (\<lambda>p m. set_prop (get p ''subsection'') p m) points m) \<and>
      snd ` set (fold (\<lambda>p m. set_prop (get p ''subsection'') p m) points m)
        \<subseteq> snd ` set m \<union> set points" for m :: points_map
  proof (induction points arbitrary: m)
    case Nil
    then show ?case by simp
  next
    case (Cons p points)
    from Cons.prems have "keyed_by_subsection (set_prop (get p ''subsection'') p m)"
      by (rule set_prop_keeps_keyed)
    from Cons.IH [OF this]
    have k: "keyed_by_subsection (fold (\<lambda>p m. set_prop (get p ''subsection'') p m) (p # points) m)"
      and s: "snd ` set (fold (\<lambda>p m. set_prop (get p ''subsection'') p m) (p # points) m)
        \<subseteq> snd ` set (set_prop (get p ''subsection'') p m) \<union> set points"
      by simp_all
    have "snd ` set (set_prop (get p ''subsection'') p m) \<subseteq> insert p (snd ` set m)"
      using set_set_prop [of "get p ''subsection''" p m] by force
    with s have "snd ` set (fold (\<lambda>p m. set_prop (get p ''subsection'') p m) (p # points) m)
        \<subseteq> snd ` set m \<union> set (p # points)"
      by auto
    with k show ?case by simp
  qed
  from this [of "[]"] show ?thesis
    by (simp add: sectionPointsMap_def keyed_by_subsection_def)
qed

lemma sectionPointsMap_keys:
  "fst ` set (sectionPointsMap points) \<subseteq> (\<lambda>p. get p ''subsection'') ` set points"
proof
  fix k assume "k \<in> fst ` set (sectionPointsMap points)"
  then obtain e where e: "e \<in> set (sectionPointsMap points)" "k = fst e" by auto
  with sectionPointsMap_keyed [of points]
  have "get (snd e) ''subsection'' = k" "snd e \<in> set points"
    by (auto simp: keyed_by_subsection_def)
  then show "k \<in> (\<lambda>p. get p ''subsection'') ` set points" by force
qed

lemma merged_is_reconciled:
  assumes "\<forall>row \<in> set rows. distinct (map fst row)"
    and "\<forall>j < length rows. \<not> usable_key B (get (rows ! j) ''subsection'') \<longrightarrow>
           (\<forall>p \<in> set points \<union> set rows. get p ''subsection'' \<noteq> Str (uniqueId clock j))"
  shows "map snd (fst (merge_rows B clock points rows))
           = reconciled B clock (map snd (sectionPointsMap points)) rows"
proof -
  have "map snd (fold (merge_point B clock) (enumerate 0 rows) (sectionPointsMap points))
      = fold (reconcile_row B clock) (enumerate 0 rows) (map snd (sectionPointsMap points))"
  proof (rule fold_merge_point_reconciles)
    show "keyed_by_subsection (sectionPointsMap points)"
      using sectionPointsMap_keyed [of points] by simp
    from assms(1) show "\<forall>ir \<in> set (enumerate 0 rows). distinct (map fst (snd ir))"
      by (auto simp: in_set_enumerate_eq)
    show "distinct (map fst (enumerate 0 rows))" by simp
    show "\<forall>ir \<in> set (enumerate 0 rows). \<not> usable_key B (get (snd ir) ''subsection'') \<longrightarrow>
        Str (uniqueId clock (fst ir)) \<notin> fst ` set (sectionPointsMap points) \<and>
        (\<forall>ir' \<in> set (enumerate 0 rows).
           get (snd ir') ''subsection'' \<noteq> Str (uniqueId clock (fst ir)))"
    proof (intro ballI impI conjI)
      fix ir assume ir: "ir \<in> set (enumerate 0 rows)"
        "\<not> usable_key B (get (snd ir) ''subsection'')"
      then have "fst ir < length rows" "snd ir = rows ! fst ir"
        by (auto simp: in_set_enumerate_eq)
      with assms(2) ir(2)
      have f: "\<forall>p \<in> set points \<union> set rows. get p ''subsection'' \<noteq> Str (uniqueId clock (fst ir))"
        by simp
      then show "Str (uniqueId clock (fst ir)) \<notin> fst ` set (sectionPointsMap points)"
        using sectionPointsMap_keys [of points] by force
      fix ir' assume "ir' \<in> set (enumerate 0 rows)"
      then have "fst ir' < length rows" "snd ir' = rows ! fst ir'"
        by (auto simp: in_set_enumerate_eq)
      then have "snd ir' \<in> set rows" by simp
      with f show "get (snd ir') ''subsection'' \<noteq> Str (uniqueId clock (fst ir))" by simp
    qed
  qed
  then show ?thesis by (simp add: fst_merge_rows reconciled_def)
qed

lemma sectionPointsMap_unique:
  "distinct (map (\<lambda>p. get p ''subsection'') points) \<Longrightarrow> map snd (sectionPointsMap points) = points"
  by (simp add: sectionPointsMap_distinct comp_def)

lemma depth_key_numeric:
  "numeric_or_absent (get p ''depth'') \<Longrightarrow> depth_key B p = depth_or_zero p"
  by (cases "get p ''depth''" rule: truthy.cases)
     (auto simp: numeric_or_absent_def depth_key_def depth_or_zero_def or_else_def)

lemma depth_or_zero_not_NaN: "depth_or_zero p \<noteq> NaN"
  by (auto simp: depth_or_zero_def split: jsval.splits)

lemma sorted_by_depth:
  assumes "\<forall>p \<in> set ps. numeric_or_absent (get p ''depth'')"
  shows "sorted_wrt (\<lambda>p q. num_le (depth_or_zero p) (depth_or_zero q)) (array_sort (by_depth B) ps)"
proof -
  have c: "by_depth B = (\<lambda>a b. num_sub (depth_key B a) (depth_key B b))"
    by (simp add: by_depth_def fun_eq_iff)
  from assms have k: "\<forall>p \<in> set ps. depth_key B p \<noteq> NaN"
    by (simp add: depth_key_numeric depth_or_zero_not_NaN)
  then have "sorted_wrt (\<lambda>p q. num_le (depth_key B p) (depth_key B q)) (array_sort (by_depth B) ps)"
    unfolding c by (rule sorted_array_sort)
  then show ?thesis
  proof (rule sorted_wrt_mono_rel [rotated])
    fix p q assume "p \<in> set (array_sort (by_depth B) ps)" "q \<in> set (array_sort (by_depth B) ps)"
      "num_le (depth_key B p) (depth_key B q)"
    with assms show "num_le (depth_or_zero p) (depth_or_zero q)"
      by (simp add: set_array_sort depth_key_numeric)
  qed
qed

lemma merge_into_numeric:
  assumes "\<forall>p \<in> set ps. numeric_or_absent (get p ''depth'')"
    and "numeric_or_absent (get row ''depth'')" "distinct (map fst row)"
  shows "\<forall>p \<in> set (merge_into ps row). numeric_or_absent (get p ''depth'')"
  using assms by (auto simp: merge_into_def get_spread)

lemma merge_point_numeric:
  assumes "\<forall>e \<in> set m. numeric_or_absent (get (snd e) ''depth'')"
    and "numeric_or_absent (get (snd ir) ''depth'')" "distinct (map fst (snd ir))"
  shows "\<forall>e \<in> set (merge_point B clock ir m). numeric_or_absent (get (snd e) ''depth'')"
proof -
  let ?k = "get (snd ir) ''subsection''"
  have kept: "numeric_or_absent (get (map_get m ?k) ''depth'')"
  proof (cases "map_of m ?k")
    case None
    then show ?thesis by (simp add: map_get_def get_def numeric_or_absent_def)
  next
    case (Some p)
    then have "(?k, p) \<in> set m" by (rule map_of_SomeD)
    with assms(1) Some show ?thesis by (force simp: map_get_def)
  qed
  have "numeric_or_absent (get (spread (map_get m ?k) (snd ir)) ''depth'')"
    using assms(2,3) kept by (simp add: get_spread)
  moreover have "numeric_or_absent
      (get (set_prop ''subsection'' (Str (uniqueId clock (fst ir))) (snd ir)) ''depth'')"
    using assms(2) by (simp add: get_set_prop)
  ultimately obtain k v where mp: "merge_point B clock ir m = set_prop k v m"
    and nv: "numeric_or_absent (get v ''depth'')"
    by (cases "usable_key B ?k") (simp_all add: merge_point_def Let_def)
  show ?thesis
  proof
    fix e assume "e \<in> set (merge_point B clock ir m)"
    with mp have "e = (k, v) \<or> e \<in> set m"
      using set_set_prop [of k v m] by auto
    with nv assms(1) show "numeric_or_absent (get (snd e) ''depth'')" by auto
  qed
qed

lemma fold_merge_point_numeric:
  "\<forall>e \<in> set m. numeric_or_absent (get (snd e) ''depth'') \<Longrightarrow>
   \<forall>ir \<in> set irs. numeric_or_absent (get (snd ir) ''depth'') \<and> distinct (map fst (snd ir)) \<Longrightarrow>
   \<forall>e \<in> set (fold (merge_point B clock) irs m). numeric_or_absent (get (snd e) ''depth'')"
proof (induction irs arbitrary: m)
  case Nil
  then show ?case by simp
next
  case (Cons ir irs)
  from Cons.prems
  have "\<forall>e \<in> set (merge_point B clock ir m). numeric_or_absent (get (snd e) ''depth'')"
    by (intro merge_point_numeric) simp_all
  from Cons.IH [OF this] Cons.prems show ?case by simp
qed

lemma merged_numeric:
  assumes "\<forall>row \<in> set rows. distinct (map fst row)"
    and "\<forall>p \<in> set points \<union> set rows. numeric_or_absent (get p ''depth'')"
  shows "\<forall>p \<in> set (map snd (fst (merge_rows B clock points rows))).
           numeric_or_absent (get p ''depth'')"
proof -
  from assms(2) have "\<forall>e \<in> set (sectionPointsMap points). numeric_or_absent (get (snd e) ''depth'')"
    using sectionPointsMap_keyed [of points] by auto
  moreover from assms
  have "\<forall>ir \<in> set (enumerate 0 rows).
      numeric_or_absent (get (snd ir) ''depth'') \<and> distinct (map fst (snd ir))"
    by (auto simp: in_set_enumerate_eq)
  ultimately have "\<forall>e \<in> set (fold (merge_point B clock) (enumerate 0 rows) (sectionPointsMap points)).
      numeric_or_absent (get (snd e) ''depth'')"
    by (rule fold_merge_point_numeric)
  then show ?thesis by (simp add: fst_merge_rows)
qed

lemma findIndex_None: "(findIndex P xs = None) = (\<forall>x \<in> set xs. \<not> P x)"
  by (induction xs) auto

lemma findIndex_update:
  "distinct (map key xs) \<Longrightarrow> findIndex (\<lambda>x. key x = k) xs = Some i \<Longrightarrow>
   xs[i := g (xs ! i)] = map (\<lambda>x. if key x = k then g x else x) xs"
proof (induction xs arbitrary: i)
  case Nil
  then show ?case by simp
next
  case (Cons x xs)
  show ?case
  proof (cases "key x = k")
    case True
    from Cons.prems have "key x \<notin> key ` set xs" by simp
    with True have "\<forall>y \<in> set xs. key y \<noteq> k" by (metis imageI)
    then have "map (\<lambda>x. if key x = k then g x else x) xs = xs"
      by (induction xs) auto
    with True Cons.prems show ?thesis by simp
  next
    case False
    with Cons.prems obtain j where "findIndex (\<lambda>x. key x = k) xs = Some j" "i = Suc j"
      by auto
    with Cons.IH [of j] Cons.prems False show ?thesis by simp
  qed
qed

lemma add_or_update_is_merge_into:
  assumes "distinct (map (\<lambda>p. get p ''subsection'') points)"
    and "get newPoint ''subsection'' = Str subsectionId"
  shows "(case findIndex (\<lambda>dp. get dp ''subsection'' = Str subsectionId) points of
            Some i \<Rightarrow> points[i := spread (points ! i) newPoint]
          | None \<Rightarrow> points @ [newPoint]) = merge_into points newPoint"
proof (cases "findIndex (\<lambda>dp. get dp ''subsection'' = Str subsectionId) points")
  case None
  then have "\<forall>p \<in> set points. get p ''subsection'' \<noteq> Str subsectionId"
    by (simp add: findIndex_None)
  with assms(2) show ?thesis
    by (simp add: None merge_into_def)
next
  case (Some i)
  then have "\<not> (\<forall>p \<in> set points. get p ''subsection'' \<noteq> Str subsectionId)"
    using findIndex_None [of "\<lambda>dp. get dp ''subsection'' = Str subsectionId" points] by simp
  with Some assms show ?thesis
    using findIndex_update [of "\<lambda>p. get p ''subsection''" points "Str subsectionId" i
        "\<lambda>p. spread p newPoint"]
    by (simp add: merge_into_def)
qed

lemma read_field_point:
  "distinct (map fst (fst acc)) \<Longrightarrow>
   get (fst acc) ''subsection'' = v \<Longrightarrow> numeric_or_absent (get (fst acc) ''depth'') \<Longrightarrow>
   distinct (map fst (fst (read_field B e acc))) \<and>
   get (fst (read_field B e acc)) ''subsection'' = v \<and>
   numeric_or_absent (get (fst (read_field B e acc)) ''depth'')"
  by (auto simp: read_field_def Let_def set_prop_keys get_set_prop numeric_or_absent_def)

lemma fold_read_field_point:
  "distinct (map fst (fst acc)) \<Longrightarrow>
   get (fst acc) ''subsection'' = v \<Longrightarrow> numeric_or_absent (get (fst acc) ''depth'') \<Longrightarrow>
   distinct (map fst (fst (fold (read_field B) form acc))) \<and>
   get (fst (fold (read_field B) form acc)) ''subsection'' = v \<and>
   numeric_or_absent (get (fst (fold (read_field B) form acc)) ''depth'')"
proof (induction form arbitrary: acc)
  case Nil
  then show ?case by simp
next
  case (Cons e form)
  from read_field_point [OF Cons.prems, of B e] Cons.IH [of "read_field B e acc"]
  show ?case by simp
qed

lemma collect_fields_point:
  "get (fst (collect_fields B form subsectionId)) ''subsection'' = Str subsectionId \<and>
   numeric_or_absent (get (fst (collect_fields B form subsectionId)) ''depth'') \<and>
   distinct (map fst (fst (collect_fields B form subsectionId)))"
  using fold_read_field_point [of "([(''subsection'', Str subsectionId)], False)"
      "Str subsectionId" B form]
  by (simp add: collect_fields_def get_def numeric_or_absent_def)

lemma accepted_submission:
  "trim B (form_value (formState st) ''subsection'') \<noteq> [] \<Longrightarrow>
   snd (collect_fields B (formState st) (trim B (form_value (formState st) ''subsection''))) \<Longrightarrow>
   distinct (map (\<lambda>p. get p ''subsection'') (dataPoints (sectionProp st))) \<Longrightarrow>
   dataPoints (sectionProp (handleAddDataPoint B st))
     = array_sort (by_depth B)
         (merge_into (dataPoints (sectionProp st))
            (fst (collect_fields B (formState st) (trim B (form_value (formState st) ''subsection'')))))"
  using add_or_update_is_merge_into [of "dataPoints (sectionProp st)"
      "fst (collect_fields B (formState st) (trim B (form_value (formState st) ''subsection'')))"
      "trim B (form_value (formState st) ''subsection'')"]
  by (simp add: handleAddDataPoint_def Let_def collect_fields_point)

lemma parse_cell_object:
  "distinct (map fst acc) \<and> numeric_or_absent (get acc ''depth'') \<Longrightarrow>
   distinct (map fst (parse_cell B finalMap cell acc)) \<and>
   numeric_or_absent (get (parse_cell B finalMap cell acc) ''depth'')"
  by (auto simp: parse_cell_def Let_def set_prop_keys get_set_prop numeric_or_absent_def
      split: option.splits)

lemma fold_parse_cell_object:
  "distinct (map fst acc) \<and> numeric_or_absent (get acc ''depth'') \<Longrightarrow>
   distinct (map fst (fold (parse_cell B finalMap) row acc)) \<and>
   numeric_or_absent (get (fold (parse_cell B finalMap) row acc) ''depth'')"
proof (induction row arbitrary: acc)
  case Nil
  then show ?case by simp
next
  case (Cons cell row)
  from Cons.IH [OF parse_cell_object [OF Cons.prems]] show ?case by simp
qed

lemma parsed_rows_are_objects:
  "row \<in> set (parsedDataFromCsv B finalMap raw) \<Longrightarrow>
   distinct (map fst row) \<and> numeric_or_absent (get row ''depth'')"
  using fold_parse_cell_object [of "[]" B finalMap]
  by (auto simp: parsedDataFromCsv_def parse_row_def get_def numeric_or_absent_def)

lemma confirm_merges:
  "selectedFile st \<noteq> None \<Longrightarrow> errors results = [] \<Longrightarrow>
   parsedDataFromCsv B finalMap (data results) \<noteq> [] \<Longrightarrow>
   dataPoints (sectionProp (handleConfirmMapping B clock finalMap (Returns results) st))
     = mergedPoints B clock (dataPoints (sectionProp st))
         (parsedDataFromCsv B finalMap (data results))"
  by (auto simp: handleConfirmMapping_def Let_def)

text \<open>
  C3, as stated, fails. A row whose subsection is not yet in the series is appended; but when
  its subsection is the key that is generated for a later row of the batch without a key,
  the later row is stored over it, and the merged sequence holds no point with the fields of
  the earlier row. The reconciler as the specification words it keeps both rows.
\<close>

theorem C3_keyed_row_overwritten_counterexample:
  "mergedPoints
     \<lparr>parseFloat = (\<lambda>s. NaN), stringToNumber = (\<lambda>s. NaN), numberToString = (\<lambda>n. []),
      trim = (\<lambda>s. s), nearest_double = (\<lambda>x. x)\<rparr>
     (\<lambda>i. 1700000000000)
     [[(''subsection'', Str ''A''), (''depth'', Num (Fin 1))]]
     [[(''subsection'', Str ''Imported-1700000000000-1''), (''depth'', Num (Fin 7))],
      [(''delta18O'', Num (Fin 2))]]
    = [[(''delta18O'', Num (Fin 2)), (''subsection'', Str ''Imported-1700000000000-1'')],
       [(''subsection'', Str ''A''), (''depth'', Num (Fin 1))]] \<and>
   reconciled
     \<lparr>parseFloat = (\<lambda>s. NaN), stringToNumber = (\<lambda>s. NaN), numberToString = (\<lambda>n. []),
      trim = (\<lambda>s. s), nearest_double = (\<lambda>x. x)\<rparr>
     (\<lambda>i. 1700000000000)
     [[(''subsection'', Str ''A''), (''depth'', Num (Fin 1))]]
     [[(''subsection'', Str ''Imported-1700000000000-1''), (''depth'', Num (Fin 7))],
      [(''delta18O'', Num (Fin 2))]]
    = [[(''subsection'', Str ''A''), (''depth'', Num (Fin 1))],
       [(''subsection'', Str ''Imported-1700000000000-1''), (''depth'', Num (Fin 7))],
       [(''delta18O'', Num (Fin 2)), (''subsection'', Str ''Imported-1700000000000-1'')]] \<and>
   dataPoints (sectionProp (handleConfirmMapping
     \<lparr>parseFloat = (\<lambda>s. if s = ''7'' then Fin 7 else if s = ''2'' then Fin 2 else NaN),
      stringToNumber = (\<lambda>s. NaN),
      numberToString = (\<lambda>n. if n = Fin 7 then ''7'' else if n = Fin 2 then ''2'' else []),
      trim = (\<lambda>s. s), nearest_double = (\<lambda>x. x)\<rparr>
     (\<lambda>i. 1700000000000)
     [(''Sample'', Some ''subsection''), (''Depth'', Some ''depth''), (''d18O'', Some ''delta18O'')]
     (Returns \<lparr>meta_fields = Some [''Sample'', ''Depth'', ''d18O''],
        data = [[(''Sample'', Str ''Imported-1700000000000-1''), (''Depth'', Num (Fin 7)),
                 (''d18O'', Null)],
                [(''Sample'', Null), (''Depth'', Null), (''d18O'', Num (Fin 2))]],
        errors = []\<rparr>)
     \<lparr>sectionProp = \<lparr>section_id = ''s1'', name = ''S1'',
        dataPoints = [[(''subsection'', Str ''A''), (''depth'', Num (Fin 1))]],
        labAnalysis = Some []\<rparr>,
      formState = initialFormState, selectedFile = Some ''core.csv'', status = None,
      isProcessing = True, isMappingHeaders = True, csvHeaders = [''Sample'', ''Depth'', ''d18O''],
      headerMap = None\<rparr>))
    = [[(''delta18O'', Num (Fin 2)), (''subsection'', Str ''Imported-1700000000000-1'')],
       [(''subsection'', Str ''A''), (''depth'', Num (Fin 1))]]"
  by (simp add: handleConfirmMapping_def parsedDataFromCsv_def parse_row_def parse_cell_def
      mergedPoints_def merge_rows_def merge_row_def merge_point_def
      sectionPointsMap_def uniqueId_def show_nat.simps digit_char_def usable_key_def
      get_def spread_def map_get_def array_sort_def by_depth_def depth_key_def or_else_def
      reconciled_def reconcile_row_def merge_into_def Let_def)

text \<open>
  C3, amended. Let the rows of a batch be objects, and let depths be numbers where present,
  as the data model has them; the rows parsed from a file are such. Then the merged sequence
  is sorted ascending by depth, a point without depth counting as depth 0. Let, moreover, no
  subsection of a point of the series or of a row of the batch be a key that is generated
  for a row of the batch without a usable subsection. Then the merged sequence holds the
  points that the specification describes: starting from the existing points as the map of
  the merge holds them, each row whose subsection equals that of a point of the series is
  shallow-merged into that point, the fields of the row overwriting and every other field
  of the point staying; each row whose subsection is not yet in the series is appended as a
  new point; and each row without a usable subsection is appended under its generated key.
  The map holds the existing series itself when its subsection keys are unique, as the data
  model requires (of points that share a key it keeps the last). The series that a confirmed
  import hands on is this merged sequence, and an accepted manual submission reconciles its
  one point in the same way.
\<close>

theorem C3_reconciler_merges_appends_and_sorts:
  assumes "\<forall>row \<in> set rows. distinct (map fst row)"
    and "\<forall>p \<in> set points \<union> set rows. numeric_or_absent (get p ''depth'')"
  shows "sorted_wrt (\<lambda>p q. num_le (depth_or_zero p) (depth_or_zero q))
           (mergedPoints B clock points rows) \<and>
         ((\<forall>j < length rows. \<not> usable_key B (get (rows ! j) ''subsection'') \<longrightarrow>
             (\<forall>p \<in> set points \<union> set rows. get p ''subsection'' \<noteq> Str (uniqueId clock j))) \<longrightarrow>
            mergedPoints B clock points rows
              = array_sort (by_depth B)
                  (reconciled B clock (map snd (sectionPointsMap points)) rows) \<and>
            mset (mergedPoints B clock points rows)
              = mset (reconciled B clock (map snd (sectionPointsMap points)) rows)) \<and>
         (distinct (map (\<lambda>p. get p ''subsection'') points) \<longrightarrow>
            map snd (sectionPointsMap points) = points) \<and>
         (\<forall>row \<in> set rows. \<forall>p f.
            get (spread p row) f = (if f \<in> fst ` set row then get row f else get p f)) \<and>
         (selectedFile st \<noteq> None \<and> errors results = [] \<and>
          dataPoints (sectionProp st) = points \<and>
          parsedDataFromCsv B finalMap (data results) = rows \<and> rows \<noteq> [] \<longrightarrow>
            dataPoints (sectionProp (handleConfirmMapping B clock finalMap (Returns results) st))
              = mergedPoints B clock points rows) \<and>
         (\<forall>row \<in> set (parsedDataFromCsv B finalMap raw).
            distinct (map fst row) \<and> numeric_or_absent (get row ''depth'')) \<and>
         (dataPoints (sectionProp st) = points \<and>
          distinct (map (\<lambda>p. get p ''subsection'') points) \<and>
          trim B (form_value (formState st) ''subsection'') \<noteq> [] \<and>
          snd (collect_fields B (formState st) (trim B (form_value (formState st) ''subsection''))) \<longrightarrow>
            dataPoints (sectionProp (handleAddDataPoint B st))
              = array_sort (by_depth B)
                  (merge_into points
                     (fst (collect_fields B (formState st)
                        (trim B (form_value (formState st) ''subsection''))))) \<and>
            sorted_wrt (\<lambda>p q. num_le (depth_or_zero p) (depth_or_zero q))
              (dataPoints (sectionProp (handleAddDataPoint B st))))"
proof -
  let ?kept = "map snd (sectionPointsMap points)"
  from assms have c1: "sorted_wrt (\<lambda>p q. num_le (depth_or_zero p) (depth_or_zero q))
      (mergedPoints B clock points rows)"
    unfolding mergedPoints_def by (intro sorted_by_depth merged_numeric)
  have c2: "(\<forall>j < length rows. \<not> usable_key B (get (rows ! j) ''subsection'') \<longrightarrow>
             (\<forall>p \<in> set points \<union> set rows. get p ''subsection'' \<noteq> Str (uniqueId clock j))) \<longrightarrow>
            mergedPoints B clock points rows
              = array_sort (by_depth B) (reconciled B clock ?kept rows) \<and>
            mset (mergedPoints B clock points rows) = mset (reconciled B clock ?kept rows)"
  proof
    assume "\<forall>j < length rows. \<not> usable_key B (get (rows ! j) ''subsection'') \<longrightarrow>
             (\<forall>p \<in> set points \<union> set rows. get p ''subsection'' \<noteq> Str (uniqueId clock j))"
    with assms(1)
    have "map snd (fst (merge_rows B clock points rows)) = reconciled B clock ?kept rows"
      by (rule merged_is_reconciled)
    then show "mergedPoints B clock points rows
              = array_sort (by_depth B) (reconciled B clock ?kept rows) \<and>
            mset (mergedPoints B clock points rows) = mset (reconciled B clock ?kept rows)"
      by (simp add: mergedPoints_def mset_array_sort)
  qed
  have c3: "distinct (map (\<lambda>p. get p ''subsection'') points) \<longrightarrow> ?kept = points"
    by (simp add: sectionPointsMap_unique)
  from assms(1) have c4: "\<forall>row \<in> set rows. \<forall>p f.
      get (spread p row) f = (if f \<in> fst ` set row then get row f else get p f)"
    by (simp add: get_spread)
  have c5: "selectedFile st \<noteq> None \<and> errors results = [] \<and>
          dataPoints (sectionProp st) = points \<and>
          parsedDataFromCsv B finalMap (data results) = rows \<and> rows \<noteq> [] \<longrightarrow>
            dataPoints (sectionProp (handleConfirmMapping B clock finalMap (Returns results) st))
              = mergedPoints B clock points rows"
    using confirm_merges [of st results B finalMap clock] by auto
  have c6: "\<forall>row \<in> set (parsedDataFromCsv B finalMap raw).
      distinct (map fst row) \<and> numeric_or_absent (get row ''depth'')"
    using parsed_rows_are_objects [of _ B finalMap raw] by blast
  have c7: "dataPoints (sectionProp st) = points \<and>
          distinct (map (\<lambda>p. get p ''subsection'') points) \<and>
          trim B (form_value (formState st) ''subsection'') \<noteq> [] \<and>
          snd (collect_fields B (formState st) (trim B (form_value (formState st) ''subsection''))) \<longrightarrow>
            dataPoints (sectionProp (handleAddDataPoint B st))
              = array_sort (by_depth B)
                  (merge_into points
                     (fst (collect_fields B (formState st)
                        (trim B (form_value (formState st) ''subsection''))))) \<and>
            sorted_wrt (\<lambda>p q. num_le (depth_or_zero p) (depth_or_zero q))
              (dataPoints (sectionProp (handleAddDataPoint B st)))"
  proof
    let ?new = "fst (collect_fields B (formState st) (trim B (form_value (formState st) ''subsection'')))"
    assume a: "dataPoints (sectionProp st) = points \<and>
          distinct (map (\<lambda>p. get p ''subsection'') points) \<and>
          trim B (form_value (formState st) ''subsection'') \<noteq> [] \<and>
          snd (collect_fields B (formState st) (trim B (form_value (formState st) ''subsection'')))"
    then have e: "dataPoints (sectionProp (handleAddDataPoint B st))
        = array_sort (by_depth B) (merge_into points ?new)"
      using accepted_submission [of B st] by simp
    from assms(2) have "\<forall>p \<in> set (merge_into points ?new). numeric_or_absent (get p ''depth'')"
      by (intro merge_into_numeric) (simp_all add: collect_fields_point)
    then show "dataPoints (sectionProp (handleAddDataPoint B st))
              = array_sort (by_depth B) (merge_into points ?new) \<and>
            sorted_wrt (\<lambda>p q. num_le (depth_or_zero p) (depth_or_zero q))
              (dataPoints (sectionProp (handleAddDataPoint B st)))"
      unfolding e by (simp add: sorted_by_depth)
  qed
  show ?thesis
    by (intro conjI) (fact c1 c2 c3 c4 c5 c6 c7)+
qed

theorem C3_witness:
  "list_all (\<lambda>row. distinct (map fst row))
     [[(''subsection'', Str ''B''), (''tex86'', Num (Fin 0.5))],
      [(''depth'', Num (Fin 20))]] \<and>
   list_all (\<lambda>p. numeric_or_absent (get p ''depth''))
     ([[(''subsection'', Str ''A''), (''depth'', Num (Fin 10)), (''delta18O'', Num (Fin 3))],
      [(''subsection'', Str ''B''), (''depth'', Num (Fin 30))]] @
      [[(''subsection'', Str ''B''), (''tex86'', Num (Fin 0.5))],
      [(''depth'', Num (Fin 20))]]) \<and>
   list_all (\<lambda>p. get p ''subsection'' \<noteq> Str (uniqueId (\<lambda>i. 1700000000000) 1))
     ([[(''subsection'', Str ''A''), (''depth'', Num (Fin 10)), (''delta18O'', Num (Fin 3))],
      [(''subsection'', Str ''B''), (''depth'', Num (Fin 30))]] @
      [[(''subsection'', Str ''B''), (''tex86'', Num (Fin 0.5))],
      [(''depth'', Num (Fin 20))]]) \<and>
   distinct (map (\<lambda>p. get p ''subsection'')
     [[(''subsection'', Str ''A''), (''depth'', Num (Fin 10)), (''delta18O'', Num (Fin 3))],
      [(''subsection'', Str ''B''), (''depth'', Num (Fin 30))]]) \<and>
   mergedPoints
     \<lparr>parseFloat = (\<lambda>s. if s = ''12'' then Fin 12 else if s = ''20'' then Fin 20
                        else if s = ''0.5'' then Fin 0.5 else NaN),
      stringToNumber = (\<lambda>s. NaN),
      numberToString = (\<lambda>n. if n = Fin 20 then ''20'' else if n = Fin 0.5 then ''0.5'' else []),
      trim = (\<lambda>s. if s = ''A '' then ''A'' else s), nearest_double = (\<lambda>x. x)\<rparr>
     (\<lambda>i. 1700000000000)
     [[(''subsection'', Str ''A''), (''depth'', Num (Fin 10)), (''delta18O'', Num (Fin 3))],
      [(''subsection'', Str ''B''), (''depth'', Num (Fin 30))]]
     [[(''subsection'', Str ''B''), (''tex86'', Num (Fin 0.5))],
      [(''depth'', Num (Fin 20))]]
    = [[(''subsection'', Str ''A''), (''depth'', Num (Fin 10)), (''delta18O'', Num (Fin 3))],
      [(''depth'', Num (Fin 20)), (''subsection'', Str ''Imported-1700000000000-1'')],
      [(''subsection'', Str ''B''), (''depth'', Num (Fin 30)), (''tex86'', Num (Fin 0.5))]] \<and>
   dataPoints (sectionProp (handleAddDataPoint
     \<lparr>parseFloat = (\<lambda>s. if s = ''12'' then Fin 12 else if s = ''20'' then Fin 20
                        else if s = ''0.5'' then Fin 0.5 else NaN),
      stringToNumber = (\<lambda>s. NaN),
      numberToString = (\<lambda>n. if n = Fin 20 then ''20'' else if n = Fin 0.5 then ''0.5'' else []),
      trim = (\<lambda>s. if s = ''A '' then ''A'' else s), nearest_double = (\<lambda>x. x)\<rparr>
     \<lparr>sectionProp = \<lparr>section_id = ''s1'', name = ''S1'',
        dataPoints = [[(''subsection'', Str ''A''), (''depth'', Num (Fin 10)), (''delta18O'', Num (Fin 3))],
      [(''subsection'', Str ''B''), (''depth'', Num (Fin 30))]],
        labAnalysis = None\<rparr>,
      formState = [(''subsection'', ''A ''), (''depth'', ''12'')], selectedFile = None,
      status = None, isProcessing = False, isMappingHeaders = False, csvHeaders = [],
      headerMap = None\<rparr>))
    = [[(''subsection'', Str ''A''), (''depth'', Num (Fin 12)), (''delta18O'', Num (Fin 3))],
      [(''subsection'', Str ''B''), (''depth'', Num (Fin 30))]] \<and>
   dataPoints (sectionProp (handleConfirmMapping
     \<lparr>parseFloat = (\<lambda>s. if s = ''12'' then Fin 12 else if s = ''20'' then Fin 20
                        else if s = ''0.5'' then Fin 0.5 else NaN),
      stringToNumber = (\<lambda>s. NaN),
      numberToString = (\<lambda>n. if n = Fin 20 then ''20'' else if n = Fin 0.5 then ''0.5'' else []),
      trim = (\<lambda>s. if s = ''A '' then ''A'' else s), nearest_double = (\<lambda>x. x)\<rparr>
     (\<lambda>i. 1700000000000)
     [(''Sample'', Some ''subsection''), (''TEX86'', Some ''tex86''), (''Depth'', Some ''depth'')]
     (Returns \<lparr>meta_fields = Some [''Sample'', ''TEX86'', ''Depth''],
        data = [[(''Sample'', Str ''B''), (''TEX86'', Num (Fin 0.5)), (''Depth'', Null)],
                [(''Sample'', Null), (''TEX86'', Null), (''Depth'', Num (Fin 20))]],
        errors = []\<rparr>)
     \<lparr>sectionProp = \<lparr>section_id = ''s1'', name = ''S1'',
        dataPoints = [[(''subsection'', Str ''A''), (''depth'', Num (Fin 10)), (''delta18O'', Num (Fin 3))],
      [(''subsection'', Str ''B''), (''depth'', Num (Fin 30))]],
        labAnalysis = None\<rparr>,
      formState = initialFormState, selectedFile = Some ''core.csv'',
      status = None, isProcessing = True, isMappingHeaders = True,
      csvHeaders = [''Sample'', ''TEX86'', ''Depth''], headerMap = None\<rparr>))
    = [[(''subsection'', Str ''A''), (''depth'', Num (Fin 10)), (''delta18O'', Num (Fin 3))],
      [(''depth'', Num (Fin 20)), (''subsection'', Str ''Imported-1700000000000-1'')],
      [(''subsection'', Str ''B''), (''depth'', Num (Fin 30)), (''tex86'', Num (Fin 0.5))]]"
proof -
  let ?B = "\<lparr>parseFloat = (\<lambda>s. if s = ''12'' then Fin 12 else if s = ''20'' then Fin 20
                        else if s = ''0.5'' then Fin 0.5 else NaN),
      stringToNumber = (\<lambda>s. NaN),
      numberToString = (\<lambda>n. if n = Fin 20 then ''20'' else if n = Fin 0.5 then ''0.5'' else []),
      trim = (\<lambda>s. if s = ''A '' then ''A'' else s), nearest_double = (\<lambda>x. x)\<rparr>"
  let ?clock = "\<lambda>i::nat. 1700000000000::nat"
  let ?points = "[[(''subsection'', Str ''A''), (''depth'', Num (Fin 10)), (''delta18O'', Num (Fin 3))],
      [(''subsection'', Str ''B''), (''depth'', Num (Fin 30))]]"
  let ?rows = "[[(''subsection'', Str ''B''), (''tex86'', Num (Fin 0.5))],
      [(''depth'', Num (Fin 20))]]"
  let ?st = "\<lparr>sectionProp = \<lparr>section_id = ''s1'', name = ''S1'',
        dataPoints = [[(''subsection'', Str ''A''), (''depth'', Num (Fin 10)), (''delta18O'', Num (Fin 3))],
      [(''subsection'', Str ''B''), (''depth'', Num (Fin 30))]],
        labAnalysis = None\<rparr>,
      formState = [(''subsection'', ''A ''), (''depth'', ''12'')], selectedFile = None,
      status = None, isProcessing = False, isMappingHeaders = False, csvHeaders = [],
      headerMap = None\<rparr>"
  let ?fm = "[(''Sample'', Some ''subsection''), (''TEX86'', Some ''tex86''), (''Depth'', Some ''depth'')]"
  let ?results = "\<lparr>meta_fields = Some [''Sample'', ''TEX86'', ''Depth''],
        data = [[(''Sample'', Str ''B''), (''TEX86'', Num (Fin 0.5)), (''Depth'', Null)],
                [(''Sample'', Null), (''TEX86'', Null), (''Depth'', Num (Fin 20))]],
        errors = []\<rparr>"
  let ?st2 = "\<lparr>sectionProp = \<lparr>section_id = ''s1'', name = ''S1'',
        dataPoints = [[(''subsection'', Str ''A''), (''depth'', Num (Fin 10)), (''delta18O'', Num (Fin 3))],
      [(''subsection'', Str ''B''), (''depth'', Num (Fin 30))]],
        labAnalysis = None\<rparr>,
      formState = initialFormState, selectedFile = Some ''core.csv'',
      status = None, isProcessing = True, isMappingHeaders = True,
      csvHeaders = [''Sample'', ''TEX86'', ''Depth''], headerMap = None\<rparr>"
  have u: "uniqueId ?clock (Suc 0) = ''Imported-1700000000000-1''"
    by (simp add: uniqueId_def show_nat.simps digit_char_def)
  have h0: "\<forall>row \<in> set ?rows. distinct (map fst row)"
    by simp
  have h2: "distinct (map (\<lambda>p. get p ''subsection'') ?points)"
    by (simp add: get_def)
  have h3: "\<forall>p \<in> set ?points \<union> set ?rows. numeric_or_absent (get p ''depth'')"
    by (simp add: get_def numeric_or_absent_def)
  have k: "usable_key ?B (get (?rows ! 0) ''subsection'')"
    by (simp add: usable_key_def get_def)
  have f1: "\<forall>p \<in> set ?points \<union> set ?rows. get p ''subsection'' \<noteq> Str (uniqueId ?clock 1)"
    by (simp add: u get_def)
  have hf: "\<forall>j < length ?rows. \<not> usable_key ?B (get (?rows ! j) ''subsection'') \<longrightarrow>
      (\<forall>p \<in> set ?points \<union> set ?rows. get p ''subsection'' \<noteq> Str (uniqueId ?clock j))"
  proof (intro allI impI)
    fix j assume "j < length ?rows" "\<not> usable_key ?B (get (?rows ! j) ''subsection'')"
    with k have "j = 1" by (cases j) auto
    with f1 show "\<forall>p \<in> set ?points \<union> set ?rows. get p ''subsection'' \<noteq> Str (uniqueId ?clock j)"
      by simp
  qed
  have t: "trim ?B (form_value (formState ?st) ''subsection'') = ''A''"
    by (simp add: form_value_def)
  have c: "collect_fields ?B (formState ?st) ''A''
      = ([(''subsection'', Str ''A''), (''depth'', Num (Fin 12))], True)"
    by (simp add: collect_fields_def read_field_def)
  note inst = C3_reconciler_merges_appends_and_sorts [OF h0 h3, of ?B ?clock ?st]
  from h2 have kept: "map snd (sectionPointsMap ?points) = ?points"
    using inst by blast
  from inst hf have "mergedPoints ?B ?clock ?points ?rows
      = array_sort (by_depth ?B) (reconciled ?B ?clock (map snd (sectionPointsMap ?points)) ?rows)"
    by blast
  also have "\<dots> = array_sort (by_depth ?B) (reconciled ?B ?clock ?points ?rows)"
    by (simp only: kept)
  also have "\<dots> = [[(''subsection'', Str ''A''), (''depth'', Num (Fin 10)), (''delta18O'', Num (Fin 3))],
      [(''depth'', Num (Fin 20)), (''subsection'', Str ''Imported-1700000000000-1'')],
      [(''subsection'', Str ''B''), (''depth'', Num (Fin 30)), (''tex86'', Num (Fin 0.5))]]"
    by (simp add: reconciled_def reconcile_row_def usable_key_def u merge_into_def spread_def
        get_def array_sort_def by_depth_def depth_key_def or_else_def)
  finally have m: "mergedPoints ?B ?clock ?points ?rows = [[(''subsection'', Str ''A''), (''depth'', Num (Fin 10)), (''delta18O'', Num (Fin 3))],
      [(''depth'', Num (Fin 20)), (''subsection'', Str ''Imported-1700000000000-1'')],
      [(''subsection'', Str ''B''), (''depth'', Num (Fin 30)), (''tex86'', Num (Fin 0.5))]]" .
  from inst h2 t c have "dataPoints (sectionProp (handleAddDataPoint ?B ?st))
      = array_sort (by_depth ?B)
          (merge_into ?points [(''subsection'', Str ''A''), (''depth'', Num (Fin 12))])"
    by simp
  also have "\<dots> = [[(''subsection'', Str ''A''), (''depth'', Num (Fin 12)), (''delta18O'', Num (Fin 3))],
      [(''subsection'', Str ''B''), (''depth'', Num (Fin 30))]]"
    by (simp add: merge_into_def spread_def get_def array_sort_def by_depth_def
        depth_key_def or_else_def)
  finally have a: "dataPoints (sectionProp (handleAddDataPoint ?B ?st)) = [[(''subsection'', Str ''A''), (''depth'', Num (Fin 12)), (''delta18O'', Num (Fin 3))],
      [(''subsection'', Str ''B''), (''depth'', Num (Fin 30))]]" .
  have pr: "parsedDataFromCsv ?B ?fm (data ?results) = ?rows"
    by (simp add: parsedDataFromCsv_def parse_row_def parse_cell_def)
  note inst2 = C3_reconciler_merges_appends_and_sorts
    [OF h0 h3, where B = ?B and clock = ?clock and st = ?st2 and results = ?results
       and finalMap = ?fm]
  from inst2 pr have "dataPoints (sectionProp (handleConfirmMapping ?B ?clock ?fm (Returns ?results) ?st2))
      = mergedPoints ?B ?clock ?points ?rows"
    by simp
  with m have f: "dataPoints (sectionProp (handleConfirmMapping ?B ?clock ?fm (Returns ?results) ?st2))
      = [[(''subsection'', Str ''A''), (''depth'', Num (Fin 10)), (''delta18O'', Num (Fin 3))],
      [(''depth'', Num (Fin 20)), (''subsection'', Str ''Imported-1700000000000-1'')],
      [(''subsection'', Str ''B''), (''depth'', Num (Fin 30)), (''tex86'', Num (Fin 0.5))]]"
    by (simp only:)
  from h0 have l0: "list_all (\<lambda>row. distinct (map fst row)) ?rows"
    by (simp only: list_all_iff)
  from h3 have l3: "list_all (\<lambda>p. numeric_or_absent (get p ''depth'')) (?points @ ?rows)"
    by (simp only: list_all_iff set_append)
  from f1 have l1: "list_all (\<lambda>p. get p ''subsection'' \<noteq> Str (uniqueId ?clock 1)) (?points @ ?rows)"
    by (simp only: list_all_iff set_append)
  from l0 l3 l1 h2 m a f show ?thesis by blast
qed
section \<open>Rows without a key\<close>

lemma map_of_merge_point:
  "map_of (merge_point B clock ir m) k =
     (if k = row_key B clock ir
      then Some (if usable_key B (get (snd ir) ''subsection'') then spread (map_get m k) (snd ir)
                 else set_prop ''subsection'' (Str (uniqueId clock (fst ir))) (snd ir))
      else map_of m k)"
  by (simp add: merge_point_def row_key_def Let_def map_of_set_prop)

lemma fold_merge_point_other:
  "\<forall>ir \<in> set irs. row_key B clock ir \<noteq> k \<Longrightarrow>
   map_of (fold (merge_point B clock) irs m) k = map_of m k"
  by (induction irs arbitrary: m) (auto simp: map_of_merge_point)

lemma enumerate_split:
  "i < length rows \<Longrightarrow>
   enumerate 0 rows
     = enumerate 0 (take i rows) @ (i, rows ! i) # enumerate (Suc i) (drop (Suc i) rows)"
proof -
  assume i: "i < length rows"
  then have "enumerate 0 rows = enumerate 0 (take i rows @ rows ! i # drop (Suc i) rows)"
    by (simp add: id_take_nth_drop [symmetric])
  also from i have "\<dots> = enumerate 0 (take i rows) @ (i, rows ! i) # enumerate (Suc i) (drop (Suc i) rows)"
    by (simp add: enumerate_append_eq min_def)
  finally show ?thesis .
qed

lemma later_rows:
  "ir \<in> set (enumerate (Suc i) (drop (Suc i) rows)) \<Longrightarrow>
   i < fst ir \<and> fst ir < length rows \<and> snd ir = rows ! fst ir"
  by (auto simp: in_set_enumerate_eq)

lemma same_key_rows_are_keyed:
  assumes fresh: "\<forall>i j. i < length rows \<and> j < length rows \<and>
      \<not> usable_key B (get (rows ! j) ''subsection'') \<longrightarrow>
      get (rows ! i) ''subsection'' \<noteq> Str (uniqueId clock j)"
    and "i < length rows" "j < length rows" "i \<noteq> j"
    and "row_key B clock (i, rows ! i) = row_key B clock (j, rows ! j)"
  shows "usable_key B (get (rows ! i) ''subsection'') \<and> usable_key B (get (rows ! j) ''subsection'')"
proof (rule ccontr)
  assume "\<not> ?thesis"
  then consider "\<not> usable_key B (get (rows ! i) ''subsection'')"
    | "\<not> usable_key B (get (rows ! j) ''subsection'')" by blast
  then show False
  proof cases
    case 1
    show False
    proof (cases "usable_key B (get (rows ! j) ''subsection'')")
      case True
      with 1 assms(5) have "get (rows ! j) ''subsection'' = Str (uniqueId clock i)"
        by (simp add: row_key_def)
      with fresh assms(2,3) 1 show False by blast
    next
      case False
      with 1 assms(5) have "uniqueId clock i = uniqueId clock j"
        by (simp add: row_key_def)
      with assms(4) show False by (auto dest: uniqueId_inj)
    qed
  next
    case 2
    show False
    proof (cases "usable_key B (get (rows ! i) ''subsection'')")
      case True
      with 2 assms(5) have "get (rows ! i) ''subsection'' = Str (uniqueId clock j)"
        by (simp add: row_key_def)
      with fresh assms(2,3) 2 show False by blast
    next
      case False
      with 2 assms(5) have "uniqueId clock i = uniqueId clock j"
        by (simp add: row_key_def)
      with assms(4) show False by (auto dest: uniqueId_inj)
    qed
  qed
qed

lemma fold_merge_point_held:
  assumes "map_of m k = Some p" "get p ''subsection'' = k"
    and "\<forall>ir \<in> set irs. row_key B clock ir = k \<longrightarrow>
           usable_key B (get (snd ir) ''subsection'') \<and> distinct (map fst (snd ir)) \<and>
           F \<inter> fst ` set (snd ir) = {}"
  shows "\<exists>q. map_of (fold (merge_point B clock) irs m) k = Some q \<and>
             get q ''subsection'' = k \<and> (\<forall>f \<in> F. get q f = get p f)"
  using assms
proof (induction irs arbitrary: m p)
  case Nil
  then show ?case by simp
next
  case (Cons ir irs)
  show ?case
  proof (cases "row_key B clock ir = k")
    case False
    with Cons.prems(1) have "map_of (merge_point B clock ir m) k = Some p"
      by (simp add: map_of_merge_point)
    from Cons.IH [OF this Cons.prems(2)] Cons.prems(3) show ?thesis by simp
  next
    case True
    with Cons.prems(3) have u: "usable_key B (get (snd ir) ''subsection'')"
      and d: "distinct (map fst (snd ir))" and F: "F \<inter> fst ` set (snd ir) = {}"
      by simp_all
    from True u have ks: "get (snd ir) ''subsection'' = k"
      by (simp add: row_key_def)
    let ?q = "spread p (snd ir)"
    from True u Cons.prems(1) have l: "map_of (merge_point B clock ir m) k = Some ?q"
      by (simp add: map_of_merge_point map_get_def)
    from u have "''subsection'' \<in> fst ` set (snd ir)" by (rule usable_key_present)
    with d ks have key: "get ?q ''subsection'' = k"
      by (simp add: get_spread)
    have same: "\<forall>f \<in> F. get ?q f = get p f"
    proof
      fix f assume "f \<in> F"
      with F have "f \<notin> fst ` set (snd ir)" by blast
      then show "get ?q f = get p f" by (rule get_spread_other)
    qed
    from Cons.prems(3) have rest: "\<forall>ir \<in> set irs. row_key B clock ir = k \<longrightarrow>
           usable_key B (get (snd ir) ''subsection'') \<and> distinct (map fst (snd ir)) \<and>
           F \<inter> fst ` set (snd ir) = {}"
      by simp
    from Cons.IH [OF l key rest]
    obtain q where "map_of (fold (merge_point B clock) irs (merge_point B clock ir m)) k = Some q"
      "get q ''subsection'' = k" "\<forall>f \<in> F. get q f = get ?q f"
      by blast
    with same show ?thesis by auto
  qed
qed

lemma final_map_unkeyed:
  assumes fresh: "\<forall>i j. i < length rows \<and> j < length rows \<and>
      \<not> usable_key B (get (rows ! j) ''subsection'') \<longrightarrow>
      get (rows ! i) ''subsection'' \<noteq> Str (uniqueId clock j)"
    and i: "i < length rows"
    and u: "\<not> usable_key B (get (rows ! i) ''subsection'')"
  shows "map_of (fold (merge_point B clock) (enumerate 0 rows) m) (Str (uniqueId clock i))
           = Some (set_prop ''subsection'' (Str (uniqueId clock i)) (rows ! i))"
proof -
  let ?before = "enumerate 0 (take i rows)"
  let ?after = "enumerate (Suc i) (drop (Suc i) rows)"
  let ?m1 = "fold (merge_point B clock) ?before m"
  let ?m2 = "merge_point B clock (i, rows ! i) ?m1"
  from i have f: "fold (merge_point B clock) (enumerate 0 rows) m = fold (merge_point B clock) ?after ?m2"
    by (simp add: enumerate_split [of i rows])
  from u have rk: "row_key B clock (i, rows ! i) = Str (uniqueId clock i)"
    by (simp add: row_key_def)
  have "\<forall>ir \<in> set ?after. row_key B clock ir \<noteq> Str (uniqueId clock i)"
  proof (intro ballI notI)
    fix ir assume a: "ir \<in> set ?after" "row_key B clock ir = Str (uniqueId clock i)"
    from a(1) have l: "i < fst ir" "fst ir < length rows" "snd ir = rows ! fst ir"
      using later_rows [of ir i rows] by simp_all
    then have "ir = (fst ir, rows ! fst ir)" by (cases ir) simp
    with a(2) rk have "row_key B clock (i, rows ! i) = row_key B clock (fst ir, rows ! fst ir)"
      by simp
    from same_key_rows_are_keyed [OF fresh i l(2) _ this] l u show False by simp
  qed
  then have "map_of (fold (merge_point B clock) ?after ?m2) (Str (uniqueId clock i))
      = map_of ?m2 (Str (uniqueId clock i))"
    by (rule fold_merge_point_other)
  with u show ?thesis
    by (simp add: f map_of_merge_point row_key_def)
qed

lemma final_map_keyed:
  assumes fresh: "\<forall>i j. i < length rows \<and> j < length rows \<and>
      \<not> usable_key B (get (rows ! j) ''subsection'') \<longrightarrow>
      get (rows ! i) ''subsection'' \<noteq> Str (uniqueId clock j)"
    and objs: "\<forall>row \<in> set rows. distinct (map fst row)"
    and i: "i < length rows"
    and u: "usable_key B (get (rows ! i) ''subsection'')"
  shows "\<exists>q. map_of (fold (merge_point B clock) (enumerate 0 rows) m) (get (rows ! i) ''subsection'')
               = Some q \<and>
             get q ''subsection'' = get (rows ! i) ''subsection'' \<and>
             (\<forall>f \<in> fst ` set (rows ! i).
                (\<forall>j. i < j \<and> j < length rows \<and>
                     get (rows ! j) ''subsection'' = get (rows ! i) ''subsection'' \<longrightarrow>
                     f \<notin> fst ` set (rows ! j)) \<longrightarrow>
                get q f = get (rows ! i) f)"
proof -
  let ?k = "get (rows ! i) ''subsection''"
  let ?F = "{f \<in> fst ` set (rows ! i).
      \<forall>j. i < j \<and> j < length rows \<and> get (rows ! j) ''subsection'' = ?k \<longrightarrow>
          f \<notin> fst ` set (rows ! j)}"
  let ?before = "enumerate 0 (take i rows)"
  let ?after = "enumerate (Suc i) (drop (Suc i) rows)"
  let ?m1 = "fold (merge_point B clock) ?before m"
  let ?m2 = "merge_point B clock (i, rows ! i) ?m1"
  let ?p = "spread (map_get ?m1 ?k) (rows ! i)"
  from i have f: "fold (merge_point B clock) (enumerate 0 rows) m = fold (merge_point B clock) ?after ?m2"
    by (simp add: enumerate_split [of i rows])
  from u have rk: "row_key B clock (i, rows ! i) = ?k"
    by (simp add: row_key_def)
  from i objs have d: "distinct (map fst (rows ! i))" by simp
  from u have pres: "''subsection'' \<in> fst ` set (rows ! i)" by (rule usable_key_present)
  from u have own: "map_of ?m2 ?k = Some ?p"
    by (simp add: map_of_merge_point row_key_def)
  from d pres have key: "get ?p ''subsection'' = ?k"
    by (simp add: get_spread)
  from d have vals: "\<forall>f \<in> fst ` set (rows ! i). get ?p f = get (rows ! i) f"
    by (simp add: get_spread)
  have later: "\<forall>ir \<in> set ?after. row_key B clock ir = ?k \<longrightarrow>
      usable_key B (get (snd ir) ''subsection'') \<and> distinct (map fst (snd ir)) \<and>
      ?F \<inter> fst ` set (snd ir) = {}"
  proof (intro ballI impI)
    fix ir assume a: "ir \<in> set ?after" "row_key B clock ir = ?k"
    from a(1) have l: "i < fst ir" "fst ir < length rows" "snd ir = rows ! fst ir"
      using later_rows [of ir i rows] by simp_all
    then have "ir = (fst ir, rows ! fst ir)" by (cases ir) simp
    with a(2) rk have "row_key B clock (i, rows ! i) = row_key B clock (fst ir, rows ! fst ir)"
      by simp
    from same_key_rows_are_keyed [OF fresh i l(2) _ this] l
    have uk: "usable_key B (get (rows ! fst ir) ''subsection'')" by simp
    with a(2) l(3) have same: "get (rows ! fst ir) ''subsection'' = ?k"
      by (simp add: row_key_def)
    from l(2) objs have dd: "distinct (map fst (rows ! fst ir))" by simp
    from l(1,2) same have "?F \<inter> fst ` set (rows ! fst ir) = {}" by blast
    with uk dd l(3) show "usable_key B (get (snd ir) ''subsection'') \<and>
        distinct (map fst (snd ir)) \<and> ?F \<inter> fst ` set (snd ir) = {}"
      by simp
  qed
  from fold_merge_point_held [OF own key later]
  obtain q where q: "map_of (fold (merge_point B clock) ?after ?m2) ?k = Some q"
    "get q ''subsection'' = ?k" "\<forall>f \<in> ?F. get q f = get ?p f"
    by blast
  from q(3) vals have "\<forall>f \<in> fst ` set (rows ! i).
      (\<forall>j. i < j \<and> j < length rows \<and> get (rows ! j) ''subsection'' = ?k \<longrightarrow>
           f \<notin> fst ` set (rows ! j)) \<longrightarrow>
      get q f = get (rows ! i) f"
    by simp
  with q(1,2) show ?thesis
    unfolding f by blast
qed

lemma merged_point_of_map:
  "map_of (fst (merge_rows B clock points rows)) k = Some p \<Longrightarrow>
   p \<in> set (mergedPoints B clock points rows)"
  by (force simp: mergedPoints_def set_array_sort dest: map_of_SomeD)

text \<open>
  C6, as stated, fails: when a row of the batch carries as its own subsection the key that is
  generated for a later row without a key, the later row is stored over it and the earlier
  row is gone from the merged result.
\<close>

theorem C6_generated_key_collision_counterexample:
  "mergedPoints
     \<lparr>parseFloat = (\<lambda>s. NaN), stringToNumber = (\<lambda>s. NaN), numberToString = (\<lambda>n. []),
      trim = (\<lambda>s. s), nearest_double = (\<lambda>x. x)\<rparr>
     (\<lambda>i. 1700000000000) []
     [[(''subsection'', Str ''Imported-1700000000000-1''), (''delta18O'', Num (Fin 1))],
      [(''depth'', Num (Fin 3))]]
    = [[(''depth'', Num (Fin 3)), (''subsection'', Str ''Imported-1700000000000-1'')]]"
  by (simp add: mergedPoints_def merge_rows_def merge_row_def merge_point_def
      sectionPointsMap_def uniqueId_def show_nat.simps digit_char_def usable_key_def
      get_def spread_def map_get_def array_sort_def Let_def)

text \<open>
  C6, amended. Take a batch of rows that are objects, as the rows parsed from a file are, in
  which no row carries as its own subsection a key generated for a row of the batch. Every
  row without a usable subsection key is stored under the generated key made of the
  timestamp and its index; the generated keys of different rows differ; and the row appears
  in the merged result as its own point, with exactly its fields and the generated key.
  Every row with a usable subsection key is found in the merged result in the point of that
  key, which holds under each field of the row the value of the row, unless a later row of
  the batch with the same key carries the field (and is merged over it). So no row is
  dropped. The series that a confirmed import hands on is this merged result.
\<close>

theorem C6_generated_keys_keep_every_row:
  assumes "\<forall>i j. i < length rows \<and> j < length rows \<and>
      \<not> usable_key B (get (rows ! j) ''subsection'') \<longrightarrow>
      get (rows ! i) ''subsection'' \<noteq> Str (uniqueId clock j)"
    and "\<forall>row \<in> set rows. distinct (map fst row)"
  shows "(\<forall>i j. uniqueId clock i = uniqueId clock j \<longrightarrow> i = j) \<and>
         (\<forall>i < length rows. \<not> usable_key B (get (rows ! i) ''subsection'') \<longrightarrow>
            set_prop ''subsection'' (Str (uniqueId clock i)) (rows ! i)
              \<in> set (mergedPoints B clock points rows) \<and>
            get (set_prop ''subsection'' (Str (uniqueId clock i)) (rows ! i)) ''subsection''
              = Str (''Imported-'' @ show_nat (clock i) @ ''-'' @ show_nat i)) \<and>
         (\<forall>i < length rows. usable_key B (get (rows ! i) ''subsection'') \<longrightarrow>
            (\<exists>p \<in> set (mergedPoints B clock points rows).
               get p ''subsection'' = get (rows ! i) ''subsection'' \<and>
               (\<forall>f \<in> fst ` set (rows ! i).
                  (\<forall>j. i < j \<and> j < length rows \<and>
                       get (rows ! j) ''subsection'' = get (rows ! i) ''subsection'' \<longrightarrow>
                       f \<notin> fst ` set (rows ! j)) \<longrightarrow>
                  get p f = get (rows ! i) f))) \<and>
         (selectedFile st \<noteq> None \<and> errors results = [] \<and>
          dataPoints (sectionProp st) = points \<and>
          parsedDataFromCsv B finalMap (data results) = rows \<and> rows \<noteq> [] \<longrightarrow>
            dataPoints (sectionProp (handleConfirmMapping B clock finalMap (Returns results) st))
              = mergedPoints B clock points rows) \<and>
         (\<forall>row \<in> set (parsedDataFromCsv B finalMap raw). distinct (map fst row))"
proof -
  have c1: "\<forall>i j. uniqueId clock i = uniqueId clock j \<longrightarrow> i = j"
    by (auto dest: uniqueId_inj)
  have c2: "\<forall>i < length rows. \<not> usable_key B (get (rows ! i) ''subsection'') \<longrightarrow>
            set_prop ''subsection'' (Str (uniqueId clock i)) (rows ! i)
              \<in> set (mergedPoints B clock points rows) \<and>
            get (set_prop ''subsection'' (Str (uniqueId clock i)) (rows ! i)) ''subsection''
              = Str (''Imported-'' @ show_nat (clock i) @ ''-'' @ show_nat i)"
  proof (intro allI impI conjI)
    fix i assume i: "i < length rows" and u: "\<not> usable_key B (get (rows ! i) ''subsection'')"
    from final_map_unkeyed [OF assms(1) i u, of "sectionPointsMap points"]
    show "set_prop ''subsection'' (Str (uniqueId clock i)) (rows ! i)
        \<in> set (mergedPoints B clock points rows)"
      by (intro merged_point_of_map [of _ _ _ _ "Str (uniqueId clock i)"]) (simp add: fst_merge_rows)
    show "get (set_prop ''subsection'' (Str (uniqueId clock i)) (rows ! i)) ''subsection''
        = Str (''Imported-'' @ show_nat (clock i) @ ''-'' @ show_nat i)"
      by (simp add: get_set_prop uniqueId_def)
  qed
  have c3: "\<forall>i < length rows. usable_key B (get (rows ! i) ''subsection'') \<longrightarrow>
            (\<exists>p \<in> set (mergedPoints B clock points rows).
               get p ''subsection'' = get (rows ! i) ''subsection'' \<and>
               (\<forall>f \<in> fst ` set (rows ! i).
                  (\<forall>j. i < j \<and> j < length rows \<and>
                       get (rows ! j) ''subsection'' = get (rows ! i) ''subsection'' \<longrightarrow>
                       f \<notin> fst ` set (rows ! j)) \<longrightarrow>
                  get p f = get (rows ! i) f))"
  proof (intro allI impI)
    fix i assume i: "i < length rows" and u: "usable_key B (get (rows ! i) ''subsection'')"
    from final_map_keyed [OF assms i u, of "sectionPointsMap points"]
    obtain q where q: "map_of (fst (merge_rows B clock points rows)) (get (rows ! i) ''subsection'')
          = Some q"
        "get q ''subsection'' = get (rows ! i) ''subsection''"
        "\<forall>f \<in> fst ` set (rows ! i).
           (\<forall>j. i < j \<and> j < length rows \<and>
                get (rows ! j) ''subsection'' = get (rows ! i) ''subsection'' \<longrightarrow>
                f \<notin> fst ` set (rows ! j)) \<longrightarrow>
           get q f = get (rows ! i) f"
      unfolding fst_merge_rows by blast
    from q(1) have "q \<in> set (mergedPoints B clock points rows)"
      by (rule merged_point_of_map)
    with q(2,3) show "\<exists>p \<in> set (mergedPoints B clock points rows).
               get p ''subsection'' = get (rows ! i) ''subsection'' \<and>
               (\<forall>f \<in> fst ` set (rows ! i).
                  (\<forall>j. i < j \<and> j < length rows \<and>
                       get (rows ! j) ''subsection'' = get (rows ! i) ''subsection'' \<longrightarrow>
                       f \<notin> fst ` set (rows ! j)) \<longrightarrow>
                  get p f = get (rows ! i) f)"
      by blast
  qed
  have c4: "selectedFile st \<noteq> None \<and> errors results = [] \<and>
          dataPoints (sectionProp st) = points \<and>
          parsedDataFromCsv B finalMap (data results) = rows \<and> rows \<noteq> [] \<longrightarrow>
            dataPoints (sectionProp (handleConfirmMapping B clock finalMap (Returns results) st))
              = mergedPoints B clock points rows"
    using confirm_merges [of st results B finalMap clock] by auto
  have c5: "\<forall>row \<in> set (parsedDataFromCsv B finalMap raw). distinct (map fst row)"
    using parsed_rows_are_objects [of _ B finalMap raw] by blast
  show ?thesis
    by (intro conjI) (fact c1 c2 c3 c4 c5)+
qed

theorem C6_witness:
  "list_all (\<lambda>row. distinct (map fst row) \<and>
               get row ''subsection'' \<noteq> Str (uniqueId (\<lambda>i. 1700000000000) 0))
     [[(''depth'', Num (Fin 120)), (''delta18O'', Num (Fin 3.45))],
      [(''subsection'', Str ''A''), (''depth'', Num (Fin 5))]] \<and>
   usable_key
     \<lparr>parseFloat = (\<lambda>s. if s = ''120'' then Fin 120 else if s = ''3.45'' then Fin 3.45
                        else if s = ''5'' then Fin 5 else NaN),
      stringToNumber = (\<lambda>s. NaN),
      numberToString = (\<lambda>n. if n = Fin 120 then ''120'' else if n = Fin 3.45 then ''3.45''
                            else if n = Fin 5 then ''5'' else []),
      trim = (\<lambda>s. s), nearest_double = (\<lambda>x. x)\<rparr>
     (get ([[(''depth'', Num (Fin 120)), (''delta18O'', Num (Fin 3.45))],
      [(''subsection'', Str ''A''), (''depth'', Num (Fin 5))]] ! 1) ''subsection'') \<and>
   [(''depth'', Num (Fin 120)), (''delta18O'', Num (Fin 3.45)),
    (''subsection'', Str ''Imported-1700000000000-0'')]
     \<in> set (mergedPoints
         \<lparr>parseFloat = (\<lambda>s. if s = ''120'' then Fin 120 else if s = ''3.45'' then Fin 3.45
                        else if s = ''5'' then Fin 5 else NaN),
      stringToNumber = (\<lambda>s. NaN),
      numberToString = (\<lambda>n. if n = Fin 120 then ''120'' else if n = Fin 3.45 then ''3.45''
                            else if n = Fin 5 then ''5'' else []),
      trim = (\<lambda>s. s), nearest_double = (\<lambda>x. x)\<rparr>
         (\<lambda>i. 1700000000000) []
         [[(''depth'', Num (Fin 120)), (''delta18O'', Num (Fin 3.45))],
      [(''subsection'', Str ''A''), (''depth'', Num (Fin 5))]]) \<and>
   (\<exists>p \<in> set (mergedPoints
         \<lparr>parseFloat = (\<lambda>s. if s = ''120'' then Fin 120 else if s = ''3.45'' then Fin 3.45
                        else if s = ''5'' then Fin 5 else NaN),
      stringToNumber = (\<lambda>s. NaN),
      numberToString = (\<lambda>n. if n = Fin 120 then ''120'' else if n = Fin 3.45 then ''3.45''
                            else if n = Fin 5 then ''5'' else []),
      trim = (\<lambda>s. s), nearest_double = (\<lambda>x. x)\<rparr>
         (\<lambda>i. 1700000000000) []
         [[(''depth'', Num (Fin 120)), (''delta18O'', Num (Fin 3.45))],
      [(''subsection'', Str ''A''), (''depth'', Num (Fin 5))]]).
      get p ''subsection'' = Str ''A'' \<and> get p ''depth'' = Num (Fin 5)) \<and>
   dataPoints (sectionProp (handleConfirmMapping
     \<lparr>parseFloat = (\<lambda>s. if s = ''120'' then Fin 120 else if s = ''3.45'' then Fin 3.45
                        else if s = ''5'' then Fin 5 else NaN),
      stringToNumber = (\<lambda>s. NaN),
      numberToString = (\<lambda>n. if n = Fin 120 then ''120'' else if n = Fin 3.45 then ''3.45''
                            else if n = Fin 5 then ''5'' else []),
      trim = (\<lambda>s. s), nearest_double = (\<lambda>x. x)\<rparr>
     (\<lambda>i. 1700000000000)
     [(''Sample'', Some ''subsection''), (''Depth'', Some ''depth''), (''d18O'', Some ''delta18O'')]
     (Returns \<lparr>meta_fields = Some [''Sample'', ''Depth'', ''d18O''],
        data = [[(''Sample'', Null), (''Depth'', Num (Fin 120)), (''d18O'', Num (Fin 3.45))],
                [(''Sample'', Str ''A''), (''Depth'', Num (Fin 5)), (''d18O'', Null)]],
        errors = []\<rparr>)
     \<lparr>sectionProp = \<lparr>section_id = ''s1'', name = ''S1'', dataPoints = [],
        labAnalysis = None\<rparr>,
      formState = initialFormState, selectedFile = Some ''core.csv'',
      status = None, isProcessing = True, isMappingHeaders = True,
      csvHeaders = [''Sample'', ''Depth'', ''d18O''], headerMap = None\<rparr>))
    = mergedPoints
     \<lparr>parseFloat = (\<lambda>s. if s = ''120'' then Fin 120 else if s = ''3.45'' then Fin 3.45
                        else if s = ''5'' then Fin 5 else NaN),
      stringToNumber = (\<lambda>s. NaN),
      numberToString = (\<lambda>n. if n = Fin 120 then ''120'' else if n = Fin 3.45 then ''3.45''
                            else if n = Fin 5 then ''5'' else []),
      trim = (\<lambda>s. s), nearest_double = (\<lambda>x. x)\<rparr>
         (\<lambda>i. 1700000000000) []
         [[(''depth'', Num (Fin 120)), (''delta18O'', Num (Fin 3.45))],
      [(''subsection'', Str ''A''), (''depth'', Num (Fin 5))]]"
proof -
  let ?B = "\<lparr>parseFloat = (\<lambda>s. if s = ''120'' then Fin 120 else if s = ''3.45'' then Fin 3.45
                        else if s = ''5'' then Fin 5 else NaN),
      stringToNumber = (\<lambda>s. NaN),
      numberToString = (\<lambda>n. if n = Fin 120 then ''120'' else if n = Fin 3.45 then ''3.45''
                            else if n = Fin 5 then ''5'' else []),
      trim = (\<lambda>s. s), nearest_double = (\<lambda>x. x)\<rparr>"
  let ?rows = "[[(''depth'', Num (Fin 120)), (''delta18O'', Num (Fin 3.45))],
      [(''subsection'', Str ''A''), (''depth'', Num (Fin 5))]]"
  let ?clock = "\<lambda>i::nat. 1700000000000::nat"
  let ?fm = "[(''Sample'', Some ''subsection''), (''Depth'', Some ''depth''), (''d18O'', Some ''delta18O'')]"
  let ?results = "\<lparr>meta_fields = Some [''Sample'', ''Depth'', ''d18O''],
        data = [[(''Sample'', Null), (''Depth'', Num (Fin 120)), (''d18O'', Num (Fin 3.45))],
                [(''Sample'', Str ''A''), (''Depth'', Num (Fin 5)), (''d18O'', Null)]],
        errors = []\<rparr>"
  let ?st = "\<lparr>sectionProp = \<lparr>section_id = ''s1'', name = ''S1'', dataPoints = [],
        labAnalysis = None\<rparr>,
      formState = initialFormState, selectedFile = Some ''core.csv'',
      status = None, isProcessing = True, isMappingHeaders = True,
      csvHeaders = [''Sample'', ''Depth'', ''d18O''], headerMap = None\<rparr>"
  have u: "uniqueId ?clock 0 = ''Imported-1700000000000-0''"
    by (simp add: uniqueId_def show_nat.simps digit_char_def)
  have k: "\<not> usable_key ?B (get (?rows ! 0) ''subsection'')"
    "usable_key ?B (get (?rows ! 1) ''subsection'')"
    by (simp_all add: usable_key_def get_def)
  have h: "\<forall>i j. i < length ?rows \<and> j < length ?rows \<and>
       \<not> usable_key ?B (get (?rows ! j) ''subsection'') \<longrightarrow>
       get (?rows ! i) ''subsection'' \<noteq> Str (uniqueId ?clock j)"
  proof (intro allI impI)
    fix i j assume a: "i < length ?rows \<and> j < length ?rows \<and>
       \<not> usable_key ?B (get (?rows ! j) ''subsection'')"
    with k(2) have "j = 0" by (cases j) auto
    moreover from a have "i = 0 \<or> i = 1" by auto
    ultimately show "get (?rows ! i) ''subsection'' \<noteq> Str (uniqueId ?clock j)"
      by (auto simp: u get_def)
  qed
  have o: "\<forall>row \<in> set ?rows. distinct (map fst row)"
    by simp
  note inst = C6_generated_keys_keep_every_row
    [OF h o, where points = "[]" and st = ?st and results = ?results and finalMap = ?fm]
  have pr: "parsedDataFromCsv ?B ?fm (data ?results) = ?rows"
    by (simp add: parsedDataFromCsv_def parse_row_def parse_cell_def)
  from inst pr have tie: "dataPoints (sectionProp (handleConfirmMapping ?B ?clock ?fm (Returns ?results) ?st))
      = mergedPoints ?B ?clock [] ?rows"
    by simp
  from inst have "\<forall>i < length ?rows. \<not> usable_key ?B (get (?rows ! i) ''subsection'') \<longrightarrow>
      set_prop ''subsection'' (Str (uniqueId ?clock i)) (?rows ! i)
        \<in> set (mergedPoints ?B ?clock [] ?rows)"
    by blast
  from this [rule_format, of 0] k(1)
  have "set_prop ''subsection'' (Str (uniqueId ?clock 0)) (?rows ! 0)
      \<in> set (mergedPoints ?B ?clock [] ?rows)"
    by simp
  then have own: "[(''depth'', Num (Fin 120)), (''delta18O'', Num (Fin 3.45)),
      (''subsection'', Str ''Imported-1700000000000-0'')]
     \<in> set (mergedPoints ?B ?clock [] ?rows)"
    by (simp add: u)
  from inst have "\<forall>i < length ?rows. usable_key ?B (get (?rows ! i) ''subsection'') \<longrightarrow>
      (\<exists>p \<in> set (mergedPoints ?B ?clock [] ?rows).
         get p ''subsection'' = get (?rows ! i) ''subsection'' \<and>
         (\<forall>f \<in> fst ` set (?rows ! i).
            (\<forall>j. i < j \<and> j < length ?rows \<and>
                 get (?rows ! j) ''subsection'' = get (?rows ! i) ''subsection'' \<longrightarrow>
                 f \<notin> fst ` set (?rows ! j)) \<longrightarrow>
            get p f = get (?rows ! i) f))"
    by blast
  from this [rule_format, of 1] k(2)
  obtain p where p: "p \<in> set (mergedPoints ?B ?clock [] ?rows)"
      "get p ''subsection'' = get (?rows ! 1) ''subsection''"
      "\<forall>f \<in> fst ` set (?rows ! 1).
            (\<forall>j. 1 < j \<and> j < length ?rows \<and>
                 get (?rows ! j) ''subsection'' = get (?rows ! 1) ''subsection'' \<longrightarrow>
                 f \<notin> fst ` set (?rows ! j)) \<longrightarrow>
            get p f = get (?rows ! 1) f"
    by auto
  from p(3) have "get p ''depth'' = get (?rows ! 1) ''depth''"
    by simp
  with p(1,2) have kept: "\<exists>p \<in> set (mergedPoints ?B ?clock [] ?rows).
      get p ''subsection'' = Str ''A'' \<and> get p ''depth'' = Num (Fin 5)"
    by (auto simp: get_def)
  have "list_all (\<lambda>row. distinct (map fst row) \<and>
      get row ''subsection'' \<noteq> Str (uniqueId ?clock 0)) ?rows"
    by (simp add: u get_def)
  with own kept k(2) tie show ?thesis by blast
qed
end
